(* ===== verification/Prelude.thy ===== *)
theory Prelude
  imports Main "HOL-Library.Word"
begin

text \<open>
  Shared vocabulary of the development: the machine integer types of the C++ sources, the
  little-endian byte layout that \<open>memcpy\<close> of a packed struct exposes on the supported
  targets, the interface that every fixed-width wire layout satisfies, and generic facts on
  lists used by several components.
\<close>

unbundle bit_operations_syntax

section \<open>Machine types\<close>

type_synonym u8 = "8 word"
type_synonym u16 = "16 word"
type_synonym u32 = "32 word"
type_synonym u64 = "64 word"
type_synonym bytes = "8 word list"

text \<open>
  \<open>int8_t\<close> values that are only compared for equality or stored are kept as the 8-bit word
  with the same bits; where the sources order them, the signed reading \<open>sint\<close> is used.
\<close>

type_synonym i8 = "8 word"

named_theorems codec_simps \<open>unfolding rules for the fixed-width wire layouts\<close>
named_theorems frame_rules \<open>which fields an operation leaves unchanged\<close>
named_theorems invar_intros \<open>operations preserving a component invariant\<close>

section \<open>Little-endian byte layout\<close>

text \<open>
  \<open>word_le n w\<close> are the \<open>n\<close> low bytes of \<open>w\<close>, least significant byte first; \<open>le_word\<close> reads
  such a run of bytes back.
\<close>

definition word_le :: "nat \<Rightarrow> 'a::len word \<Rightarrow> bytes" where
  "word_le n w = map (\<lambda>i. ucast (drop_bit (8 * i) w)) [0..<n]"

fun le_word :: "bytes \<Rightarrow> 'a::len word" where
  "le_word [] = 0"
| "le_word (b # bs) = ucast b OR push_bit 8 (le_word bs)"

lemma length_word_le [simp]: "length (word_le n w) = n"
  by (simp add: word_le_def)

lemma word_le_nth [simp]: "i < n \<Longrightarrow> word_le n w ! i = ucast (drop_bit (8 * i) w)"
  by (simp add: word_le_def)

lemma bit_le_word:
  "bit (le_word bs :: 'a::len word) i \<longleftrightarrow>
     i < LENGTH('a) \<and> i < 8 * length bs \<and> bit (bs ! (i div 8)) (i mod 8)"
proof (induction bs arbitrary: i)
  case Nil
  then show ?case by simp
next
  case (Cons b bs)
  show ?case
  proof (cases "i < 8")
    case True
    then show ?thesis
      by (auto simp: bit_or_iff bit_push_bit_iff bit_ucast_iff)
  next
    case False
    then have "i div 8 = Suc ((i - 8) div 8)" and "i mod 8 = (i - 8) mod 8"
      by (simp_all add: le_div_geq le_mod_geq)
    moreover have "\<not> bit (ucast b :: 'a word) i"
      using False bit_imp_le_length [of b i] by (auto simp: bit_ucast_iff)
    ultimately show ?thesis
      using False Cons.IH [of "i - 8"]
      by (auto simp: bit_or_iff bit_push_bit_iff)
  qed
qed

lemma le_word_word_le:
  assumes "LENGTH('a::len) = 8 * n"
  shows "le_word (word_le n w) = (w :: 'a word)"
proof (rule bit_word_eqI)
  fix i assume i: "i < LENGTH('a)"
  then have d: "i div 8 < n" using assms by simp
  have "8 * (i div 8) + i mod 8 = i" by simp
  then show "bit (le_word (word_le n w) :: 'a word) i \<longleftrightarrow> bit w i"
    using i d assms by (simp add: bit_le_word bit_ucast_iff bit_drop_bit_eq)
qed

lemma word_le_le_word:
  assumes "LENGTH('a::len) = 8 * n" and "length bs = n"
  shows "word_le n (le_word bs :: 'a word) = bs"
proof (rule nth_equalityI)
  show "length (word_le n (le_word bs :: 'a word)) = length bs"
    using assms by simp
next
  fix i assume "i < length (word_le n (le_word bs :: 'a word))"
  then have i: "i < n" by simp
  show "word_le n (le_word bs :: 'a word) ! i = bs ! i"
  proof (rule bit_word_eqI)
    fix j assume j: "j < LENGTH(8)"
    then have "(8 * i + j) div 8 = i" and "(8 * i + j) mod 8 = j" and "8 * i + j < 8 * n"
      using i by simp_all
    then show "bit (word_le n (le_word bs :: 'a word) ! i) j \<longleftrightarrow> bit (bs ! i) j"
      using i j assms by (simp add: bit_ucast_iff bit_drop_bit_eq bit_le_word)
  qed
qed

section \<open>Fixed-width wire layouts\<close>

text \<open>
  What a packed struct promises its users: every value occupies exactly \<open>width\<close> bytes, the
  reader looks at the first \<open>width\<close> bytes only, and the two directions are inverse. The
  senders and receivers of the wire protocols are verified against this interface.
\<close>

locale wire_layout =
  fixes enc :: "'a \<Rightarrow> bytes" and dec :: "bytes \<Rightarrow> 'a" and width :: nat
  assumes enc_length: "length (enc x) = width"
    and dec_prefix: "dec (enc x @ rest) = x"
    and enc_dec: "length bs = width \<Longrightarrow> enc (dec bs) = bs"
begin

lemma dec_enc: "dec (enc x) = x"
  using dec_prefix [of x "[]"] by simp

lemma enc_inject: "enc x = enc y \<longleftrightarrow> x = y"
  by (metis dec_enc)

lemma take_enc: "take width (enc x @ rest) = enc x"
  by (simp add: enc_length)

lemma drop_enc: "drop width (enc x @ rest) = rest"
  by (simp add: enc_length)

lemma enc_append_inject: "enc x @ r = enc y @ s \<longleftrightarrow> x = y \<and> r = s"
  by (metis append_eq_append_conv enc_inject enc_length)

end

definition enc_u32 :: "u32 \<Rightarrow> bytes" where
  "enc_u32 = word_le 4"

definition dec_u32 :: "bytes \<Rightarrow> u32" where
  "dec_u32 bs = le_word (take 4 bs)"

definition enc_u64 :: "u64 \<Rightarrow> bytes" where
  "enc_u64 = word_le 8"

definition dec_u64 :: "bytes \<Rightarrow> u64" where
  "dec_u64 bs = le_word (take 8 bs)"

interpretation u32_layout: wire_layout enc_u32 dec_u32 4
  by unfold_locales (simp_all add: enc_u32_def dec_u32_def le_word_word_le word_le_le_word)

interpretation u64_layout: wire_layout enc_u64 dec_u64 8
  by unfold_locales (simp_all add: enc_u64_def dec_u64_def le_word_word_le word_le_le_word)

lemmas [simp] = u32_layout.enc_length u64_layout.enc_length
  u32_layout.dec_prefix u64_layout.dec_prefix u32_layout.dec_enc u64_layout.dec_enc

section \<open>Lists\<close>

lemma filter_map_upd_same:
  assumes "i < length xs" and "P x \<longleftrightarrow> P (xs ! i)"
  shows "length (filter P (xs[i := x])) = length (filter P xs)"
  using assms
proof (induction xs arbitrary: i)
  case Nil
  then show ?case by simp
next
  case (Cons y ys)
  then show ?case by (cases i) auto
qed

text \<open>
  \<open>overwrite n d xs\<close> is the array \<open>xs\<close> after \<open>memcpy (xs + n, d)\<close>: the bytes of \<open>d\<close> replace those
  from offset \<open>n\<close> on. It is only meaningful where the copy stays inside the array.
\<close>

definition overwrite :: "nat \<Rightarrow> 'a list \<Rightarrow> 'a list \<Rightarrow> 'a list" where
  "overwrite n d xs = take n xs @ d @ drop (n + length d) xs"

lemma length_overwrite [simp]:
  "n + length d \<le> length xs \<Longrightarrow> length (overwrite n d xs) = length xs"
  by (simp add: overwrite_def)

lemma overwrite_read_same [simp]:
  "n + length d \<le> length xs \<Longrightarrow> take (length d) (drop n (overwrite n d xs)) = d"
  by (simp add: overwrite_def)

lemma overwrite_read_other:
  assumes "n + length d \<le> length xs" and "n + length d \<le> m \<or> m + k \<le> n"
  shows "take k (drop m (overwrite n d xs)) = take k (drop m xs)"
proof (cases "n + length d \<le> m")
  case True
  with assms show ?thesis by (simp add: overwrite_def min_absorb2)
next
  case False
  with assms have *: "m + k \<le> n" by simp
  then have "take k (drop m (take n xs)) = take k (drop m xs)"
    by (simp add: drop_take min_absorb1)
  with * assms show ?thesis by (simp add: overwrite_def)
qed

lemma overwrite_nth:
  "n + length d \<le> length xs \<Longrightarrow> k < length xs \<Longrightarrow>
    overwrite n d xs ! k = (if n \<le> k \<and> k < n + length d then d ! (k - n) else xs ! k)"
  by (auto simp: overwrite_def nth_append min_def)

lemma drop_overwrite: "n + length d \<le> m \<Longrightarrow> n + length d \<le> length xs \<Longrightarrow> drop m (overwrite n d xs) = drop m xs"
  by (simp add: overwrite_def)

lemma drop_overwrite_inside:
  "m \<le> n \<Longrightarrow> n + length d \<le> length xs \<Longrightarrow> drop m (overwrite n d xs) = overwrite (n - m) d (drop m xs)"
  by (simp add: overwrite_def drop_take)

section \<open>Decimal numbers\<close>

text \<open>The decimal digits of a number, least significant first; none for zero.\<close>

fun id_digits :: "nat \<Rightarrow> string" where
  "id_digits v = (if v > 0 then char_of (48 + v mod 10) # id_digits (v div 10) else [])"

declare id_digits.simps [simp del]

lemma id_digits_value: "foldr (\<lambda>c n. (of_char c - 48) + 10 * n) (id_digits v) 0 = v"
proof (induction v rule: id_digits.induct)
  case (1 v)
  have "(of_char (char_of (48 + v mod 10) :: char) :: nat) = 48 + v mod 10" by simp
  with 1 show ?case by (subst id_digits.simps) simp
qed

lemma id_digits_length: "v < 10 ^ n \<Longrightarrow> length (id_digits v) \<le> n"
proof (induction n arbitrary: v)
  case 0
  then show ?case by (simp add: id_digits.simps)
next
  case (Suc n)
  then show ?case by (subst id_digits.simps) (simp add: less_mult_imp_div_less mult.commute)
qed

lemma id_digits_nonzero: "v > 0 \<Longrightarrow> id_digits v \<noteq> ''0''"
  using id_digits_value [of v] by auto

text \<open>The conversion \<open>%u\<close> of a 32-bit number.\<close>

definition decimal :: "u32 \<Rightarrow> string" where
  "decimal v = rev (if v = 0 then ''0'' else id_digits (unat v))"

lemma decimal_inject [simp]: "decimal a = decimal b \<longleftrightarrow> a = b"
proof
  assume eq: "decimal a = decimal b"
  show "a = b"
  proof (cases "a = 0 \<or> b = 0")
    case True
    with eq id_digits_nonzero [of "unat a"] id_digits_nonzero [of "unat b"] show ?thesis
      by (auto simp: decimal_def unat_gt_0 split: if_splits)
  next
    case False
    with eq have "id_digits (unat a) = id_digits (unat b)" by (simp add: decimal_def)
    then have "unat a = unat b" using id_digits_value by metis
    then show ?thesis by (simp add: word_unat_eq_iff)
  qed
qed simp

lemma decimal_length: "length (decimal a) \<le> 10"
proof -
  have "unat a < 2 ^ 32" using unsigned_less [of a] by simp
  then show ?thesis using id_digits_length [of "unat a" 10] by (auto simp: decimal_def)
qed

text \<open>The same for any width, and \<open>%d\<close> with its sign.\<close>

definition decimal_nat :: "nat \<Rightarrow> string" where
  "decimal_nat n = rev (if n = 0 then ''0'' else id_digits n)"

definition decimal_int :: "int \<Rightarrow> string" where
  "decimal_int i = (if i < 0 then ''-'' @ decimal_nat (nat (- i)) else decimal_nat (nat i))"

lemma decimal_nat_inject: "decimal_nat a = decimal_nat b \<longleftrightarrow> a = b"
proof
  assume eq: "decimal_nat a = decimal_nat b"
  show "a = b"
  proof (cases "a = 0 \<or> b = 0")
    case True
    with eq id_digits_nonzero [of a] id_digits_nonzero [of b] show ?thesis
      by (auto simp: decimal_nat_def split: if_splits)
  next
    case False
    with eq have "id_digits a = id_digits b" by (simp add: decimal_nat_def)
    then show ?thesis using id_digits_value by metis
  qed
qed simp

lemma decimal_nat_length: "n < 10 ^ k \<Longrightarrow> 0 < k \<Longrightarrow> length (decimal_nat n) \<le> k"
  using id_digits_length [of n k] by (auto simp: decimal_nat_def)

lemma id_digits_chars: "c \<in> set (id_digits n) \<Longrightarrow> (of_char c :: nat) \<in> {48..<58}"
proof (induction n rule: id_digits.induct)
  case (1 v)
  have "v mod 10 < 10" by simp
  with 1 show ?case by (subst (asm) (2) id_digits.simps) (auto split: if_splits)
qed

lemma decimal_nat_chars: "c \<in> set (decimal_nat n) \<Longrightarrow> (of_char c :: nat) \<in> {48..<58}"
  using id_digits_chars [of c n] by (auto simp: decimal_nat_def split: if_splits)

lemma decimal_int_chars: "CHR '':'' \<notin> set (decimal_int i)"
  using decimal_nat_chars [of "CHR '':''"] by (auto simp: decimal_int_def)

lemma decimal_int_inject: "decimal_int i = decimal_int j \<longleftrightarrow> i = j"
proof -
  have "''-'' @ x \<noteq> decimal_nat n" for x n
  proof
    assume "''-'' @ x = decimal_nat n"
    then have "CHR ''-'' \<in> set (decimal_nat n)" by (metis append_Cons list.set_intros(1))
    from decimal_nat_chars [OF this] show False by simp
  qed
  then show ?thesis by (auto simp: decimal_int_def decimal_nat_inject dest: sym)
qed

lemma decimal_int_length:
  assumes "\<bar>i\<bar> < 10 ^ 10"
  shows "length (decimal_int i) \<le> 11"
proof -
  have "length (decimal_nat (nat \<bar>i\<bar>)) \<le> 10" using assms by (intro decimal_nat_length) auto
  then show ?thesis by (auto simp: decimal_int_def abs_if split: if_splits)
qed

section \<open>C strings\<close>

text \<open>A character string handed to \<open>%s\<close> ends at its first NUL.\<close>

definition c_string :: "string \<Rightarrow> string" where
  "c_string s = takeWhile (\<lambda>c. c \<noteq> char_of (0 :: nat)) s"

text \<open>
  \<open>snprintf\<close> into a buffer of \<open>n > 0\<close> characters: the value returned is the length of the whole
  text, of which at most \<open>n - 1\<close> characters are stored before the terminating NUL.
\<close>

definition snprintf :: "nat \<Rightarrow> string \<Rightarrow> nat \<times> string" where
  "snprintf n text = (length text, take (n - 1) text)"

end
