(* ===== verification/Protocol.thy ===== *)
theory Protocol
  imports Prelude
begin

text \<open>
  The TiMS TCP router protocol (\<open>include/corerat/ipc/tims/protocol.hpp\<close>): the router message
  types, the packed 16-byte frame header with its byte image on a little-endian target, the
  registration payload and \<open>make_frame\<close>; and the backend-independent result codes and
  configuration of \<open>include/corerat/ipc/ipc_types.hpp\<close>.
\<close>

section \<open>Router message types\<close>

definition MSG_OK :: i8 where "MSG_OK = 0"
definition MSG_ERROR :: i8 where "MSG_ERROR = -1"
definition MSG_ROUTER_MBX_INIT_WITH_REPLY :: i8 where "MSG_ROUTER_MBX_INIT_WITH_REPLY = 13"
definition MSG_ROUTER_MBX_DELETE :: i8 where "MSG_ROUTER_MBX_DELETE = 14"
definition MSG_ROUTER_GET_STATUS :: i8 where "MSG_ROUTER_GET_STATUS = 17"
definition MSG_ROUTER_DISABLE_WATCHDOG :: i8 where "MSG_ROUTER_DISABLE_WATCHDOG = 19"
definition MSG_ROUTER_PEER_HELLO :: i8 where "MSG_ROUTER_PEER_HELLO = 20"
definition MSG_ROUTER_PEER_REGISTER :: i8 where "MSG_ROUTER_PEER_REGISTER = 21"
definition MSG_ROUTER_PEER_DELETE :: i8 where "MSG_ROUTER_PEER_DELETE = 22"

lemmas msg_type_defs = MSG_OK_def MSG_ERROR_def MSG_ROUTER_MBX_INIT_WITH_REPLY_def
  MSG_ROUTER_MBX_DELETE_def MSG_ROUTER_GET_STATUS_def MSG_ROUTER_DISABLE_WATCHDOG_def
  MSG_ROUTER_PEER_HELLO_def MSG_ROUTER_PEER_REGISTER_def MSG_ROUTER_PEER_DELETE_def

definition FRAME_LE_FLAG :: u8 where "FRAME_LE_FLAG = 0x03"

section \<open>Frame header\<close>

record frame_header =
  fh_flags :: u8
  fh_type :: i8
  fh_priority :: u8
  fh_seq_nr :: u8
  fh_dest :: u32
  fh_src :: u32
  fh_msglen :: u32

abbreviation sizeof_frame :: nat where "sizeof_frame \<equiv> 16"

text \<open>The bytes of the packed struct in declaration order, and \<open>memcpy\<close> back into one.\<close>

definition frame_bytes :: "frame_header \<Rightarrow> bytes" where
  "frame_bytes h = [fh_flags h, fh_type h, fh_priority h, fh_seq_nr h]
     @ enc_u32 (fh_dest h) @ enc_u32 (fh_src h) @ enc_u32 (fh_msglen h)"

definition read_frame :: "bytes \<Rightarrow> frame_header" where
  "read_frame bs = \<lparr>fh_flags = bs ! 0, fh_type = bs ! 1, fh_priority = bs ! 2, fh_seq_nr = bs ! 3,
     fh_dest = dec_u32 (drop 4 bs), fh_src = dec_u32 (drop 8 bs), fh_msglen = dec_u32 (drop 12 bs)\<rparr>"

record mbx_init_payload =
  mip_mbx :: u32

abbreviation sizeof_mbx_init :: nat where "sizeof_mbx_init \<equiv> 4"

definition mbx_init_bytes :: "mbx_init_payload \<Rightarrow> bytes" where
  "mbx_init_bytes p = enc_u32 (mip_mbx p)"

definition read_mbx_init :: "bytes \<Rightarrow> mbx_init_payload" where
  "read_mbx_init bs = \<lparr>mip_mbx = dec_u32 bs\<rparr>"

definition make_frame :: "i8 \<Rightarrow> u32 \<Rightarrow> u32 \<Rightarrow> u8 \<Rightarrow> u8 \<Rightarrow> u32 \<Rightarrow> frame_header" where
  "make_frame type dest src priority seq body_len =
     \<lparr>fh_flags = FRAME_LE_FLAG, fh_type = type, fh_priority = priority, fh_seq_nr = seq,
      fh_dest = dest, fh_src = src, fh_msglen = of_nat sizeof_frame + body_len\<rparr>"

section \<open>Results and configuration\<close>

datatype ipc_result = SUCCESS | ERROR_INIT | ERROR_SEND | ERROR_RECEIVE | ERROR_TIMEOUT
  | ERROR_INVALID_MSG | ERROR_NOT_INIT

record ipc_config =
  cfg_mailbox_name :: string
  cfg_mailbox_id :: u32
  cfg_max_msg_size :: nat
  cfg_priority :: u32
  cfg_realtime :: bool
  cfg_max_remote_handles :: u32

definition default_ipc_config :: ipc_config where
  "default_ipc_config = \<lparr>cfg_mailbox_name = ''default'', cfg_mailbox_id = 0, cfg_max_msg_size = 4096,
     cfg_priority = 0, cfg_realtime = False, cfg_max_remote_handles = 16\<rparr>"

text \<open>The Linux error numbers the receive functions return, negated.\<close>

definition ETIMEDOUT :: int where "ETIMEDOUT = 110"
definition EMSGSIZE :: int where "EMSGSIZE = 90"

section \<open>Byte images\<close>

lemma frame_bytes_length [simp]: "length (frame_bytes h) = 16"
  by (simp add: frame_bytes_def)

lemma list_16_split:
  assumes "length bs = 16"
  shows "bs = [bs ! 0, bs ! 1, bs ! 2, bs ! 3] @ take 4 (drop 4 bs) @ take 4 (drop 8 bs) @ take 4 (drop 12 bs)"
proof -
  have "take 4 bs = [bs ! 0, bs ! 1, bs ! 2, bs ! 3]"
    using assms by (simp add: take_Suc_conv_app_nth numeral_eq_Suc)
  moreover have "take 4 (drop k bs) @ drop (k + 4) bs = drop k bs" for k
    using append_take_drop_id [of 4 "drop k bs"] by (simp add: add.commute)
  from this [of 4] this [of 8]
  have "take 4 (drop 4 bs) @ take 4 (drop 8 bs) @ drop 12 bs = drop 4 bs" by simp
  moreover have "take 4 (drop 12 bs) = drop 12 bs" using assms by simp
  ultimately show ?thesis by (metis append_take_drop_id)
qed

lemma dec_u32_take: "dec_u32 (take 4 bs) = dec_u32 bs"
  by (simp add: dec_u32_def)

lemma read_frame_prefix: "read_frame (frame_bytes h @ rest) = h"
  by (simp add: read_frame_def frame_bytes_def)

lemma frame_bytes_read_frame:
  assumes "length bs = 16"
  shows "frame_bytes (read_frame bs) = bs"
proof -
  have "enc_u32 (dec_u32 (drop k bs)) = take 4 (drop k bs)" if "k + 4 \<le> 16" for k
    using u32_layout.enc_dec [of "take 4 (drop k bs)"] assms that by (simp add: dec_u32_take)
  then show ?thesis
    using list_16_split [OF assms] by (simp add: read_frame_def frame_bytes_def)
qed

interpretation frame_layout: wire_layout frame_bytes read_frame 16
  by unfold_locales (simp_all add: read_frame_prefix frame_bytes_read_frame)

interpretation mbx_init_layout: wire_layout mbx_init_bytes read_mbx_init 4
  by unfold_locales (simp_all add: mbx_init_bytes_def read_mbx_init_def u32_layout.enc_dec)

lemmas [simp] = mbx_init_layout.enc_length mbx_init_layout.dec_enc mbx_init_layout.dec_prefix

end
