(* ===== verification/Tcp_Socket.thy ===== *)
theory Tcp_Socket
  imports Protocol
begin

text \<open>
  The RAII socket wrapper of \<open>include/corerat/ipc/tims/tcp_socket.hpp\<close>. The operating system
  is a parameter carried by the socket: \<open>sk_send_k\<close>, \<open>sk_recv_k\<close> and \<open>sk_poll_k\<close> hold the
  answers of the coming \<open>send(2)\<close>, \<open>recv(2)\<close> and \<open>poll(2)\<close> calls on it, \<open>sk_rx\<close> the bytes
  the remote end delivers before it closes, and \<open>sk_tx\<close> records the bytes handed to the
  kernel. A positive answer \<open>n\<close> of \<open>send\<close> or \<open>recv\<close> transfers at most \<open>n\<close> bytes, and at
  least one, as POSIX documents; anything else is an error or the end of the stream.
\<close>

record tcp_socket =
  sk_fd :: int
  sk_tx :: bytes
  sk_rx :: bytes
  sk_send_k :: "nat \<Rightarrow> int"
  sk_recv_k :: "nat \<Rightarrow> int"
  sk_poll_k :: "nat \<Rightarrow> int \<Rightarrow> int"

definition shift :: "(nat \<Rightarrow> 'a) \<Rightarrow> nat \<Rightarrow> 'a" where
  "shift k = (\<lambda>i. k (Suc i))"

text \<open>The default-constructed socket: no descriptor.\<close>

definition closed_socket :: tcp_socket where
  "closed_socket = \<lparr>sk_fd = -1, sk_tx = [], sk_rx = [], sk_send_k = (\<lambda>_. -1),
     sk_recv_k = (\<lambda>_. -1), sk_poll_k = (\<lambda>_ _. 0)\<rparr>"

section \<open>System calls\<close>

definition sys_send :: "tcp_socket \<Rightarrow> bytes \<Rightarrow> int \<times> tcp_socket" where
  "sys_send s data =
     (if sk_fd s < 0 then (-1, s)
      else let r = sk_send_k s 0; s' = s\<lparr>sk_send_k := shift (sk_send_k s)\<rparr>
           in if r \<le> 0 then (r, s')
              else let n = min (nat r) (length data)
                   in (int n, s'\<lparr>sk_tx := sk_tx s @ take n data\<rparr>))"

definition sys_recv :: "tcp_socket \<Rightarrow> nat \<Rightarrow> int \<times> bytes \<times> tcp_socket" where
  "sys_recv s len =
     (if sk_fd s < 0 then (-1, [], s)
      else let r = sk_recv_k s 0; s' = s\<lparr>sk_recv_k := shift (sk_recv_k s)\<rparr>
           in if r \<le> 0 then (r, [], s')
              else let n = min (nat r) (min len (length (sk_rx s)))
                   in (int n, take n (sk_rx s), s'\<lparr>sk_rx := drop n (sk_rx s)\<rparr>))"

section \<open>The wrapper's operations\<close>

definition close :: "tcp_socket \<Rightarrow> tcp_socket" where
  "close s = (if sk_fd s \<ge> 0 then s\<lparr>sk_fd := -1\<rparr> else s)"

definition is_open :: "tcp_socket \<Rightarrow> bool" where
  "is_open s \<longleftrightarrow> sk_fd s \<ge> 0"

definition move_construct :: "tcp_socket \<Rightarrow> tcp_socket \<times> tcp_socket" where
  "move_construct other = (other, other\<lparr>sk_fd := -1\<rparr>)"

text \<open>What the kernel answers while a connection is being set up, and the stream it yields.\<close>

record connect_answer =
  ca_socket :: int
  ca_inet_pton :: int
  ca_connect :: int
  ca_stream :: tcp_socket

definition connect :: "tcp_socket \<Rightarrow> connect_answer \<Rightarrow> bool \<times> tcp_socket" where
  "connect s ans =
     (let s1 = close s; s2 = (ca_stream ans)\<lparr>sk_fd := ca_socket ans\<rparr>
      in if ca_socket ans < 0 then (False, s1\<lparr>sk_fd := ca_socket ans\<rparr>)
         else if ca_inet_pton ans \<noteq> 1 then (False, close s2)
         else if ca_connect ans < 0 then (False, close s2)
         else (True, s2))"

text \<open>The send loop: \<open>sent\<close> counts the bytes of \<open>buf\<close> already transferred.\<close>

function send_loop :: "tcp_socket \<Rightarrow> bytes \<Rightarrow> nat \<Rightarrow> bool \<times> tcp_socket" where
  "send_loop s buf sent =
     (if sent < length buf
      then case sys_send s (drop sent buf) of (n, s') \<Rightarrow>
             if n \<le> 0 then (False, s') else send_loop s' buf (sent + nat n)
      else (True, s))"
  by pat_completeness auto
termination by (relation "measure (\<lambda>(s, buf, sent). length buf - sent)") auto

definition send_all :: "tcp_socket \<Rightarrow> bytes \<Rightarrow> bool \<times> tcp_socket" where
  "send_all s buf = send_loop s buf 0"

lemma sys_recv_pos:
  assumes "sys_recv s len = (n, d, s')" and "0 < n"
  shows "length d = nat n" "d \<noteq> []" "nat n \<le> len" "sk_rx s = d @ sk_rx s'"
proof -
  define m where "m = min (nat (sk_recv_k s 0)) (min len (length (sk_rx s)))"
  have "n = int m" "d = take m (sk_rx s)" "sk_rx s' = drop m (sk_rx s)"
    using assms by (auto simp: sys_recv_def Let_def m_def split: if_splits)
  moreover have "m \<le> length (sk_rx s)" and "m \<le> len" by (simp_all add: m_def)
  ultimately show "length d = nat n" "d \<noteq> []" "nat n \<le> len" "sk_rx s = d @ sk_rx s'"
    using assms(2) by auto
qed

text \<open>The receive loop: \<open>acc\<close> are the bytes already stored at the front of the buffer.\<close>

function recv_loop :: "tcp_socket \<Rightarrow> nat \<Rightarrow> bytes \<Rightarrow> bool \<times> bytes \<times> tcp_socket" where
  "recv_loop s len acc =
     (if length acc < len
      then case sys_recv s (len - length acc) of (n, d, s') \<Rightarrow>
             if n \<le> 0 then (False, acc, s') else recv_loop s' len (acc @ d)
      else (True, acc, s))"
  by pat_completeness auto
termination
  by (relation "measure (\<lambda>(s, len, acc). len - length acc)")
    (auto dest!: sys_recv_pos(2) [OF sym] simp: length_greater_0_conv [symmetric]
      simp del: length_greater_0_conv)

definition recv_all :: "tcp_socket \<Rightarrow> nat \<Rightarrow> bool \<times> bytes \<times> tcp_socket" where
  "recv_all s len = recv_loop s len []"

text \<open>
  The kernel's answer to a \<open>poll\<close> may depend on the time-out it is given. A descriptor below
  zero is ignored by \<open>poll(2)\<close>, which then reports the time-out.
\<close>

definition poll_in :: "tcp_socket \<Rightarrow> int \<Rightarrow> int \<times> tcp_socket" where
  "poll_in s timeout_ms = (if sk_fd s < 0 then (0, s)
     else (sk_poll_k s 0 timeout_ms, s\<lparr>sk_poll_k := shift (sk_poll_k s)\<rparr>))"

declare send_loop.simps [simp del] recv_loop.simps [simp del]

section \<open>Writing exactly the given bytes\<close>

text \<open>
  The contract of a blocking "write all of it" primitive, shared by the TCP socket and the EVL
  cross-buffer of the router: success means the whole buffer went out, failure means that a
  prefix of it did. \<open>both_written\<close> is the sources' \<open>send_all(a) && send_all(b)\<close>.
\<close>

definition both_written :: "('s \<Rightarrow> bytes \<Rightarrow> bool \<times> 's) \<Rightarrow> 's \<Rightarrow> bytes \<Rightarrow> bytes \<Rightarrow> bool \<times> 's" where
  "both_written write_all s a b =
     (case write_all s a of (ok, s') \<Rightarrow> if ok then write_all s' b else (False, s'))"

locale exact_writer =
  fixes write_all :: "'s \<Rightarrow> bytes \<Rightarrow> bool \<times> 's" and out :: "'s \<Rightarrow> bytes"
  assumes all_written: "write_all s d = (True, s') \<Longrightarrow> out s' = out s @ d"
    and prefix_written: "write_all s d = (False, s') \<Longrightarrow> \<exists>n \<le> length d. out s' = out s @ take n d"
begin

lemma only_prefix_written:
  "write_all s d = (ok, s') \<Longrightarrow> \<exists>n \<le> length d. out s' = out s @ take n d"
  using all_written prefix_written by (cases ok) fastforce+

lemma both_all_written:
  "both_written write_all s a b = (True, s') \<Longrightarrow> out s' = out s @ a @ b"
  by (auto simp: both_written_def dest!: all_written split: prod.splits if_splits)

lemma both_prefix_written:
  assumes "both_written write_all s a b = (False, s')"
  shows "\<exists>n \<le> length (a @ b). out s' = out s @ take n (a @ b)"
proof (cases "write_all s a")
  case (Pair ok s1)
  show ?thesis
  proof (cases ok)
    case True
    with assms Pair have "write_all s1 b = (False, s')" and "out s1 = out s @ a"
      by (auto simp: both_written_def dest: all_written)
    then obtain n where "n \<le> length b" and "out s' = out s @ a @ take n b"
      by (auto dest: prefix_written)
    then show ?thesis by (intro exI [of _ "length a + n"]) simp
  next
    case False
    with assms Pair have "write_all s a = (False, s')"
      by (simp add: both_written_def)
    then obtain n where "n \<le> length a" and "out s' = out s @ take n a"
      by (auto dest: prefix_written)
    then show ?thesis by (intro exI [of _ n]) simp
  qed
qed

end

section \<open>Send\<close>

lemma sys_send_cases:
  assumes "sys_send s d = (n, s')" and "d \<noteq> []"
  obtains (err) "n \<le> 0" "sk_tx s' = sk_tx s" "sk_fd s' = sk_fd s" "sk_rx s' = sk_rx s"
    | (part) "0 < n" "nat n \<le> length d" "sk_tx s' = sk_tx s @ take (nat n) d"
        "sk_fd s' = sk_fd s" "sk_rx s' = sk_rx s"
  using assms by (auto simp: sys_send_def Let_def min_def split: if_splits)

lemma send_loop_prefix:
  assumes "send_loop s buf sent = (ok, s')" and "sent \<le> length buf"
  shows "\<exists>n. sent \<le> n \<and> n \<le> length buf \<and> sk_tx s' = sk_tx s @ take (n - sent) (drop sent buf)
     \<and> (ok \<longleftrightarrow> n = length buf)"
  using assms
proof (induction s buf sent rule: send_loop.induct)
  case (1 s buf sent)
  show ?case
  proof (cases "sent < length buf")
    case False
    with 1 show ?thesis by (auto simp: send_loop.simps [of s buf sent] intro!: exI [of _ sent])
  next
    case True
    obtain n s1 where ss: "sys_send s (drop sent buf) = (n, s1)" by fastforce
    from True have ne: "drop sent buf \<noteq> []" by simp
    from ss ne show ?thesis
    proof (cases rule: sys_send_cases)
      case err
      with 1 True ss show ?thesis
        by (auto simp: send_loop.simps [of s buf sent] intro!: exI [of _ sent])
    next
      case part
      with True have "sent + nat n \<le> length buf" by simp
      with 1 True ss part obtain m where m: "sent + nat n \<le> m" "m \<le> length buf"
          "sk_tx s' = sk_tx s1 @ take (m - (sent + nat n)) (drop (sent + nat n) buf)"
          "ok \<longleftrightarrow> m = length buf"
        by (auto simp: send_loop.simps [of s buf sent])
      have "take (nat n) (drop sent buf) @ take (m - (sent + nat n)) (drop (sent + nat n) buf)
          = take (m - sent) (drop sent buf)"
        using take_add [of "nat n" "m - (sent + nat n)" "drop sent buf"] m(1)
        by (simp add: add.commute)
      with m part show ?thesis by (intro exI [of _ m]) auto
    qed
  qed
qed

lemma send_all_prefix:
  assumes "send_all s buf = (ok, s')"
  shows "\<exists>n \<le> length buf. sk_tx s' = sk_tx s @ take n buf \<and> (ok \<longleftrightarrow> n = length buf)"
  using send_loop_prefix [of s buf 0 ok s'] assms by (auto simp: send_all_def)

interpretation tcp_writer: exact_writer send_all sk_tx
  by unfold_locales (fastforce dest: send_all_prefix)+

text \<open>
  \<open>wrote ok d s s'\<close>: between \<open>s\<close> and \<open>s'\<close> a prefix of \<open>d\<close> went out, all of \<open>d\<close> if \<open>ok\<close>.
\<close>

definition wrote :: "bool \<Rightarrow> bytes \<Rightarrow> tcp_socket \<Rightarrow> tcp_socket \<Rightarrow> bool" where
  "wrote ok d s s' \<longleftrightarrow> (\<exists>n. sk_tx s' = sk_tx s @ take n d) \<and> (ok \<longrightarrow> sk_tx s' = sk_tx s @ d)"

lemma wrote_nothing [simp]: "wrote False d s s"
  by (auto simp: wrote_def intro: exI [of _ 0])

lemma wrote_partI: "sk_tx s' = sk_tx s @ take n d \<Longrightarrow> wrote False d s s'"
  by (auto simp: wrote_def)

lemma wrote_allI: "sk_tx s' = sk_tx s @ d \<Longrightarrow> wrote True d s s'"
  by (auto simp: wrote_def intro: exI [of _ "length d"])

lemma send_all_wrote: "send_all s d = (ok, s') \<Longrightarrow> wrote ok d s s'"
  using tcp_writer.all_written tcp_writer.prefix_written
  by (cases ok) (fastforce intro: wrote_allI wrote_partI)+

lemma both_send_wrote:
  assumes "both_written send_all s a b = (ok, s')"
  shows "wrote ok (a @ b) s s'"
proof (cases ok)
  case True
  with assms tcp_writer.both_all_written [of s a b s'] show ?thesis by (simp add: wrote_allI)
next
  case False
  with assms obtain n where "sk_tx s' = sk_tx s @ take n (a @ b)"
    using tcp_writer.both_prefix_written [of s a b s'] by auto
  with False show ?thesis by (simp add: wrote_partI)
qed

text \<open>Sending leaves the descriptor and the incoming stream alone.\<close>

lemma send_loop_frame:
  "send_loop s buf sent = (ok, s') \<Longrightarrow> sk_fd s' = sk_fd s \<and> sk_rx s' = sk_rx s
     \<and> sk_recv_k s' = sk_recv_k s \<and> sk_poll_k s' = sk_poll_k s"
proof (induction s buf sent rule: send_loop.induct)
  case (1 s buf sent)
  then show ?case
    by (auto simp: send_loop.simps [of s buf sent] sys_send_def Let_def
        split: prod.splits if_splits)
qed

lemma send_all_frame [frame_rules]:
  "send_all s buf = (ok, s') \<Longrightarrow> sk_fd s' = sk_fd s"
  "send_all s buf = (ok, s') \<Longrightarrow> sk_rx s' = sk_rx s"
  "send_all s buf = (ok, s') \<Longrightarrow> sk_recv_k s' = sk_recv_k s"
  "send_all s buf = (ok, s') \<Longrightarrow> sk_poll_k s' = sk_poll_k s"
  by (auto simp: send_all_def dest: send_loop_frame)

text \<open>
  A socket whose kernel never fails a \<open>send\<close>. Such a socket accepts every buffer completely,
  however the kernel splits it.
\<close>

definition can_send :: "tcp_socket \<Rightarrow> bool" where
  "can_send s \<longleftrightarrow> is_open s \<and> (\<forall>i. 0 < sk_send_k s i)"

lemma send_loop_can_send:
  assumes "can_send s" and "sent \<le> length buf"
  shows "\<exists>s'. send_loop s buf sent = (True, s') \<and> can_send s'"
  using assms
proof (induction s buf sent rule: send_loop.induct)
  case (1 s buf sent)
  show ?case
  proof (cases "sent < length buf")
    case True
    define n where "n = min (nat (sk_send_k s 0)) (length (drop sent buf))"
    define s1 where "s1 = s\<lparr>sk_send_k := shift (sk_send_k s), sk_tx := sk_tx s @ take n (drop sent buf)\<rparr>"
    from 1(2) have "0 < sk_send_k s 0" "\<not> sk_fd s < 0" by (auto simp: can_send_def is_open_def)
    then have ss: "sys_send s (drop sent buf) = (int n, s1)" "0 < n" "n \<le> length (drop sent buf)"
      using True by (auto simp: sys_send_def Let_def n_def s1_def)
    have "can_send s1" using 1(2) by (simp add: can_send_def is_open_def shift_def s1_def)
    with 1(1) [OF True ss(1) [symmetric]] ss True have "\<exists>s'. send_loop s1 buf (sent + n) = (True, s') \<and> can_send s'"
      by auto
    with True ss show ?thesis by (simp add: send_loop.simps [of s buf sent])
  next
    case False
    with 1(2) show ?thesis by (subst send_loop.simps) simp
  qed
qed

lemma send_all_can_send:
  assumes "can_send s"
  obtains s' where "send_all s buf = (True, s')" and "can_send s'"
    and "sk_tx s' = sk_tx s @ buf"
  using send_loop_can_send [OF assms, of 0 buf] tcp_writer.all_written
  unfolding send_all_def by auto

lemma both_send_can_send:
  assumes "can_send s"
  obtains s' where "both_written send_all s a b = (True, s')"
proof -
  obtain s1 where s1: "send_all s a = (True, s1)" "can_send s1"
    using assms by (rule send_all_can_send)
  then obtain s2 where "send_all s1 b = (True, s2)" by (meson send_all_can_send)
  with s1 that show ?thesis by (simp add: both_written_def)
qed

lemma send_all_closed: "\<not> is_open s \<Longrightarrow> send_all s buf = (buf = [], s)"
  by (simp add: send_all_def send_loop.simps [of s buf 0] sys_send_def is_open_def)

section \<open>Receive\<close>

lemma recv_loop_stream:
  assumes "recv_loop s len acc = (True, bs, s')" and "length acc \<le> len"
  shows "length bs = len \<and> (\<exists>d. bs = acc @ d \<and> sk_rx s = d @ sk_rx s')"
  using assms
proof (induction s len acc rule: recv_loop.induct)
  case (1 s len acc)
  show ?case
  proof (cases "length acc < len")
    case False
    with 1 show ?thesis by (auto simp: recv_loop.simps [of s len acc])
  next
    case True
    obtain n d s1 where sr: "sys_recv s (len - length acc) = (n, d, s1)"
      by (cases "sys_recv s (len - length acc)") auto
    from 1(2) True sr have n: "0 < n" and rl: "recv_loop s1 len (acc @ d) = (True, bs, s')"
      by (auto simp: recv_loop.simps [of s len acc] split: if_splits)
    note d = sys_recv_pos [OF sr n]
    with True have "length (acc @ d) \<le> len" by simp
    with 1(1) [OF True sr [symmetric] refl _ rl] n d(4) show ?thesis by auto
  qed
qed

lemma recv_all_stream:
  "recv_all s len = (True, bs, s') \<Longrightarrow> length bs = len \<and> sk_rx s = bs @ sk_rx s'"
  using recv_loop_stream [of s len "[]" bs s'] by (auto simp: recv_all_def)

lemma recv_loop_frame:
  "recv_loop s len acc = (ok, bs, s') \<Longrightarrow> sk_fd s' = sk_fd s \<and> sk_tx s' = sk_tx s
     \<and> sk_send_k s' = sk_send_k s \<and> sk_poll_k s' = sk_poll_k s"
proof (induction s len acc rule: recv_loop.induct)
  case (1 s len acc)
  then show ?case
    by (auto simp: recv_loop.simps [of s len acc] sys_recv_def Let_def
        split: prod.splits if_splits)
qed

lemma recv_all_frame [frame_rules]:
  "recv_all s len = (ok, bs, s') \<Longrightarrow> sk_fd s' = sk_fd s"
  "recv_all s len = (ok, bs, s') \<Longrightarrow> sk_tx s' = sk_tx s"
  "recv_all s len = (ok, bs, s') \<Longrightarrow> sk_send_k s' = sk_send_k s"
  "recv_all s len = (ok, bs, s') \<Longrightarrow> sk_poll_k s' = sk_poll_k s"
  by (auto simp: recv_all_def dest: recv_loop_frame)

definition can_recv :: "tcp_socket \<Rightarrow> bool" where
  "can_recv s \<longleftrightarrow> is_open s \<and> (\<forall>i. 0 < sk_recv_k s i)"

lemma recv_loop_can_recv:
  assumes "can_recv s" and "length acc \<le> len" and "len - length acc \<le> length (sk_rx s)"
  shows "\<exists>bs s'. recv_loop s len acc = (True, bs, s') \<and> can_recv s'"
  using assms
proof (induction s len acc rule: recv_loop.induct)
  case (1 s len acc)
  show ?case
  proof (cases "length acc < len")
    case True
    with 1 have r: "0 < sk_recv_k s 0" "\<not> sk_fd s < 0" "sk_rx s \<noteq> []"
      by (auto simp: can_recv_def is_open_def)
    define n where "n = min (nat (sk_recv_k s 0)) (min (len - length acc) (length (sk_rx s)))"
    define s1 where "s1 = s\<lparr>sk_recv_k := shift (sk_recv_k s), sk_rx := drop n (sk_rx s)\<rparr>"
    have n: "0 < n" "n \<le> len - length acc" "n \<le> length (sk_rx s)"
      using True r by (auto simp: n_def)
    have sr: "sys_recv s (len - length acc) = (int n, take n (sk_rx s), s1)"
      using r by (simp add: sys_recv_def Let_def n_def s1_def)
    moreover have "can_recv s1" "len - length (acc @ take n (sk_rx s)) \<le> length (sk_rx s1)"
      "length (acc @ take n (sk_rx s)) \<le> len"
      using 1 n True by (auto simp: can_recv_def is_open_def shift_def s1_def)
    ultimately have "\<exists>bs s'. recv_loop s1 len (acc @ take n (sk_rx s)) = (True, bs, s') \<and> can_recv s'"
      using 1(1) [OF True sr [symmetric] refl] n by simp
    with True sr n show ?thesis by (simp add: recv_loop.simps [of s len acc])
  next
    case False
    with 1 show ?thesis by (simp add: recv_loop.simps [of s len acc])
  qed
qed

lemma recv_all_can_recv:
  assumes "can_recv s" and "length d = len" and "sk_rx s = d @ r"
  obtains s' where "recv_all s len = (True, d, s')" and "can_recv s'" and "sk_rx s' = r"
proof -
  obtain bs s' where rl: "recv_all s len = (True, bs, s')" "can_recv s'"
    using recv_loop_can_recv [OF assms(1), of "[]" len] assms(2,3) by (auto simp: recv_all_def)
  from recv_all_stream [OF rl(1)] assms(2,3) have "bs = d" and "sk_rx s' = r"
    by (metis append_eq_append_conv)+
  with rl that show ?thesis by blast
qed

end
