(* ===== verification/Mailbox_Table.thy ===== *)
theory Mailbox_Table
  imports Tcp_Socket
begin

text \<open>
  What the router daemons rely on in their \<open>MailboxRegistry\<close>: a first-come-first-served map
  from mailbox ids to route entries, from which all entries of a connection can be dropped at
  once. Both routers provide it with their own table type and entry kind.
\<close>

type_synonym con = nat

locale mailbox_table =
  fixes add :: "'t \<Rightarrow> u32 \<Rightarrow> 'e \<Rightarrow> bool \<times> 't"
    and remove :: "'t \<Rightarrow> u32 \<Rightarrow> 't"
    and remove_all :: "'t \<Rightarrow> con \<Rightarrow> 't"
    and find :: "'t \<Rightarrow> u32 \<Rightarrow> 'e option"
    and owned_by :: "'e \<Rightarrow> con \<Rightarrow> bool"
  assumes add_ok: "fst (add t m e) \<longleftrightarrow> find t m = None"
    and find_add: "find (snd (add t m e)) k = (if k = m \<and> find t m = None then Some e else find t k)"
    and find_remove: "find (remove t m) k = (if k = m then None else find t k)"
    and find_remove_all: "find (remove_all t c) k =
      (case find t k of None \<Rightarrow> None | Some e \<Rightarrow> if owned_by e c then None else Some e)"
begin

lemma add_then_find: "add t m e = (True, t') \<Longrightarrow> find t' m = Some e"
  using add_ok [of t m e] find_add [of t m e m] by simp

lemma add_keeps_entries: "find t k = Some e' \<Longrightarrow> find (snd (add t m e)) k = Some e'"
  by (auto simp: find_add)

lemma second_add_fails:
  assumes "add t m e = (True, t')"
  shows "\<not> fst (add t' m e')"
  using add_then_find [OF assms] by (simp add: add_ok)

lemma remove_allows_add: "fst (add (remove t m) m e)"
  by (simp add: add_ok find_remove)

lemma remove_all_no_owner: "find (remove_all t c) k = Some e \<Longrightarrow> \<not> owned_by e c"
  by (auto simp: find_remove_all split: option.splits if_splits)

lemma remove_all_keeps_others:
  "find t k = Some e \<Longrightarrow> \<not> owned_by e c \<Longrightarrow> find (remove_all t c) k = Some e"
  by (simp add: find_remove_all)

lemma remove_all_sub: "find (remove_all t c) k = Some e \<Longrightarrow> find t k = Some e"
  by (auto simp: find_remove_all split: option.splits if_splits)

lemma add_cases:
  assumes "find (snd (add t m e)) k = Some e'"
  obtains "find t k = Some e'" | "k = m" and "e' = e" and "find t m = None"
  using assms by (auto simp: find_add split: if_splits)

lemma remove_sub: "find (remove t m) k = Some e \<Longrightarrow> find t k = Some e"
  by (auto simp: find_remove split: if_splits)

end

end
