(* ===== verification/Tcp_Router.thy ===== *)
theory Tcp_Router
  imports Mailbox_Table
begin

text \<open>
  The TCP router daemon, \<open>src/router/tcp_router.cpp\<close>: the mailbox registry, the connections
  with their peer protocol, the frame handler, the upstream and system-route links, and the
  step relation of the running daemon. A \<open>Connection*\<close> is the connection's position in
  \<open>connections_\<close>, which is also its \<open>index_\<close>: both are assigned by the one accept thread.
  The set \<open>local_mailboxes_\<close> is a list without repetitions whose order stands for the hash
  order. Each handler runs to completion between two steps; sockets fail as their kernel
  answers say.
\<close>

section \<open>MailboxRegistry\<close>

type_synonym registry = "u32 \<rightharpoonup> con"

definition registry_add :: "registry \<Rightarrow> u32 \<Rightarrow> con \<Rightarrow> bool \<times> registry" where
  "registry_add table mailbox_id con =
     (case table mailbox_id of None \<Rightarrow> (True, table(mailbox_id \<mapsto> con)) | Some _ \<Rightarrow> (False, table))"

definition registry_remove :: "registry \<Rightarrow> u32 \<Rightarrow> registry" where
  "registry_remove table mailbox_id = table(mailbox_id := None)"

definition registry_remove_all :: "registry \<Rightarrow> con \<Rightarrow> registry" where
  "registry_remove_all table con = (\<lambda>m. if table m = Some con then None else table m)"

definition registry_find :: "registry \<Rightarrow> u32 \<Rightarrow> con option" where
  "registry_find table mailbox_id = table mailbox_id"

interpretation tcp_table: mailbox_table registry_add registry_remove registry_remove_all
  registry_find "\<lambda>e c. e = c"
  by unfold_locales
    (auto simp: registry_add_def registry_remove_def registry_remove_all_def registry_find_def
      split: option.splits)

section \<open>State\<close>

text \<open>The life of a connection's thread: created, inside the loop of \<open>run\<close>, returned from it.\<close>

datatype phase = Created | Running | Exited

record connection =
  cn_socket :: tcp_socket
  cn_is_peer :: bool
  cn_watchdog_enabled :: bool
  cn_phase :: phase

record peer_config =
  pc_host :: string
  pc_port :: u16

record system_route_config =
  src_system_id :: u8
  src_host :: string
  src_port :: u16

record system_connection =
  sc_system_id :: u8
  sc_socket :: tcp_socket

record router =
  rt_registry :: registry
  rt_max_msg_size :: nat
  rt_upstream :: tcp_socket
  rt_systems :: "system_connection list"
  rt_connections :: "connection list"
  rt_local :: "u32 list"

definition new_router :: "nat \<Rightarrow> router" where
  "new_router max_msg_size = \<lparr>rt_registry = Map.empty, rt_max_msg_size = max_msg_size,
     rt_upstream = closed_socket, rt_systems = [], rt_connections = [], rt_local = []\<rparr>"

abbreviation socket_of :: "router \<Rightarrow> con \<Rightarrow> tcp_socket" where
  "socket_of r c \<equiv> cn_socket (rt_connections r ! c)"

abbreviation is_peer :: "router \<Rightarrow> con \<Rightarrow> bool" where
  "is_peer r c \<equiv> cn_is_peer (rt_connections r ! c)"

definition set_socket :: "router \<Rightarrow> con \<Rightarrow> tcp_socket \<Rightarrow> router" where
  "set_socket r c s =
     r\<lparr>rt_connections := (rt_connections r)[c := (rt_connections r ! c)\<lparr>cn_socket := s\<rparr>]\<rparr>"

definition set_peer :: "router \<Rightarrow> con \<Rightarrow> router" where
  "set_peer r c =
     r\<lparr>rt_connections := (rt_connections r)[c := (rt_connections r ! c)\<lparr>cn_is_peer := True\<rparr>]\<rparr>"

definition set_watchdog_off :: "router \<Rightarrow> con \<Rightarrow> router" where
  "set_watchdog_off r c = r\<lparr>rt_connections :=
     (rt_connections r)[c := (rt_connections r ! c)\<lparr>cn_watchdog_enabled := False\<rparr>]\<rparr>"

definition set_phase :: "router \<Rightarrow> con \<Rightarrow> phase \<Rightarrow> router" where
  "set_phase r c p =
     r\<lparr>rt_connections := (rt_connections r)[c := (rt_connections r ! c)\<lparr>cn_phase := p\<rparr>]\<rparr>"

section \<open>Sending on a connection\<close>

text \<open>\<open>socket_.send_all(...)\<close> with the result ignored.\<close>

definition con_send :: "router \<Rightarrow> con \<Rightarrow> bytes \<Rightarrow> router" where
  "con_send r c bs = set_socket r c (snd (send_all (socket_of r c) bs))"

definition forward :: "router \<Rightarrow> con \<Rightarrow> frame_header \<Rightarrow> bytes \<Rightarrow> bool \<times> router" where
  "forward r c hdr body =
     (case both_written send_all (socket_of r c) (frame_bytes hdr) body of
        (ok, s) \<Rightarrow> (ok, set_socket r c s))"

definition send_peer_register :: "u32 \<Rightarrow> router \<Rightarrow> con \<Rightarrow> router" where
  "send_peer_register mbx_id r c =
     (let fr = make_frame MSG_ROUTER_PEER_REGISTER 0 0 0 0 (of_nat sizeof_mbx_init);
          r1 = con_send r c (frame_bytes fr)
      in con_send r1 c (mbx_init_bytes \<lparr>mip_mbx = mbx_id\<rparr>))"

definition send_peer_delete :: "u32 \<Rightarrow> router \<Rightarrow> con \<Rightarrow> router" where
  "send_peer_delete mbx_id r c =
     (let fr = make_frame MSG_ROUTER_PEER_DELETE 0 0 0 0 (of_nat sizeof_mbx_init);
          r1 = con_send r c (frame_bytes fr)
      in con_send r1 c (mbx_init_bytes \<lparr>mip_mbx = mbx_id\<rparr>))"

section \<open>Router services used by the connections\<close>

definition peers_of :: "router \<Rightarrow> con list" where
  "peers_of r = filter (is_peer r) [0..<length (rt_connections r)]"

definition broadcast_to_peers :: "(router \<Rightarrow> con \<Rightarrow> router) \<Rightarrow> router \<Rightarrow> router" where
  "broadcast_to_peers fn r = foldl fn r (peers_of r)"

definition on_local_registered :: "router \<Rightarrow> u32 \<Rightarrow> router" where
  "on_local_registered r mbx_id =
     broadcast_to_peers (send_peer_register mbx_id) (r\<lparr>rt_local := List.insert mbx_id (rt_local r)\<rparr>)"

definition on_local_deleted :: "router \<Rightarrow> u32 \<Rightarrow> router" where
  "on_local_deleted r mbx_id =
     broadcast_to_peers (send_peer_delete mbx_id) (r\<lparr>rt_local := removeAll mbx_id (rt_local r)\<rparr>)"

definition local_mailboxes_snapshot :: "router \<Rightarrow> u32 list" where
  "local_mailboxes_snapshot r = rt_local r"

definition system_id_of_dest :: "u32 \<Rightarrow> u8" where
  "system_id_of_dest dest = ucast (drop_bit 24 dest AND 0xFF)"

text \<open>\<open>send_all(hdr) && (body_len == 0 || send_all(body))\<close> on an upstream socket.\<close>

definition send_upstream :: "tcp_socket \<Rightarrow> frame_header \<Rightarrow> bytes \<Rightarrow> bool \<times> tcp_socket" where
  "send_upstream s hdr body =
     (case send_all s (frame_bytes hdr) of (ok, s') \<Rightarrow>
        if \<not> ok then (False, s') else if body = [] then (True, s') else send_all s' body)"

fun find_system :: "system_connection list \<Rightarrow> u8 \<Rightarrow> nat option" where
  "find_system [] sys_id = None"
| "find_system (sc # scs) sys_id =
     (if sc_system_id sc = sys_id then Some 0 else map_option Suc (find_system scs sys_id))"

definition forward_to_upstream :: "router \<Rightarrow> frame_header \<Rightarrow> bytes \<Rightarrow> bool \<times> router" where
  "forward_to_upstream r hdr body =
     (case find_system (rt_systems r) (system_id_of_dest (fh_dest hdr)) of
        Some i \<Rightarrow>
          (let sc = rt_systems r ! i
           in if \<not> is_open (sc_socket sc) then (False, r)
              else case send_upstream (sc_socket sc) hdr body of (ok, s) \<Rightarrow>
                (ok, r\<lparr>rt_systems := (rt_systems r)[i := sc\<lparr>sc_socket := s\<rparr>]\<rparr>))
      | None \<Rightarrow>
          if \<not> is_open (rt_upstream r) then (False, r)
          else case send_upstream (rt_upstream r) hdr body of (ok, s) \<Rightarrow>
            (ok, r\<lparr>rt_upstream := s\<rparr>))"

section \<open>Connection methods\<close>

definition advertise_as_peer :: "router \<Rightarrow> con \<Rightarrow> router" where
  "advertise_as_peer r c =
     (let r1 = con_send r c (frame_bytes (make_frame MSG_ROUTER_PEER_HELLO 0 0 0 0 0))
      in foldl (\<lambda>r mbx. send_peer_register mbx r c) r1 (local_mailboxes_snapshot r1))"

definition frame_body_len :: "frame_header \<Rightarrow> u32" where
  "frame_body_len f =
     (if fh_msglen f > of_nat sizeof_frame then fh_msglen f - of_nat sizeof_frame else 0)"

definition route_data :: "router \<Rightarrow> con \<Rightarrow> frame_header \<Rightarrow> bytes \<Rightarrow> router" where
  "route_data r c frame body =
     (case registry_find (rt_registry r) (fh_dest frame) of
        Some dest \<Rightarrow> snd (forward r dest frame body)
      | None \<Rightarrow>
          if is_peer r c then r
          else case forward_to_upstream r frame body of (ok, r') \<Rightarrow>
            if ok then r'
            else con_send r' c
                   (frame_bytes (make_frame MSG_ERROR (fh_src frame) 0 0 (fh_seq_nr frame) 0)))"

definition dispatch_frame :: "router \<Rightarrow> con \<Rightarrow> frame_header \<Rightarrow> bytes \<Rightarrow> router" where
  "dispatch_frame r c frame body =
     (if fh_type frame = MSG_ROUTER_PEER_HELLO then
        (if \<not> is_peer r c then advertise_as_peer (set_peer r c) c else r)
      else if fh_type frame = MSG_ROUTER_PEER_REGISTER then
        (if \<not> is_peer r c \<or> length body < sizeof_mbx_init then r
         else r\<lparr>rt_registry := snd (registry_add (rt_registry r) (mip_mbx (read_mbx_init body)) c)\<rparr>)
      else if fh_type frame = MSG_ROUTER_PEER_DELETE then
        (if \<not> is_peer r c \<or> length body < sizeof_mbx_init then r
         else r\<lparr>rt_registry := registry_remove (rt_registry r) (mip_mbx (read_mbx_init body))\<rparr>)
      else if fh_type frame = MSG_ROUTER_DISABLE_WATCHDOG then set_watchdog_off r c
      else if fh_type frame = MSG_ROUTER_MBX_INIT_WITH_REPLY then
        (if length body < sizeof_mbx_init then r
         else let mbx = mip_mbx (read_mbx_init body);
                  (ok, table) = registry_add (rt_registry r) mbx c;
                  reply = make_frame (if ok then MSG_OK else MSG_ERROR) (fh_src frame) 0 0
                            (fh_seq_nr frame) 0;
                  r1 = con_send (r\<lparr>rt_registry := table\<rparr>) c (frame_bytes reply)
              in if ok then on_local_registered r1 mbx else r1)
      else if fh_type frame = MSG_ROUTER_MBX_DELETE then
        (if length body < sizeof_mbx_init then r
         else let mbx = mip_mbx (read_mbx_init body)
              in on_local_deleted (r\<lparr>rt_registry := registry_remove (rt_registry r) mbx\<rparr>) mbx)
      else route_data r c frame body)"

definition handle_frame :: "router \<Rightarrow> con \<Rightarrow> frame_header \<Rightarrow> router" where
  "handle_frame r c frame =
     (let body_len = frame_body_len frame
      in if unat body_len > rt_max_msg_size r then set_socket r c (close (socket_of r c))
         else if body_len = 0 then dispatch_frame r c frame []
         else case recv_all (socket_of r c) (unat body_len) of (ok, body, s) \<Rightarrow>
           if ok then dispatch_frame (set_socket r c s) c frame body else set_socket r c s)"

text \<open>The thread function: entry, one round of the loop, and the exit.\<close>

definition connection_start :: "router \<Rightarrow> con \<Rightarrow> router" where
  "connection_start r c =
     (let r' = (if is_peer r c then advertise_as_peer r c else r) in set_phase r' c Running)"

definition connection_exit :: "router \<Rightarrow> con \<Rightarrow> router" where
  "connection_exit r c =
     set_phase (r\<lparr>rt_registry := registry_remove_all (rt_registry r) c\<rparr>) c Exited"

text \<open>The destructor of a connection, run when the router is destroyed and all threads have ended.\<close>

definition connection_destroy :: "router \<Rightarrow> con \<Rightarrow> router" where
  "connection_destroy r c = r\<lparr>rt_registry := registry_remove_all (rt_registry r) c\<rparr>"

lemma connection_destroy_idle: "connection_destroy (connection_exit r c) c = connection_exit r c"
  by (simp add: connection_destroy_def connection_exit_def set_phase_def registry_remove_all_def if_distrib cong: if_cong)

definition connection_iter :: "router \<Rightarrow> con \<Rightarrow> router" where
  "connection_iter r c =
     (case poll_in (socket_of r c) 200 of (p, s) \<Rightarrow>
        if p \<le> 0 then set_socket r c s
        else case recv_all s sizeof_frame of (ok, hdr, s') \<Rightarrow>
          if ok then handle_frame (set_socket r c s') c (read_frame hdr)
          else connection_exit (set_socket r c s') c)"

section \<open>TcpRouter: accepting, connecting, reading from upstream\<close>

definition new_connection :: "tcp_socket \<Rightarrow> bool \<Rightarrow> connection" where
  "new_connection s peer =
     \<lparr>cn_socket = s, cn_is_peer = peer, cn_watchdog_enabled = True, cn_phase = Created\<rparr>"

definition add_connection :: "router \<Rightarrow> tcp_socket \<Rightarrow> bool \<Rightarrow> router" where
  "add_connection r s peer = r\<lparr>rt_connections := rt_connections r @ [new_connection s peer]\<rparr>"

definition accept_connection :: "router \<Rightarrow> tcp_socket \<Rightarrow> router" where
  "accept_connection r s = add_connection r s False"

definition connect_to_peers :: "router \<Rightarrow> (peer_config \<times> connect_answer) list \<Rightarrow> router" where
  "connect_to_peers = foldl (\<lambda>r (pc, ans).
     case connect closed_socket ans of (ok, s) \<Rightarrow> if ok then add_connection r s True else r)"

definition connect_to_upstream :: "router \<Rightarrow> (peer_config \<times> connect_answer) option \<Rightarrow> router" where
  "connect_to_upstream r cfg =
     (case cfg of None \<Rightarrow> r
      | Some (uc, ans) \<Rightarrow> r\<lparr>rt_upstream := snd (connect (rt_upstream r) ans)\<rparr>)"

definition connect_to_system_routes ::
  "router \<Rightarrow> (system_route_config \<times> connect_answer) list \<Rightarrow> router" where
  "connect_to_system_routes = foldl (\<lambda>r (rc, ans).
     case connect closed_socket ans of (ok, s) \<Rightarrow>
       if ok then r\<lparr>rt_systems := rt_systems r @ [\<lparr>sc_system_id = src_system_id rc, sc_socket = s\<rparr>]\<rparr>
       else r)"

definition startup :: "nat \<Rightarrow> (peer_config \<times> connect_answer) list
    \<Rightarrow> (peer_config \<times> connect_answer) option
    \<Rightarrow> (system_route_config \<times> connect_answer) list \<Rightarrow> router" where
  "startup max_msg_size peers upstream systems =
     connect_to_system_routes (connect_to_upstream (connect_to_peers (new_router max_msg_size)
       peers) upstream) systems"

text \<open>
  One round of \<open>run_connection_reader\<close> on an upstream socket: whether the loop goes on, the
  socket (closed when it does not), and the router.
\<close>

definition reader_iter :: "router \<Rightarrow> tcp_socket \<Rightarrow> bool \<times> tcp_socket \<times> router" where
  "reader_iter r sock =
     (case poll_in sock 200 of (p, s) \<Rightarrow>
        if p \<le> 0 then (True, s, r)
        else case recv_all s sizeof_frame of (ok, hdr, s1) \<Rightarrow>
          if \<not> ok then (False, close s1, r)
          else let frame = read_frame hdr; body_len = frame_body_len frame
               in if unat body_len > rt_max_msg_size r then (False, close s1, r)
                  else case (if body_len = 0 then (True, [], s1) else recv_all s1 (unat body_len))
                    of (ok2, body, s2) \<Rightarrow>
                      if \<not> ok2 then (False, close s2, r)
                      else case registry_find (rt_registry r) (fh_dest frame) of
                          None \<Rightarrow> (True, s2, r)
                        | Some dest \<Rightarrow> (True, s2, snd (forward r dest frame body)))"

definition upstream_iter :: "router \<Rightarrow> router" where
  "upstream_iter r =
     (case reader_iter r (rt_upstream r) of (_, s, r') \<Rightarrow> r'\<lparr>rt_upstream := s\<rparr>)"

definition system_iter :: "router \<Rightarrow> nat \<Rightarrow> router" where
  "system_iter r i =
     (case reader_iter r (sc_socket (rt_systems r ! i)) of (_, s, r') \<Rightarrow>
        r'\<lparr>rt_systems := (rt_systems r')[i := (rt_systems r' ! i)\<lparr>sc_socket := s\<rparr>]\<rparr>)"

section \<open>The running daemon\<close>

text \<open>
  One step of one of the daemon's threads, or of the network: the accept thread takes a new
  connection, a connection's thread enters its loop, does one round of it or is stopped, an
  upstream reader does one round, bytes arrive on a connection.
\<close>

inductive step :: "router \<Rightarrow> router \<Rightarrow> bool" where
  accept: "step r (accept_connection r s)"
| start: "c < length (rt_connections r) \<Longrightarrow> cn_phase (rt_connections r ! c) = Created \<Longrightarrow>
    step r (connection_start r c)"
| iter: "c < length (rt_connections r) \<Longrightarrow> cn_phase (rt_connections r ! c) = Running \<Longrightarrow>
    step r (connection_iter r c)"
| stop: "c < length (rt_connections r) \<Longrightarrow> cn_phase (rt_connections r ! c) = Running \<Longrightarrow>
    step r (connection_exit r c)"
| upstream: "is_open (rt_upstream r) \<Longrightarrow> step r (upstream_iter r)"
| system: "i < length (rt_systems r) \<Longrightarrow> step r (system_iter r i)"
| arrive: "step r (set_socket r c ((socket_of r c)\<lparr>sk_rx := sk_rx (socket_of r c) @ bs\<rparr>))"

inductive reachable :: "router \<Rightarrow> bool" where
  init: "reachable (startup n peers upstream systems)"
| more: "reachable r \<Longrightarrow> step r r' \<Longrightarrow> reachable r'"

section \<open>Control state\<close>

text \<open>
  The part of the router that decides where frames go, without the sockets. Every operation is
  a function of it, which is what makes the routing predictable whatever the sockets do.
\<close>

record control =
  ct_registry :: registry
  ct_local :: "u32 list"
  ct_peer :: "bool list"
  ct_phase :: "phase list"

definition ctrl :: "router \<Rightarrow> control" where
  "ctrl r = \<lparr>ct_registry = rt_registry r, ct_local = rt_local r,
     ct_peer = map cn_is_peer (rt_connections r), ct_phase = map cn_phase (rt_connections r)\<rparr>"

lemma map_update_same: "f y = f (xs ! i) \<Longrightarrow> map f (xs[i := y]) = map f xs"
  using list_update_id [of "map f xs" i]
  by (cases "i < length xs") (simp_all add: map_update list_update_beyond)

lemma ctrl_set_socket [simp]: "ctrl (set_socket r c s) = ctrl r"
  by (simp add: ctrl_def set_socket_def map_update_same)

lemma ctrl_con_send [simp]: "ctrl (con_send r c bs) = ctrl r"
  by (simp add: con_send_def)

lemma ctrl_forward [simp]: "ctrl (snd (forward r c h b)) = ctrl r"
  by (simp add: forward_def split: prod.splits)

lemma ctrl_send_peer_register [simp]: "ctrl (send_peer_register m r c) = ctrl r"
  by (simp add: send_peer_register_def Let_def)

lemma ctrl_send_peer_delete [simp]: "ctrl (send_peer_delete m r c) = ctrl r"
  by (simp add: send_peer_delete_def Let_def)

lemma ctrl_foldl: "(\<And>r x. ctrl (f r x) = ctrl r) \<Longrightarrow> ctrl (foldl f r xs) = ctrl r"
  by (induction xs arbitrary: r) simp_all

lemma ctrl_broadcast [simp]: "(\<And>r x. ctrl (f r x) = ctrl r) \<Longrightarrow> ctrl (broadcast_to_peers f r) = ctrl r"
  by (simp add: broadcast_to_peers_def ctrl_foldl)

lemma ctrl_on_local_registered [simp]:
  "ctrl (on_local_registered r m) = (ctrl r)\<lparr>ct_local := List.insert m (ct_local (ctrl r))\<rparr>"
  by (simp add: on_local_registered_def) (simp add: ctrl_def)

lemma ctrl_on_local_deleted [simp]:
  "ctrl (on_local_deleted r m) = (ctrl r)\<lparr>ct_local := removeAll m (ct_local (ctrl r))\<rparr>"
  by (simp add: on_local_deleted_def) (simp add: ctrl_def)

lemma ctrl_advertise [simp]: "ctrl (advertise_as_peer r c) = ctrl r"
  by (simp add: advertise_as_peer_def Let_def ctrl_foldl)

lemma ctrl_forward_to_upstream [simp]: "ctrl (snd (forward_to_upstream r h b)) = ctrl r"
  by (auto simp: forward_to_upstream_def ctrl_def Let_def split: option.splits prod.splits)

lemma ctrl_route_data [simp]: "ctrl (route_data r c f b) = ctrl r"
  using ctrl_forward_to_upstream [of r f b]
  by (cases "forward_to_upstream r f b") (auto simp: route_data_def split: option.splits)

section \<open>What a frame does to the control state\<close>

text \<open>The specification of the frame handler: registrations and the peer flag only.\<close>

definition ctrl_dispatch :: "control \<Rightarrow> con \<Rightarrow> i8 \<Rightarrow> bytes \<Rightarrow> control" where
  "ctrl_dispatch k c type body =
     (let mbx = mip_mbx (read_mbx_init body); peer = ct_peer k ! c; whole = length body \<ge> 4
      in if type = MSG_ROUTER_PEER_HELLO then k\<lparr>ct_peer := (ct_peer k)[c := True]\<rparr>
         else if type = MSG_ROUTER_PEER_REGISTER \<and> peer \<and> whole
           then k\<lparr>ct_registry := snd (registry_add (ct_registry k) mbx c)\<rparr>
         else if type = MSG_ROUTER_PEER_DELETE \<and> peer \<and> whole
           then k\<lparr>ct_registry := registry_remove (ct_registry k) mbx\<rparr>
         else if type = MSG_ROUTER_MBX_INIT_WITH_REPLY \<and> whole \<and> ct_registry k mbx = None
           then k\<lparr>ct_registry := (ct_registry k)(mbx \<mapsto> c), ct_local := List.insert mbx (ct_local k)\<rparr>
         else if type = MSG_ROUTER_MBX_DELETE \<and> whole
           then k\<lparr>ct_registry := registry_remove (ct_registry k) mbx,
                  ct_local := removeAll mbx (ct_local k)\<rparr>
         else k)"

lemma ctrl_simps [simp]:
  "ct_registry (ctrl r) = rt_registry r"
  "ct_local (ctrl r) = rt_local r"
  "length (ct_peer (ctrl r)) = length (rt_connections r)"
  "length (ct_phase (ctrl r)) = length (rt_connections r)"
  "c < length (rt_connections r) \<Longrightarrow> ct_peer (ctrl r) ! c = is_peer r c"
  "c < length (rt_connections r) \<Longrightarrow> ct_phase (ctrl r) ! c = cn_phase (rt_connections r ! c)"
  by (simp_all add: ctrl_def)

lemma ctrl_set_registry [simp]: "ctrl (r\<lparr>rt_registry := t\<rparr>) = (ctrl r)\<lparr>ct_registry := t\<rparr>"
  by (simp add: ctrl_def)

lemma ctrl_set_peer [simp]:
  "ctrl (set_peer r c) = (ctrl r)\<lparr>ct_peer := (ct_peer (ctrl r))[c := True]\<rparr>"
  by (simp add: ctrl_def set_peer_def map_update_same) (simp add: map_update)

lemma ctrl_set_phase [simp]:
  "ctrl (set_phase r c p) = (ctrl r)\<lparr>ct_phase := (ct_phase (ctrl r))[c := p]\<rparr>"
  by (simp add: ctrl_def set_phase_def map_update_same) (simp add: map_update)

lemma ctrl_set_watchdog_off [simp]: "ctrl (set_watchdog_off r c) = ctrl r"
  by (simp add: ctrl_def set_watchdog_off_def map_update_same)

lemma control_update_peer_same: "ct_peer k ! c \<Longrightarrow> k\<lparr>ct_peer := (ct_peer k)[c := True]\<rparr> = k"
  using list_update_id [of "ct_peer k" c] by (cases k) simp

lemma dispatch_frame_ctrl:
  assumes "c < length (rt_connections r)"
  shows "ctrl (dispatch_frame r c f body) = ctrl_dispatch (ctrl r) c (fh_type f) body"
proof (cases "registry_add (rt_registry r) (mip_mbx (read_mbx_init body)) c")
  case (Pair ok table)
  then have "ok \<longleftrightarrow> rt_registry r (mip_mbx (read_mbx_init body)) = None"
    and "ok \<Longrightarrow> table = (rt_registry r)(mip_mbx (read_mbx_init body) \<mapsto> c)"
    and "\<not> ok \<Longrightarrow> table = rt_registry r"
    by (auto simp: registry_add_def split: option.splits)
  with Pair assms show ?thesis
    by (cases ok) (auto simp: dispatch_frame_def ctrl_dispatch_def Let_def msg_type_defs
        control_update_peer_same)
qed

lemma handle_frame_ctrl:
  assumes "c < length (rt_connections r)"
  shows "ctrl (handle_frame r c f) = ctrl r \<or>
    (\<exists>body. ctrl (handle_frame r c f) = ctrl_dispatch (ctrl r) c (fh_type f) body)"
proof -
  have len: "length (rt_connections (set_socket r c s)) = length (rt_connections r)" for s
    by (simp add: set_socket_def)
  show ?thesis
    using assms dispatch_frame_ctrl [of c "set_socket r c s" f for s] dispatch_frame_ctrl [of c r f "[]"]
    by (auto simp: handle_frame_def Let_def len split: prod.splits)
qed

section \<open>Invariant of the running daemon\<close>

text \<open>
  A route always leads to a connection whose thread is inside its loop, and a mailbox served by
  a client connection is among those advertised to peers.
\<close>

definition routes_ok :: "control \<Rightarrow> bool" where
  "routes_ok k \<longleftrightarrow> distinct (ct_local k) \<and> length (ct_peer k) = length (ct_phase k) \<and>
     (\<forall>m c. ct_registry k m = Some c \<longrightarrow> c < length (ct_phase k) \<and> ct_phase k ! c = Running
        \<and> (ct_peer k ! c \<or> m \<in> set (ct_local k)))"

lemma nth_update_same_val: "d < length xs \<Longrightarrow> xs ! d = v \<Longrightarrow> xs[c := v] ! d = v"
  by (cases "c = d") simp_all

lemma routes_ok_dispatch [invar_intros]:
  assumes "routes_ok k" and "c < length (ct_phase k)" and "ct_phase k ! c = Running"
  shows "routes_ok (ctrl_dispatch k c type body)"
  using assms
  by (auto simp: routes_ok_def ctrl_dispatch_def Let_def registry_add_def registry_remove_def
      nth_list_update distinct_removeAll split: option.splits if_splits)

lemma routes_ok_exit [invar_intros]:
  assumes "routes_ok k" and "c < length (ct_phase k)"
  shows "routes_ok (k\<lparr>ct_registry := registry_remove_all (ct_registry k) c,
    ct_phase := (ct_phase k)[c := p]\<rparr>)"
  using assms by (auto simp: routes_ok_def registry_remove_all_def nth_list_update split: if_splits)

lemma routes_ok_start [invar_intros]:
  assumes "routes_ok k"
  shows "routes_ok (k\<lparr>ct_phase := (ct_phase k)[c := Running]\<rparr>)"
  using assms by (auto simp: routes_ok_def nth_update_same_val)

lemma routes_ok_new [invar_intros]:
  assumes "routes_ok k"
  shows "routes_ok (k\<lparr>ct_peer := ct_peer k @ [b], ct_phase := ct_phase k @ [p]\<rparr>)"
  using assms unfolding routes_ok_def by (fastforce simp: nth_append)

lemma ctrl_add_connection [simp]:
  "ctrl (add_connection r s b) =
     (ctrl r)\<lparr>ct_peer := ct_peer (ctrl r) @ [b], ct_phase := ct_phase (ctrl r) @ [Created]\<rparr>"
  by (simp add: ctrl_def add_connection_def new_connection_def)

lemma ctrl_connection_exit [simp]:
  "ctrl (connection_exit r c) = (ctrl r)\<lparr>ct_registry := registry_remove_all (rt_registry r) c,
     ct_phase := (ct_phase (ctrl r))[c := Exited]\<rparr>"
  by (simp add: connection_exit_def)

lemma ctrl_connection_start [simp]:
  "ctrl (connection_start r c) = (ctrl r)\<lparr>ct_phase := (ct_phase (ctrl r))[c := Running]\<rparr>"
  by (simp add: connection_start_def Let_def)

lemma ctrl_reader_iter: "reader_iter r s = (go, s', r') \<Longrightarrow> ctrl r' = ctrl r"
  by (auto simp: reader_iter_def Let_def split: prod.splits if_splits option.splits)

lemma ctrl_upstream_iter [simp]: "ctrl (upstream_iter r) = ctrl r"
proof (cases "reader_iter r (rt_upstream r)")
  case (fields go s r')
  then show ?thesis
    using ctrl_reader_iter [OF fields] by (simp add: upstream_iter_def) (simp add: ctrl_def)
qed

lemma ctrl_system_iter [simp]: "ctrl (system_iter r i) = ctrl r"
proof (cases "reader_iter r (sc_socket (rt_systems r ! i))")
  case (fields go s r')
  then show ?thesis
    using ctrl_reader_iter [OF fields] by (simp add: system_iter_def) (simp add: ctrl_def)
qed

lemma routes_ok_connection_iter:
  assumes "routes_ok (ctrl r)" and "c < length (rt_connections r)"
    and "cn_phase (rt_connections r ! c) = Running"
  shows "routes_ok (ctrl (connection_iter r c))"
proof -
  have 1: "routes_ok (ctrl (handle_frame (set_socket r c s) c f))" for s f
  proof -
    have "c < length (rt_connections (set_socket r c s))"
      using assms by (simp add: set_socket_def)
    from handle_frame_ctrl [OF this, of f] show ?thesis
      using assms by (auto intro!: routes_ok_dispatch)
  qed
  have 2: "routes_ok (ctrl (connection_exit (set_socket r c s) c))" for s
    using routes_ok_exit [OF assms(1), of c Exited] assms(2)
    by (simp add: set_socket_def connection_exit_def) (simp add: ctrl_def set_socket_def map_update_same)
  show ?thesis
    using 1 2 assms(1) by (simp add: connection_iter_def split: prod.splits)
qed

lemma routes_ok_step: "step r r' \<Longrightarrow> routes_ok (ctrl r) \<Longrightarrow> routes_ok (ctrl r')"
  by (induction rule: step.induct)
    (auto simp: accept_connection_def routes_ok_connection_iter
      intro!: routes_ok_new routes_ok_start routes_ok_exit [where k = "ctrl r" for r, simplified])

lemma routes_ok_startup: "routes_ok (ctrl (startup n peers upstream systems))"
proof -
  have s: "ctrl (connect_to_system_routes r xs) = ctrl r" for r xs
    unfolding connect_to_system_routes_def
    by (rule ctrl_foldl) (auto simp: ctrl_def split: prod.splits)
  have u: "ctrl (connect_to_upstream r x) = ctrl r" for r x
    by (simp add: connect_to_upstream_def ctrl_def split: option.splits prod.splits)
  have p: "routes_ok (ctrl r) \<Longrightarrow> routes_ok (ctrl (connect_to_peers r xs))" for r xs
    unfolding connect_to_peers_def
  proof (induction xs arbitrary: r)
    case (Cons x xs)
    then show ?case by (auto simp: Cons.IH routes_ok_new split: prod.splits)
  qed simp
  have "routes_ok (ctrl (new_router n))"
    by (simp add: routes_ok_def ctrl_def new_router_def)
  with p show ?thesis by (simp add: startup_def s u)
qed

lemma reachable_routes_ok: "reachable r \<Longrightarrow> routes_ok (ctrl r)"
  by (induction rule: reachable.induct) (auto intro: routes_ok_startup routes_ok_step)

end
