(* ===== verification/Tcp_Router_Props.thy ===== *)
theory Tcp_Router_Props
  imports Tcp_Router
begin

text \<open>
  What the TCP router puts on which connection: forwarding, error replies, registration and its
  announcement to peers, the choice of the upstream link, disconnects and oversized frames.
\<close>

section \<open>Streams\<close>

abbreviation tx :: "router \<Rightarrow> con \<Rightarrow> bytes" where
  "tx r c \<equiv> sk_tx (socket_of r c)"

lemma length_set_socket [simp]: "length (rt_connections (set_socket r c s)) = length (rt_connections r)"
  by (simp add: set_socket_def)

lemma socket_of_set_socket:
  "socket_of (set_socket r c s) d = (if d = c \<and> c < length (rt_connections r) then s else socket_of r d)"
  by (cases "c < length (rt_connections r)")
    (auto simp: set_socket_def nth_list_update list_update_beyond)

lemma length_con_send [simp]: "length (rt_connections (con_send r c bs)) = length (rt_connections r)"
  by (simp add: con_send_def)

definition all_can_send :: "router \<Rightarrow> bool" where
  "all_can_send r \<longleftrightarrow> (\<forall>c < length (rt_connections r). can_send (socket_of r c))"

lemma con_send_healthy:
  assumes "all_can_send r" and "c < length (rt_connections r)"
  shows "all_can_send (con_send r c bs)"
    and "tx (con_send r c bs) d = (if d = c then tx r c @ bs else tx r d)"
proof -
  from assms have "can_send (socket_of r c)" by (simp add: all_can_send_def)
  then obtain s where "send_all (socket_of r c) bs = (True, s)" "can_send s"
    "sk_tx s = tx r c @ bs"
    by (rule send_all_can_send)
  then show "all_can_send (con_send r c bs)"
    and "tx (con_send r c bs) d = (if d = c then tx r c @ bs else tx r d)"
    using assms by (auto simp: con_send_def all_can_send_def socket_of_set_socket)
qed

text \<open>Two sends in a row on each connection of a list: the shape of every announcement.\<close>

definition con_send2 :: "bytes \<Rightarrow> bytes \<Rightarrow> router \<Rightarrow> con \<Rightarrow> router" where
  "con_send2 a b r c = con_send (con_send r c a) c b"

lemma con_send2_healthy:
  assumes "all_can_send r" and "c < length (rt_connections r)"
  shows "all_can_send (con_send2 a b r c)"
    and "length (rt_connections (con_send2 a b r c)) = length (rt_connections r)"
    and "tx (con_send2 a b r c) d = (if d = c then tx r c @ a @ b else tx r d)"
  using con_send_healthy [OF assms] assms
  by (auto simp: con_send2_def con_send_healthy)

lemma foldl_con_send2:
  assumes "all_can_send r" and "distinct ps" and "\<forall>p \<in> set ps. p < length (rt_connections r)"
  shows "tx (foldl (con_send2 a b) r ps) d = tx r d @ (if d \<in> set ps then a @ b else [])"
  using assms
proof (induction ps arbitrary: r)
  case Nil
  then show ?case by simp
next
  case (Cons p ps)
  then have "all_can_send (con_send2 a b r p)"
    and "\<forall>q \<in> set ps. q < length (rt_connections (con_send2 a b r p))"
    and t: "tx (con_send2 a b r p) d = (if d = p then tx r p @ a @ b else tx r d)"
    by (auto simp: con_send2_healthy)
  then have "tx (foldl (con_send2 a b) (con_send2 a b r p) ps) d
      = tx (con_send2 a b r p) d @ (if d \<in> set ps then a @ b else [])"
    using Cons by auto
  with t Cons.prems show ?case by auto
qed

lemma send_peer_register_alt:
  "send_peer_register m = con_send2 (frame_bytes (make_frame MSG_ROUTER_PEER_REGISTER 0 0 0 0 4))
     (mbx_init_bytes \<lparr>mip_mbx = m\<rparr>)"
  by (intro ext) (simp add: send_peer_register_def con_send2_def Let_def)

lemma send_peer_delete_alt:
  "send_peer_delete m = con_send2 (frame_bytes (make_frame MSG_ROUTER_PEER_DELETE 0 0 0 0 4))
     (mbx_init_bytes \<lparr>mip_mbx = m\<rparr>)"
  by (intro ext) (simp add: send_peer_delete_def con_send2_def Let_def)

lemma peers_of_props: "distinct (peers_of r)" "p \<in> set (peers_of r) \<longleftrightarrow> p < length (rt_connections r) \<and> is_peer r p"
  by (auto simp: peers_of_def)

definition register_frame :: "u32 \<Rightarrow> bytes" where
  "register_frame m = frame_bytes (make_frame MSG_ROUTER_PEER_REGISTER 0 0 0 0 4) @ mbx_init_bytes \<lparr>mip_mbx = m\<rparr>"

definition delete_frame :: "u32 \<Rightarrow> bytes" where
  "delete_frame m = frame_bytes (make_frame MSG_ROUTER_PEER_DELETE 0 0 0 0 4) @ mbx_init_bytes \<lparr>mip_mbx = m\<rparr>"

lemma on_local_registered_tx:
  assumes "all_can_send r"
  shows "tx (on_local_registered r m) d =
    tx r d @ (if d < length (rt_connections r) \<and> is_peer r d then register_frame m else [])"
proof -
  let ?r = "r\<lparr>rt_local := List.insert m (rt_local r)\<rparr>"
  have "all_can_send ?r" using assms by (simp add: all_can_send_def)
  then show ?thesis
    using foldl_con_send2 [of ?r "peers_of ?r"]
    by (simp add: on_local_registered_def broadcast_to_peers_def send_peer_register_alt
        peers_of_props register_frame_def)
qed

lemma on_local_deleted_tx:
  assumes "all_can_send r"
  shows "tx (on_local_deleted r m) d =
    tx r d @ (if d < length (rt_connections r) \<and> is_peer r d then delete_frame m else [])"
proof -
  let ?r = "r\<lparr>rt_local := removeAll m (rt_local r)\<rparr>"
  have "all_can_send ?r" using assms by (simp add: all_can_send_def)
  then show ?thesis
    using foldl_con_send2 [of ?r "peers_of ?r"]
    by (simp add: on_local_deleted_def broadcast_to_peers_def send_peer_delete_alt
        peers_of_props delete_frame_def)
qed

section \<open>A small network\<close>

text \<open>Two client connections and a peer on well-behaved sockets, used to instantiate the results.\<close>

definition ex_socket :: tcp_socket where
  "ex_socket = \<lparr>sk_fd = 3, sk_tx = [], sk_rx = [], sk_send_k = (\<lambda>_. 1000), sk_recv_k = (\<lambda>_. 1000),
     sk_poll_k = (\<lambda>_ _. 1)\<rparr>"

definition ex_connection :: "bool \<Rightarrow> connection" where
  "ex_connection peer = \<lparr>cn_socket = ex_socket, cn_is_peer = peer, cn_watchdog_enabled = True,
     cn_phase = Running\<rparr>"

definition ex_router :: router where
  "ex_router = (new_router 4096)\<lparr>rt_registry := [0x0101 \<mapsto> 1], rt_local := [0x0101],
     rt_connections := [ex_connection False, ex_connection False, ex_connection True]\<rparr>"

lemmas ex_defs = ex_socket_def ex_connection_def ex_router_def new_router_def can_send_def is_open_def

lemma ex_router_healthy: "all_can_send ex_router"
  by (simp add: all_can_send_def ex_defs less_Suc_eq numeral_3_eq_3)

section \<open>Data frames\<close>

text \<open>The frame types the router consumes itself; everything else is routed.\<close>

definition router_types :: "i8 list" where
  "router_types = [MSG_ROUTER_PEER_HELLO, MSG_ROUTER_PEER_REGISTER, MSG_ROUTER_PEER_DELETE,
     MSG_ROUTER_DISABLE_WATCHDOG, MSG_ROUTER_MBX_INIT_WITH_REPLY, MSG_ROUTER_MBX_DELETE]"

lemma dispatch_data:
  "fh_type f \<notin> set router_types \<Longrightarrow> dispatch_frame r c f body = route_data r c f body"
  by (simp add: router_types_def dispatch_frame_def)

text \<open>
  C1. A data frame for a registered mailbox goes to the connection that registered it and
  nowhere else: only that connection's socket changes, what is written is a prefix of the
  unmodified header and body, and all of it when the socket accepts writes.
\<close>

theorem data_frame_forwarded:
  assumes "fh_type f \<notin> set router_types"
    and "rt_registry r (fh_dest f) = Some d" and "d < length (rt_connections r)"
  shows "\<exists>s. dispatch_frame r c f body = set_socket r d s \<and>
    wrote (can_send (socket_of r d)) (frame_bytes f @ body) (socket_of r d) s"
proof -
  obtain ok s where bw: "both_written send_all (socket_of r d) (frame_bytes f) body = (ok, s)"
    by fastforce
  then have "wrote ok (frame_bytes f @ body) (socket_of r d) s" by (rule both_send_wrote)
  moreover have "can_send (socket_of r d) \<Longrightarrow> ok"
    using bw both_send_can_send [of "socket_of r d" "frame_bytes f" body] by auto
  moreover have "dispatch_frame r c f body = set_socket r d s"
    using assms bw by (simp add: dispatch_data route_data_def registry_find_def forward_def)
  ultimately show ?thesis unfolding wrote_def by blast
qed

theorem data_frame_forwarded_witness:
  "\<exists>s. dispatch_frame ex_router 0 (make_frame 0 0x0101 0x0202 5 1 2) [7, 8] = set_socket ex_router 1 s \<and>
    wrote (can_send (socket_of ex_router 1)) (frame_bytes (make_frame 0 0x0101 0x0202 5 1 2) @ [7, 8])
      (socket_of ex_router 1) s"
  by (rule data_frame_forwarded)
    (simp_all add: router_types_def msg_type_defs make_frame_def ex_defs)

text \<open>
  A data frame that arrives from a peer router for a mailbox nobody registered changes
  nothing at all: it is neither answered nor passed on upstream, so two routers never bounce a
  frame between each other.
\<close>

lemma unknown_dest_from_peer_dropped:
  assumes "fh_type f \<notin> set router_types"
    and "rt_registry r (fh_dest f) = None" and "is_peer r c"
  shows "dispatch_frame r c f body = r"
  using assms by (simp add: dispatch_data route_data_def registry_find_def)

text \<open>Which upstream link is used for a destination, if any is usable.\<close>

definition upstream_usable :: "router \<Rightarrow> u32 \<Rightarrow> bool" where
  "upstream_usable r dest =
     (case find_system (rt_systems r) (system_id_of_dest dest) of
        Some i \<Rightarrow> is_open (sc_socket (rt_systems r ! i)) | None \<Rightarrow> is_open (rt_upstream r))"

lemma forward_to_upstream_unusable:
  "\<not> upstream_usable r (fh_dest f) \<Longrightarrow> forward_to_upstream r f body = (False, r)"
  by (auto simp: upstream_usable_def forward_to_upstream_def Let_def split: option.splits)

text \<open>
  C27. A client that sends to a mailbox nobody registered, on a router with no open link for
  the destination's system, gets exactly one \<open>MSG_ERROR\<close> frame back, addressed to the frame's
  source and carrying its sequence number; no other connection sees anything.
\<close>

theorem unknown_dest_error_reply:
  assumes "fh_type f \<notin> set router_types" and "rt_registry r (fh_dest f) = None"
    and "\<not> is_peer r c" and "\<not> upstream_usable r (fh_dest f)"
    and "all_can_send r" and "c < length (rt_connections r)"
  shows "tx (dispatch_frame r c f body) d =
    (if d = c
     then tx r c @ frame_bytes (make_frame MSG_ERROR (fh_src f) 0 0 (fh_seq_nr f) 0)
     else tx r d)"
  using assms
  by (simp add: dispatch_data route_data_def registry_find_def forward_to_upstream_unusable
      con_send_healthy)

theorem unknown_dest_error_reply_witness:
  "tx (dispatch_frame ex_router 0 (make_frame 0 0x0909 0x0202 5 1 2) [7, 8]) 0 =
    (if (0::con) = 0
     then tx ex_router 0 @ frame_bytes (make_frame MSG_ERROR
       (fh_src (make_frame 0 0x0909 0x0202 5 1 2)) 0 0 (fh_seq_nr (make_frame 0 0x0909 0x0202 5 1 2)) 0)
     else tx ex_router 0)"
  by (rule unknown_dest_error_reply [OF _ _ _ _ ex_router_healthy])
    (simp_all add: router_types_def msg_type_defs make_frame_def ex_defs upstream_usable_def
      closed_socket_def)

lemma send_upstream_wrote:
  assumes "send_upstream s f body = (ok, s')"
  shows "wrote ok (frame_bytes f @ body) s s'"
proof (cases "body = []")
  case True
  with assms show ?thesis
    by (auto simp: send_upstream_def dest: send_all_wrote split: prod.splits if_splits)
next
  case False
  with assms have "both_written send_all s (frame_bytes f) body = (ok, s')"
    by (auto simp: send_upstream_def both_written_def split: prod.splits if_splits)
  then show ?thesis by (rule both_send_wrote)
qed

text \<open>
  The upstream link for an unknown destination is chosen by the top byte of the mailbox id
  alone: the first system route for it if there is one, and then that route only, even when its
  socket is closed; the default upstream otherwise. Whichever is used receives a prefix of the
  frame, the whole of it if the call reports success, and no client connection is touched.
\<close>

lemma upstream_choice:
  "case forward_to_upstream r f body of (ok, r') \<Rightarrow>
     rt_connections r' = rt_connections r \<and> rt_registry r' = rt_registry r \<and>
     (case find_system (rt_systems r) (system_id_of_dest (fh_dest f)) of
        Some i \<Rightarrow> rt_upstream r' = rt_upstream r \<and>
          (\<exists>s. rt_systems r' = (rt_systems r)[i := (rt_systems r ! i)\<lparr>sc_socket := s\<rparr>] \<and>
            wrote ok (frame_bytes f @ body) (sc_socket (rt_systems r ! i)) s)
      | None \<Rightarrow> rt_systems r' = rt_systems r \<and>
          wrote ok (frame_bytes f @ body) (rt_upstream r) (rt_upstream r'))"
proof (cases "find_system (rt_systems r) (system_id_of_dest (fh_dest f))")
  case None
  then show ?thesis
    by (auto simp: forward_to_upstream_def dest: send_upstream_wrote split: prod.splits)
next
  case (Some i)
  show ?thesis
  proof (cases "is_open (sc_socket (rt_systems r ! i))")
    case True
    obtain ok s where "send_upstream (sc_socket (rt_systems r ! i)) f body = (ok, s)"
      by fastforce
    with True Some send_upstream_wrote [OF this] show ?thesis
      by (auto simp: forward_to_upstream_def Let_def)
  next
    case False
    with Some show ?thesis
      by (auto simp: forward_to_upstream_def Let_def
          intro!: exI [of _ "sc_socket (rt_systems r ! i)"])
  qed
qed

section \<open>Registration\<close>

abbreviation registration :: "frame_header \<Rightarrow> bytes \<Rightarrow> u32 \<Rightarrow> bool" where
  "registration f body m \<equiv> fh_type f = MSG_ROUTER_MBX_INIT_WITH_REPLY \<and> sizeof_mbx_init \<le> length body
     \<and> mip_mbx (read_mbx_init body) = m"

abbreviation reply_frame :: "i8 \<Rightarrow> frame_header \<Rightarrow> bytes" where
  "reply_frame type f \<equiv> frame_bytes (make_frame type (fh_src f) 0 0 (fh_seq_nr f) 0)"

lemma all_can_send_upd [simp]:
  "all_can_send (r\<lparr>rt_registry := t\<rparr>) = all_can_send r"
  by (simp add: all_can_send_def)

lemma con_send_fields [simp]:
  "rt_registry (con_send r c bs) = rt_registry r"
  "rt_local (con_send r c bs) = rt_local r"
  by (simp_all add: con_send_def set_socket_def)

lemma is_peer_con_send [simp]:
  "d < length (rt_connections r) \<Longrightarrow> is_peer (con_send r c bs) d = is_peer r d"
  by (cases "c = d") (simp_all add: con_send_def set_socket_def)

lemma on_local_registered_fields [simp]:
  "rt_registry (on_local_registered r m) = rt_registry r"
  "rt_local (on_local_registered r m) = List.insert m (rt_local r)"
  using arg_cong [OF ctrl_on_local_registered [of r m], of ct_registry]
    arg_cong [OF ctrl_on_local_registered [of r m], of ct_local]
  by (simp_all del: ctrl_on_local_registered)

lemma dispatch_registration:
  assumes "registration f body m" and "rt_registry r m = None"
    and "all_can_send r" and "c < length (rt_connections r)"
  shows "rt_registry (dispatch_frame r c f body) = (rt_registry r)(m \<mapsto> c) \<and>
    rt_local (dispatch_frame r c f body) = List.insert m (rt_local r) \<and>
    (\<forall>d. d < length (rt_connections r) \<longrightarrow> tx (dispatch_frame r c f body) d = tx r d
       @ (if d = c then reply_frame MSG_OK f else [])
       @ (if is_peer r d then register_frame m else []))"
proof -
  let ?r1 = "con_send (r\<lparr>rt_registry := (rt_registry r)(m \<mapsto> c)\<rparr>) c (reply_frame MSG_OK f)"
  have d: "dispatch_frame r c f body = on_local_registered ?r1 m"
    using assms by (simp add: dispatch_frame_def msg_type_defs registry_add_def Let_def)
  have h: "all_can_send ?r1"
    using assms by (simp add: con_send_healthy)
  have "tx ?r1 e = (if e = c then tx r c @ reply_frame MSG_OK f else tx r e)" for e
    using assms by (simp add: con_send_healthy)
  with on_local_registered_tx [OF h, of m] show ?thesis
    unfolding d by simp
qed

text \<open>
  C2. Registering a free mailbox id: the requesting connection is answered with one \<open>MSG_OK\<close>
  frame, the id is routed to it and added to the advertised set, and every peer connection, and
  only peers, receives one PEER_REGISTER frame for the id.
\<close>

theorem registration_succeeds:
  assumes "registration f body m" and "rt_registry r m = None"
    and "all_can_send r" and "c < length (rt_connections r)"
  shows "rt_registry (dispatch_frame r c f body) = (rt_registry r)(m \<mapsto> c) \<and>
    rt_local (dispatch_frame r c f body) = List.insert m (rt_local r) \<and>
    (\<forall>d. d < length (rt_connections r) \<longrightarrow> tx (dispatch_frame r c f body) d = tx r d
       @ (if d = c then reply_frame MSG_OK f else [])
       @ (if is_peer r d then register_frame m else []))"
  by (rule dispatch_registration [OF assms])

theorem registration_succeeds_witness:
  "rt_registry (dispatch_frame ex_router 0 (make_frame MSG_ROUTER_MBX_INIT_WITH_REPLY 0 0x0202 0 1 4)
     [2, 2, 0, 0]) = (rt_registry ex_router)(0x0202 \<mapsto> 0)"
  using registration_succeeds [of "make_frame MSG_ROUTER_MBX_INIT_WITH_REPLY 0 0x0202 0 1 4"
      "[2, 2, 0, 0]" "0x0202" ex_router 0] ex_router_healthy
  by (simp add: make_frame_def read_mbx_init_def dec_u32_def ex_defs)

text \<open>
  C3. Registering an id that is already taken, by whichever connection, is refused with one
  \<open>MSG_ERROR\<close> frame to the requester; registry, advertised set, connections' roles and every
  other connection's output are as before.
\<close>

theorem duplicate_registration_refused:
  assumes "registration f body m" and "rt_registry r m = Some e"
    and "all_can_send r" and "c < length (rt_connections r)"
  shows "ctrl (dispatch_frame r c f body) = ctrl r \<and>
    (\<forall>d. tx (dispatch_frame r c f body) d = tx r d @ (if d = c then reply_frame MSG_ERROR f else []))"
  using assms by (simp add: dispatch_frame_def msg_type_defs registry_add_def Let_def con_send_healthy)

theorem duplicate_registration_refused_witness:
  "ctrl (dispatch_frame ex_router 0 (make_frame MSG_ROUTER_MBX_INIT_WITH_REPLY 0 0x0202 0 1 4)
     [1, 1, 0, 0]) = ctrl ex_router"
  using duplicate_registration_refused [of "make_frame MSG_ROUTER_MBX_INIT_WITH_REPLY 0 0x0202 0 1 4"
      "[1, 1, 0, 0]" "0x0101" ex_router 1 0] ex_router_healthy
  by (simp add: make_frame_def read_mbx_init_def dec_u32_def ex_defs)

text \<open>
  C28. Split horizon: what a peer announces is never announced further. Whatever registration
  or withdrawal a peer sends, no connection sees a single byte and the advertised set does not
  change, so announcements cannot circulate among routers.
\<close>

theorem peer_announcements_stay_local:
  assumes "fh_type f \<in> {MSG_ROUTER_PEER_REGISTER, MSG_ROUTER_PEER_DELETE}"
  shows "rt_connections (dispatch_frame r c f body) = rt_connections r \<and>
    rt_upstream (dispatch_frame r c f body) = rt_upstream r \<and>
    rt_systems (dispatch_frame r c f body) = rt_systems r \<and>
    local_mailboxes_snapshot (dispatch_frame r c f body) = local_mailboxes_snapshot r"
  using assms by (auto simp: dispatch_frame_def local_mailboxes_snapshot_def msg_type_defs)

theorem peer_announcements_stay_local_witness:
  "rt_connections (dispatch_frame ex_router 2 (make_frame MSG_ROUTER_PEER_REGISTER 0 0 0 0 4) [9, 9, 0, 0])
     = rt_connections ex_router"
  using peer_announcements_stay_local [of "make_frame MSG_ROUTER_PEER_REGISTER 0 0 0 0 4" ex_router 2
      "[9, 9, 0, 0]"]
  by (simp add: make_frame_def)

section \<open>Refinement and invariant\<close>





text \<open>A daemon that has accepted a client and served its registration of mailbox 0x0101.\<close>

definition ex_client :: tcp_socket where
  "ex_client = ex_socket\<lparr>sk_rx := frame_bytes (make_frame MSG_ROUTER_MBX_INIT_WITH_REPLY 0 0x0101 0 0 4)
     @ mbx_init_bytes \<lparr>mip_mbx = 0x0101\<rparr>\<rparr>"

definition ex_accepted :: router where
  "ex_accepted = connection_start (accept_connection (startup 4096 [] None []) ex_client) 0"

lemma ex_accepted_reachable: "reachable (connection_iter ex_accepted 0)"
proof -
  have "reachable (accept_connection (startup 4096 [] None []) ex_client)"
    by (rule reachable.more [OF reachable.init step.accept])
  then have "reachable ex_accepted"
    unfolding ex_accepted_def
    by (rule reachable.more) (rule step.start; code_simp)
  then show ?thesis
    by (rule reachable.more) (rule step.iter; code_simp)
qed


section \<open>Disconnects and oversized frames\<close>

text \<open>
  When a connection's thread ends, exactly the routes to it disappear: every mailbox it
  served is unknown from then on and every other route is kept. The advertised set is not
  touched, and no peer is told.
\<close>

lemma exit_withdraws_routes:
  "registry_find (rt_registry (connection_exit r c)) m =
     (if registry_find (rt_registry r) m = Some c then None else registry_find (rt_registry r) m) \<and>
   local_mailboxes_snapshot (connection_exit r c) = local_mailboxes_snapshot r \<and>
   tx (connection_exit r c) d = tx r d"
proof -
  have "tx (connection_exit r c) d = tx r d"
    by (cases "d = c"; cases "c < length (rt_connections r)")
      (simp_all add: connection_exit_def set_phase_def list_update_beyond)
  moreover have "registry_find (rt_registry (connection_exit r c)) m =
     (if registry_find (rt_registry r) m = Some c then None else registry_find (rt_registry r) m)"
    using tcp_table.find_remove_all [of "rt_registry r" c m]
    by (auto simp: connection_exit_def set_phase_def split: option.splits)
  ultimately show ?thesis
    by (simp add: connection_exit_def set_phase_def local_mailboxes_snapshot_def)
qed

text \<open>
  A frame that announces more than \<open>max_msg_size\<close> body bytes is never read: the
  connection's socket is closed at once and nothing else changes. From then on every round of
  that connection's loop leaves the router as it is, so its routes stay in the registry.
\<close>

lemma oversized_frame_closes:
  assumes "rt_max_msg_size r < unat (frame_body_len f)" and "c < length (rt_connections r)"
  shows "handle_frame r c f = set_socket r c (close (socket_of r c)) \<and>
    \<not> is_open (socket_of (handle_frame r c f) c) \<and>
    connection_iter (handle_frame r c f) c = handle_frame r c f"
proof -
  have h: "handle_frame r c f = set_socket r c (close (socket_of r c))"
    using assms(1) by (simp add: handle_frame_def Let_def)
  have s: "socket_of (handle_frame r c f) c = close (socket_of r c)"
    using assms(2) by (simp add: h socket_of_set_socket)
  have "set_socket (handle_frame r c f) c (close (socket_of r c)) = handle_frame r c f"
    using assms(2) by (simp add: h set_socket_def)
  with h s show ?thesis
    by (simp add: connection_iter_def poll_in_def is_open_def close_def split: if_splits)
qed

end
