(* ===== verification/Wire_Message.thy ===== *)
theory Wire_Message
  imports Prelude
begin

text \<open>
  The CoreRaT message on the wire, \<open>messaging/wire_message.hpp\<close>: the 32-byte header with its
  byte image, the message aggregate, and \<open>serialize\<close>/\<open>deserialize\<close>. The \<open>sertial\<close> library that
  turns a message into bytes and back is a parameter of the definitions that call it.
\<close>

record wire_header =
  wh_msg_type :: u32
  wh_msg_size :: u32
  wh_timestamp :: u64
  wh_seq_number :: u32
  wh_dest :: u32
  wh_src :: u32
  wh_flags :: u32

abbreviation sizeof_wire_header :: nat where "sizeof_wire_header \<equiv> 32"

text \<open>The struct has no padding: every field sits at a multiple of its size.\<close>

definition wire_header_bytes :: "wire_header \<Rightarrow> bytes" where
  "wire_header_bytes h = enc_u32 (wh_msg_type h) @ enc_u32 (wh_msg_size h) @ enc_u64 (wh_timestamp h)
     @ enc_u32 (wh_seq_number h) @ enc_u32 (wh_dest h) @ enc_u32 (wh_src h) @ enc_u32 (wh_flags h)"

definition read_wire_header :: "bytes \<Rightarrow> wire_header" where
  "read_wire_header bs = \<lparr>wh_msg_type = dec_u32 bs, wh_msg_size = dec_u32 (drop 4 bs),
     wh_timestamp = dec_u64 (drop 8 bs), wh_seq_number = dec_u32 (drop 16 bs),
     wh_dest = dec_u32 (drop 20 bs), wh_src = dec_u32 (drop 24 bs), wh_flags = dec_u32 (drop 28 bs)\<rparr>"

record 'p wire_message =
  wm_header :: wire_header
  wm_payload :: 'p

text \<open>
  \<open>serialize\<close>: the type's \<open>message_type\<close> member, if it has one, is stored in the header, the
  library produces the bytes, and then the message's own size field is set.
\<close>

definition serialize :: "u32 option \<Rightarrow> ('p wire_message \<Rightarrow> bytes) \<Rightarrow> 'p wire_message
    \<Rightarrow> bytes \<times> 'p wire_message" where
  "serialize message_type ser message =
     (let m1 = (case message_type of None \<Rightarrow> message
          | Some t \<Rightarrow> message\<lparr>wm_header := (wm_header message)\<lparr>wh_msg_type := t\<rparr>\<rparr>);
          result = ser m1
      in (result, m1\<lparr>wm_header := (wm_header m1)\<lparr>wh_msg_size := of_nat (length result)\<rparr>\<rparr>))"

definition deserialize :: "(bytes \<Rightarrow> 'p wire_message option) \<Rightarrow> bytes \<Rightarrow> 'p wire_message option" where
  "deserialize deser data = deser data"

section \<open>Byte image\<close>

lemma wire_header_fields:
  assumes "length bs = 32"
  shows "bs = take 4 bs @ take 4 (drop 4 bs) @ take 8 (drop 8 bs) @ take 4 (drop 16 bs)
    @ take 4 (drop 20 bs) @ take 4 (drop 24 bs) @ take 4 (drop 28 bs)"
proof -
  have split: "drop k bs = take n (drop k bs) @ drop (k + n) bs" for k n
    using append_take_drop_id [of n "drop k bs"] by (simp add: add.commute)
  have "take 4 (drop 28 bs) = drop 28 bs" using assms by simp
  with split [of 0 4] split [of 4 4] split [of 8 8] split [of 16 4] split [of 20 4] split [of 24 4]
  show ?thesis by simp
qed

lemma wire_header_enc_dec:
  assumes "length bs = 32"
  shows "wire_header_bytes (read_wire_header bs) = bs"
proof -
  have 4: "enc_u32 (dec_u32 (drop k bs)) = take 4 (drop k bs)" if "k + 4 \<le> 32" for k
    using u32_layout.enc_dec [of "take 4 (drop k bs)"] assms that by (simp add: dec_u32_def)
  have 8: "enc_u64 (dec_u64 (drop 8 bs)) = take 8 (drop 8 bs)"
    using u64_layout.enc_dec [of "take 8 (drop 8 bs)"] assms by (simp add: dec_u64_def)
  show ?thesis
    using wire_header_fields [OF assms] 8 4 [of 0] 4 [of 4] 4 [of 16] 4 [of 20] 4 [of 24] 4 [of 28]
    by (simp add: wire_header_bytes_def read_wire_header_def)
qed

interpretation wire_header_layout: wire_layout wire_header_bytes read_wire_header 32
  by unfold_locales
    (simp_all add: wire_header_enc_dec, simp_all add: wire_header_bytes_def read_wire_header_def)

lemmas [simp] = wire_header_layout.enc_length wire_header_layout.dec_prefix

text \<open>
  The receiver of a serialised message gets back the message as it was handed to
  \<open>serialize\<close>, apart from the message type that the C++ type fixes. In particular the size
  field on the wire is the one the message had before the call: the size computed by
  \<open>serialize\<close> reaches the caller's object only.
\<close>

lemma serialize_roundtrip:
  assumes "\<And>m. deser (ser m) = Some m" and "serialize message_type ser msg = (data, msg')"
  shows "\<exists>m. deserialize deser data = Some m \<and> wm_payload m = wm_payload msg \<and>
    wm_header m = (case message_type of None \<Rightarrow> wm_header msg
      | Some t \<Rightarrow> (wm_header msg)\<lparr>wh_msg_type := t\<rparr>) \<and>
    wh_msg_size (wm_header msg') = of_nat (length data)"
  using assms by (auto simp: serialize_def deserialize_def Let_def split: option.splits)

text \<open>A payload of four bytes, laid out by copying header and payload.\<close>

definition ex_ser :: "u32 wire_message \<Rightarrow> bytes" where
  "ex_ser m = wire_header_bytes (wm_header m) @ enc_u32 (wm_payload m)"

definition ex_deser :: "bytes \<Rightarrow> u32 wire_message option" where
  "ex_deser bs = (if length bs = 36
     then Some \<lparr>wm_header = read_wire_header bs, wm_payload = dec_u32 (drop 32 bs)\<rparr> else None)"

lemma ex_deser_ser: "ex_deser (ex_ser m) = Some m"
  by (simp add: ex_deser_def ex_ser_def)

definition ex_header :: wire_header where
  "ex_header = \<lparr>wh_msg_type = 7, wh_msg_size = 0, wh_timestamp = 5, wh_seq_number = 1, wh_dest = 2,
     wh_src = 3, wh_flags = 0\<rparr>"

end
