(* ===== verification/Evl_Router.thy ===== *)
theory Evl_Router
  imports Tcp_Router_Props Wire_Message
begin

text \<open>
  The EVL router daemon, \<open>src/router/evl_router.cpp\<close>: the TCP router with a third kind of mailbox,
  an EVL cross buffer on the same host. Its connections, peers, upstream and system links are
  the same code as in the TCP router, and are that model here (\<open>er_core\<close>, whose own registry stays
  empty); registry, cross buffers, frame handler and readers are modelled below. Cross buffers are
  numbered in the order they are opened. The kernel's answer to opening a device is an argument.
\<close>

section \<open>MailboxRegistry\<close>

datatype mailbox_entry = Tcp con | Xbuf nat | Peer con

type_synonym entry_table = "u32 \<rightharpoonup> mailbox_entry"

text \<open>\<open>emplace\<close> keeps an entry that is there.\<close>

definition add_entry :: "entry_table \<Rightarrow> u32 \<Rightarrow> mailbox_entry \<Rightarrow> bool \<times> entry_table" where
  "add_entry table mailbox_id e =
     (case table mailbox_id of None \<Rightarrow> (True, table(mailbox_id \<mapsto> e)) | Some _ \<Rightarrow> (False, table))"

definition add_tcp :: "entry_table \<Rightarrow> u32 \<Rightarrow> con \<Rightarrow> bool \<times> entry_table" where
  "add_tcp table mailbox_id c = add_entry table mailbox_id (Tcp c)"

definition add_xbuf :: "entry_table \<Rightarrow> u32 \<Rightarrow> nat \<Rightarrow> bool \<times> entry_table" where
  "add_xbuf table mailbox_id xe = add_entry table mailbox_id (Xbuf xe)"

definition add_peer :: "entry_table \<Rightarrow> u32 \<Rightarrow> con \<Rightarrow> bool \<times> entry_table" where
  "add_peer table mailbox_id c = add_entry table mailbox_id (Peer c)"

definition remove_entry :: "entry_table \<Rightarrow> u32 \<Rightarrow> entry_table" where
  "remove_entry table mailbox_id = table(mailbox_id := None)"

fun entry_of_con :: "mailbox_entry \<Rightarrow> con \<Rightarrow> bool" where
  "entry_of_con (Tcp c') c \<longleftrightarrow> c' = c"
| "entry_of_con (Peer c') c \<longleftrightarrow> c' = c"
| "entry_of_con (Xbuf _) c \<longleftrightarrow> False"

definition remove_all_for_con :: "entry_table \<Rightarrow> con \<Rightarrow> entry_table" where
  "remove_all_for_con table c = (\<lambda>m. case table m of None \<Rightarrow> None
     | Some e \<Rightarrow> if entry_of_con e c then None else Some e)"

definition find_entry :: "entry_table \<Rightarrow> u32 \<Rightarrow> mailbox_entry option" where
  "find_entry table mailbox_id = table mailbox_id"

interpretation evl_table: mailbox_table add_entry remove_entry remove_all_for_con find_entry entry_of_con
  by unfold_locales (auto simp: add_entry_def remove_entry_def remove_all_for_con_def find_entry_def
      split: option.splits)

section \<open>Cross buffers\<close>

text \<open>\<open>xb_write_k\<close> are the answers of the coming \<open>write(2)\<close> calls, \<open>xb_out\<close> what went to the EVL side.\<close>

record xbuf_entry =
  xb_fd :: int
  xb_mailbox_id :: u32
  xb_out :: bytes
  xb_write_k :: "nat \<Rightarrow> int"
  xb_reading :: bool

definition sys_write :: "xbuf_entry \<Rightarrow> bytes \<Rightarrow> int \<times> xbuf_entry" where
  "sys_write x data =
     (let r = xb_write_k x 0; x' = x\<lparr>xb_write_k := shift (xb_write_k x)\<rparr>
      in if r \<le> 0 then (r, x')
         else let n = min (nat r) (length data)
              in (int n, x'\<lparr>xb_out := xb_out x @ take n data\<rparr>))"

function write_loop :: "xbuf_entry \<Rightarrow> bytes \<Rightarrow> nat \<Rightarrow> bool \<times> xbuf_entry" where
  "write_loop x body written =
     (if written < length body
      then case sys_write x (drop written body) of (n, x') \<Rightarrow>
             if n \<le> 0 then (False, x') else write_loop x' body (written + nat n)
      else (True, x))"
  by pat_completeness auto
termination by (relation "measure (\<lambda>(x, body, written). length body - written)") auto

declare write_loop.simps [simp del]

definition write_body :: "xbuf_entry \<Rightarrow> bytes \<Rightarrow> bool \<times> xbuf_entry" where
  "write_body x body = (if xb_fd x < 0 \<or> length body = 0 then (False, x) else write_loop x body 0)"

definition new_xbuf :: "int \<Rightarrow> (nat \<Rightarrow> int) \<Rightarrow> u32 \<Rightarrow> xbuf_entry" where
  "new_xbuf fd writes mbx_id = \<lparr>xb_fd = fd, xb_mailbox_id = mbx_id, xb_out = [], xb_write_k = writes,
     xb_reading = False\<rparr>"

definition start_reader :: "xbuf_entry \<Rightarrow> xbuf_entry" where
  "start_reader x = x\<lparr>xb_reading := True\<rparr>"

text \<open>The destructor: the descriptor is closed and the reader thread stopped and joined.\<close>

definition destroy_xbuf :: "xbuf_entry \<Rightarrow> xbuf_entry" where
  "destroy_xbuf x = x\<lparr>xb_fd := if xb_fd x \<ge> 0 then -1 else xb_fd x, xb_reading := False\<rparr>"

section \<open>State\<close>

record evl_router =
  er_core :: router
  er_table :: entry_table
  er_xbufs :: "xbuf_entry list"

definition new_evl_router :: "nat \<Rightarrow> evl_router" where
  "new_evl_router max_msg_size = \<lparr>er_core = new_router max_msg_size, er_table = Map.empty, er_xbufs = []\<rparr>"

definition on_core :: "(router \<Rightarrow> router) \<Rightarrow> evl_router \<Rightarrow> evl_router" where
  "on_core f r = r\<lparr>er_core := f (er_core r)\<rparr>"

abbreviation er_is_peer :: "evl_router \<Rightarrow> con \<Rightarrow> bool" where
  "er_is_peer r c \<equiv> is_peer (er_core r) c"

abbreviation er_socket :: "evl_router \<Rightarrow> con \<Rightarrow> tcp_socket" where
  "er_socket r c \<equiv> socket_of (er_core r) c"

definition set_xbuf :: "evl_router \<Rightarrow> nat \<Rightarrow> xbuf_entry \<Rightarrow> evl_router" where
  "set_xbuf r i x = r\<lparr>er_xbufs := (er_xbufs r)[i := x]\<rparr>"

section \<open>Operations shared with the TCP router\<close>

definition er_send :: "evl_router \<Rightarrow> con \<Rightarrow> bytes \<Rightarrow> evl_router" where
  "er_send r c bs = on_core (\<lambda>t. con_send t c bs) r"

definition er_forward :: "evl_router \<Rightarrow> con \<Rightarrow> frame_header \<Rightarrow> bytes \<Rightarrow> bool \<times> evl_router" where
  "er_forward r c hdr body = (case forward (er_core r) c hdr body of (ok, t) \<Rightarrow> (ok, r\<lparr>er_core := t\<rparr>))"

definition er_send_peer_register :: "u32 \<Rightarrow> evl_router \<Rightarrow> con \<Rightarrow> evl_router" where
  "er_send_peer_register mbx_id r c = on_core (\<lambda>t. send_peer_register mbx_id t c) r"

definition er_send_peer_delete :: "u32 \<Rightarrow> evl_router \<Rightarrow> con \<Rightarrow> evl_router" where
  "er_send_peer_delete mbx_id r c = on_core (\<lambda>t. send_peer_delete mbx_id t c) r"

definition er_broadcast_to_peers :: "(evl_router \<Rightarrow> con \<Rightarrow> evl_router) \<Rightarrow> evl_router \<Rightarrow> evl_router" where
  "er_broadcast_to_peers fn r = foldl fn r (peers_of (er_core r))"

definition er_on_local_registered :: "evl_router \<Rightarrow> u32 \<Rightarrow> evl_router" where
  "er_on_local_registered r mbx_id = er_broadcast_to_peers (er_send_peer_register mbx_id)
     (on_core (\<lambda>t. t\<lparr>rt_local := List.insert mbx_id (rt_local t)\<rparr>) r)"

definition er_on_local_deleted :: "evl_router \<Rightarrow> u32 \<Rightarrow> evl_router" where
  "er_on_local_deleted r mbx_id = er_broadcast_to_peers (er_send_peer_delete mbx_id)
     (on_core (\<lambda>t. t\<lparr>rt_local := removeAll mbx_id (rt_local t)\<rparr>) r)"

definition er_forward_to_upstream :: "evl_router \<Rightarrow> frame_header \<Rightarrow> bytes \<Rightarrow> bool \<times> evl_router" where
  "er_forward_to_upstream r hdr body =
     (case forward_to_upstream (er_core r) hdr body of (ok, t) \<Rightarrow> (ok, r\<lparr>er_core := t\<rparr>))"

definition er_advertise_as_peer :: "evl_router \<Rightarrow> con \<Rightarrow> evl_router" where
  "er_advertise_as_peer r c = on_core (\<lambda>t. advertise_as_peer t c) r"

section \<open>The frame handler\<close>

text \<open>
  Erasing a table entry drops the last reference to its cross buffer, if it has one; the
  registration below makes the table's the only lasting reference.
\<close>

definition er_remove :: "evl_router \<Rightarrow> u32 \<Rightarrow> evl_router" where
  "er_remove r mbx_id =
     (let r1 = (case find_entry (er_table r) mbx_id of
           Some (Xbuf i) \<Rightarrow> set_xbuf r i (destroy_xbuf (er_xbufs r ! i)) | _ \<Rightarrow> r)
      in r1\<lparr>er_table := remove_entry (er_table r1) mbx_id\<rparr>)"

definition xbuf_path :: "u32 \<Rightarrow> string" where
  "xbuf_path mbx_id = ''/dev/evl/xbuf/corerat-xbuf-'' @ decimal mbx_id"

text \<open>
  Registration: a cross buffer if the device can be opened, else this connection. The result
  says whether the table took the entry. A cross buffer whose id is taken is closed again.
\<close>

definition register_mailbox :: "(string \<Rightarrow> int \<times> (nat \<Rightarrow> int)) \<Rightarrow> evl_router \<Rightarrow> con \<Rightarrow> u32 \<Rightarrow> bool \<times> evl_router" where
  "register_mailbox xopen r c mbx_id =
     (case xopen (xbuf_path mbx_id) of (xfd, writes) \<Rightarrow>
        if xfd \<ge> 0
        then case add_xbuf (er_table r) mbx_id (length (er_xbufs r)) of (ok, table) \<Rightarrow>
          if ok then (True, er_on_local_registered (r\<lparr>er_table := table,
              er_xbufs := er_xbufs r @ [start_reader (new_xbuf xfd writes mbx_id)]\<rparr>) mbx_id)
          else (False, r)
        else case add_tcp (er_table r) mbx_id c of (ok, table) \<Rightarrow>
          if ok then (True, er_on_local_registered (r\<lparr>er_table := table\<rparr>) mbx_id) else (False, r))"

definition error_frame :: "frame_header \<Rightarrow> bytes" where
  "error_frame frame = frame_bytes (make_frame MSG_ERROR (fh_src frame) 0 0 (fh_seq_nr frame) 0)"

definition er_route_data :: "evl_router \<Rightarrow> con \<Rightarrow> frame_header \<Rightarrow> bytes \<Rightarrow> evl_router" where
  "er_route_data r c frame body =
     (case find_entry (er_table r) (fh_dest frame) of
        None \<Rightarrow>
          if er_is_peer r c then r
          else (case er_forward_to_upstream r frame body of (ok, r') \<Rightarrow>
            if ok then r' else er_send r' c (error_frame frame))
      | Some (Tcp d) \<Rightarrow> snd (er_forward r d frame body)
      | Some (Peer d) \<Rightarrow> snd (er_forward r d frame body)
      | Some (Xbuf i) \<Rightarrow>
          (case write_body (er_xbufs r ! i) body of (ok, x) \<Rightarrow>
            if ok then set_xbuf r i x else er_send (set_xbuf r i x) c (error_frame frame)))"

definition er_dispatch_frame :: "(string \<Rightarrow> int \<times> (nat \<Rightarrow> int)) \<Rightarrow> evl_router \<Rightarrow> con \<Rightarrow> frame_header \<Rightarrow> bytes
    \<Rightarrow> evl_router" where
  "er_dispatch_frame xopen r c frame body =
     (if fh_type frame = MSG_ROUTER_PEER_HELLO then
        (if \<not> er_is_peer r c then er_advertise_as_peer (on_core (\<lambda>t. set_peer t c) r) c else r)
      else if fh_type frame = MSG_ROUTER_PEER_REGISTER then
        (if \<not> er_is_peer r c \<or> length body < sizeof_mbx_init then r
         else r\<lparr>er_table := snd (add_peer (er_table r) (mip_mbx (read_mbx_init body)) c)\<rparr>)
      else if fh_type frame = MSG_ROUTER_PEER_DELETE then
        (if \<not> er_is_peer r c \<or> length body < sizeof_mbx_init then r
         else er_remove r (mip_mbx (read_mbx_init body)))
      else if fh_type frame = MSG_ROUTER_DISABLE_WATCHDOG then r
      else if fh_type frame = MSG_ROUTER_MBX_INIT_WITH_REPLY then
        (if length body < sizeof_mbx_init then r
         else case register_mailbox xopen r c (mip_mbx (read_mbx_init body)) of (ok, r1) \<Rightarrow>
           er_send r1 c (frame_bytes (make_frame (if ok then MSG_OK else MSG_ERROR) (fh_src frame) 0 0
             (fh_seq_nr frame) 0)))
      else if fh_type frame = MSG_ROUTER_MBX_DELETE then
        (if length body < sizeof_mbx_init then r
         else er_on_local_deleted (er_remove r (mip_mbx (read_mbx_init body))) (mip_mbx (read_mbx_init body)))
      else er_route_data r c frame body)"

definition er_handle_frame :: "(string \<Rightarrow> int \<times> (nat \<Rightarrow> int)) \<Rightarrow> evl_router \<Rightarrow> con \<Rightarrow> frame_header \<Rightarrow> evl_router" where
  "er_handle_frame xopen r c frame =
     (let body_len = frame_body_len frame
      in if unat body_len > rt_max_msg_size (er_core r)
         then on_core (\<lambda>t. set_socket t c (close (socket_of t c))) r
         else if body_len = 0 then er_dispatch_frame xopen r c frame []
         else case recv_all (er_socket r c) (unat body_len) of (ok, body, s) \<Rightarrow>
           let r' = on_core (\<lambda>t. set_socket t c s) r
           in if ok then er_dispatch_frame xopen r' c frame body else r')"

section \<open>Threads\<close>

definition er_connection_start :: "evl_router \<Rightarrow> con \<Rightarrow> evl_router" where
  "er_connection_start r c =
     (let r' = (if er_is_peer r c then er_advertise_as_peer r c else r)
      in on_core (\<lambda>t. set_phase t c Running) r')"

definition er_connection_exit :: "evl_router \<Rightarrow> con \<Rightarrow> evl_router" where
  "er_connection_exit r c = on_core (\<lambda>t. set_phase t c Exited)
     (r\<lparr>er_table := remove_all_for_con (er_table r) c\<rparr>)"

definition er_connection_destroy :: "evl_router \<Rightarrow> con \<Rightarrow> evl_router" where
  "er_connection_destroy r c = r\<lparr>er_table := remove_all_for_con (er_table r) c\<rparr>"

lemma er_connection_destroy_idle: "er_connection_destroy (er_connection_exit r c) c = er_connection_exit r c"
  by (simp add: er_connection_destroy_def er_connection_exit_def on_core_def remove_all_for_con_def fun_eq_iff
      split: option.splits)

definition er_connection_iter :: "(string \<Rightarrow> int \<times> (nat \<Rightarrow> int)) \<Rightarrow> evl_router \<Rightarrow> con \<Rightarrow> evl_router" where
  "er_connection_iter xopen r c =
     (case poll_in (er_socket r c) 200 of (p, s) \<Rightarrow>
        if p \<le> 0 then on_core (\<lambda>t. set_socket t c s) r
        else case recv_all s sizeof_frame of (ok, hdr, s') \<Rightarrow>
          let r' = on_core (\<lambda>t. set_socket t c s') r
          in if ok then er_handle_frame xopen r' c (read_frame hdr) else er_connection_exit r' c)"

text \<open>One round of a cross buffer's reader; \<open>p\<close> is the answer of \<open>poll\<close>, \<open>got\<close> what is there to read.\<close>

definition xbuf_reader_iter :: "evl_router \<Rightarrow> int \<Rightarrow> bytes \<Rightarrow> evl_router" where
  "xbuf_reader_iter r p got =
     (let buf = take (rt_max_msg_size (er_core r)) got; wh = read_wire_header buf
      in if p \<le> 0 \<or> length buf < sizeof_wire_header then r
         else let frame = make_frame 0 (wh_dest wh) (wh_src wh) 0 0 (of_nat (length buf))
              in case find_entry (er_table r) (wh_dest wh) of
                   Some (Tcp d) \<Rightarrow> snd (er_forward r d frame buf)
                 | Some (Peer d) \<Rightarrow> snd (er_forward r d frame buf)
                 | _ \<Rightarrow> r)"

text \<open>One round of \<open>run_connection_reader\<close> on an upstream or system-route socket.\<close>

definition er_reader_iter :: "evl_router \<Rightarrow> tcp_socket \<Rightarrow> bool \<times> tcp_socket \<times> evl_router" where
  "er_reader_iter r sock =
     (case poll_in sock 200 of (p, s) \<Rightarrow>
        if p \<le> 0 then (True, s, r)
        else case recv_all s sizeof_frame of (ok, hdr, s1) \<Rightarrow>
          if \<not> ok then (False, close s1, r)
          else let frame = read_frame hdr; body_len = frame_body_len frame
               in if unat body_len > rt_max_msg_size (er_core r) then (False, close s1, r)
                  else case (if body_len = 0 then (True, [], s1) else recv_all s1 (unat body_len))
                    of (ok2, body, s2) \<Rightarrow>
                      if \<not> ok2 then (False, close s2, r)
                      else case find_entry (er_table r) (fh_dest frame) of
                          Some (Tcp d) \<Rightarrow> (True, s2, snd (er_forward r d frame body))
                        | Some (Peer d) \<Rightarrow> (True, s2, snd (er_forward r d frame body))
                        | _ \<Rightarrow> (True, s2, r))"

definition er_upstream_iter :: "evl_router \<Rightarrow> evl_router" where
  "er_upstream_iter r = (case er_reader_iter r (rt_upstream (er_core r)) of (_, s, r') \<Rightarrow>
     on_core (\<lambda>t. t\<lparr>rt_upstream := s\<rparr>) r')"

definition er_system_iter :: "evl_router \<Rightarrow> nat \<Rightarrow> evl_router" where
  "er_system_iter r i = (case er_reader_iter r (sc_socket (rt_systems (er_core r) ! i)) of (_, s, r') \<Rightarrow>
     on_core (\<lambda>t. t\<lparr>rt_systems := (rt_systems t)[i := (rt_systems t ! i)\<lparr>sc_socket := s\<rparr>]\<rparr>) r')"

definition er_accept :: "evl_router \<Rightarrow> tcp_socket \<Rightarrow> evl_router" where
  "er_accept r s = on_core (\<lambda>t. accept_connection t s) r"

definition er_connect_to_peers :: "evl_router \<Rightarrow> (peer_config \<times> connect_answer) list \<Rightarrow> evl_router" where
  "er_connect_to_peers = foldl (\<lambda>r (pc, ans).
     case connect closed_socket ans of (ok, s) \<Rightarrow>
       if ok then on_core (\<lambda>t. add_connection t s True) r else r)"

definition er_connect_to_upstream :: "evl_router \<Rightarrow> (peer_config \<times> connect_answer) option \<Rightarrow> evl_router" where
  "er_connect_to_upstream r cfg =
     (case cfg of None \<Rightarrow> r
      | Some (uc, ans) \<Rightarrow> on_core (\<lambda>t. t\<lparr>rt_upstream := snd (connect (rt_upstream t) ans)\<rparr>) r)"

definition er_connect_to_system_routes ::
  "evl_router \<Rightarrow> (system_route_config \<times> connect_answer) list \<Rightarrow> evl_router" where
  "er_connect_to_system_routes = foldl (\<lambda>r (rc, ans).
     case connect closed_socket ans of (ok, s) \<Rightarrow>
       if ok then on_core (\<lambda>t. t\<lparr>rt_systems := rt_systems t @
         [\<lparr>sc_system_id = src_system_id rc, sc_socket = s\<rparr>]\<rparr>) r
       else r)"

definition er_startup :: "nat \<Rightarrow> (peer_config \<times> connect_answer) list
    \<Rightarrow> (peer_config \<times> connect_answer) option
    \<Rightarrow> (system_route_config \<times> connect_answer) list \<Rightarrow> evl_router" where
  "er_startup max_msg_size peers upstream systems =
     er_connect_to_system_routes (er_connect_to_upstream (er_connect_to_peers
       (new_evl_router max_msg_size) peers) upstream) systems"

text \<open>The EVL router sets up its links exactly as the TCP router does.\<close>

lemma foldl_on_core_hom:
  assumes "\<And>t x. g (on_core (\<lambda>_. t) r) x = on_core (\<lambda>_. f t x) r"
  shows "foldl g (on_core (\<lambda>_. t) r) xs = on_core (\<lambda>_. foldl f t xs) r"
  by (induction xs arbitrary: t) (simp_all add: assms)

lemma er_startup_core:
  "er_startup max_msg_size peers upstream systems =
     on_core (\<lambda>_. startup max_msg_size peers upstream systems) (new_evl_router max_msg_size)"
proof -
  let ?e = "new_evl_router max_msg_size"
  have "er_connect_to_peers (on_core (\<lambda>_. t) ?e) ps = on_core (\<lambda>_. connect_to_peers t ps) ?e" for t ps
    unfolding er_connect_to_peers_def connect_to_peers_def
    by (rule foldl_on_core_hom) (auto simp: on_core_def split: prod.splits)
  moreover have "er_connect_to_upstream (on_core (\<lambda>_. t) ?e) u = on_core (\<lambda>_. connect_to_upstream t u) ?e" for t u
    by (auto simp: er_connect_to_upstream_def connect_to_upstream_def on_core_def split: option.splits)
  moreover have "er_connect_to_system_routes (on_core (\<lambda>_. t) ?e) rs = on_core (\<lambda>_. connect_to_system_routes t rs) ?e" for t rs
    unfolding er_connect_to_system_routes_def connect_to_system_routes_def
    by (rule foldl_on_core_hom) (auto simp: on_core_def split: prod.splits)
  moreover have "?e = on_core (\<lambda>_. new_router max_msg_size) ?e"
    by (simp add: on_core_def new_evl_router_def)
  ultimately show ?thesis unfolding er_startup_def startup_def by metis
qed

inductive er_step :: "evl_router \<Rightarrow> evl_router \<Rightarrow> bool" where
  er_accepted: "er_step r (er_accept r s)"
| er_started: "c < length (rt_connections (er_core r)) \<Longrightarrow> cn_phase (rt_connections (er_core r) ! c) = Created \<Longrightarrow>
    er_step r (er_connection_start r c)"
| er_round: "c < length (rt_connections (er_core r)) \<Longrightarrow> cn_phase (rt_connections (er_core r) ! c) = Running \<Longrightarrow>
    er_step r (er_connection_iter xopen r c)"
| er_stopped: "c < length (rt_connections (er_core r)) \<Longrightarrow> cn_phase (rt_connections (er_core r) ! c) = Running \<Longrightarrow>
    er_step r (er_connection_exit r c)"
| er_upstream: "is_open (rt_upstream (er_core r)) \<Longrightarrow> er_step r (er_upstream_iter r)"
| er_system: "i < length (rt_systems (er_core r)) \<Longrightarrow> er_step r (er_system_iter r i)"
| er_xbuf: "i < length (er_xbufs r) \<Longrightarrow> xb_reading (er_xbufs r ! i) \<Longrightarrow> er_step r (xbuf_reader_iter r p got)"
| er_arrive: "er_step r (on_core (\<lambda>t. set_socket t c ((socket_of t c)\<lparr>sk_rx := sk_rx (socket_of t c) @ bs\<rparr>)) r)"

inductive er_reachable :: "evl_router \<Rightarrow> bool" where
  er_init: "er_reachable (er_startup n peers upstream systems)"
| er_more: "er_reachable r \<Longrightarrow> er_step r r' \<Longrightarrow> er_reachable r'"

end
