(* ===== verification/Evl_Router_Props.thy ===== *)
theory Evl_Router_Props
  imports Evl_Router
begin

text \<open>
  Properties of the EVL router: both directions of the bridge between TCP clients and cross
  buffers, the invariant of the running daemon, and what becomes of cross-buffer mailboxes when
  frames come from upstream and when the registering client disconnects.
\<close>

section \<open>Writing to a cross buffer\<close>

lemma sys_write_cases:
  assumes "sys_write x d = (n, x')"
  obtains (err) "n \<le> 0" "xb_out x' = xb_out x" | (part) "0 < n" "nat n \<le> length d" "xb_out x' = xb_out x @ take (nat n) d"
    | (empty) "d = []" "n \<le> 0" "xb_out x' = xb_out x"
  using assms by (cases "d = []") (auto simp: sys_write_def Let_def min_def split: if_splits)

lemma write_loop_prefix:
  assumes "write_loop x body k = (ok, x')" and "k \<le> length body"
  shows "\<exists>n. k \<le> n \<and> n \<le> length body \<and> xb_out x' = xb_out x @ take (n - k) (drop k body) \<and> (ok \<longleftrightarrow> n = length body)"
  using assms
proof (induction x body k rule: write_loop.induct)
  case (1 x body k)
  show ?case
  proof (cases "k < length body")
    case False
    with 1 show ?thesis by (auto simp: write_loop.simps [of x body k] intro!: exI [of _ k])
  next
    case True
    obtain n x1 where w: "sys_write x (drop k body) = (n, x1)" by fastforce
    show ?thesis
    proof (cases "n \<le> 0")
      case err: True
      with w have "xb_out x1 = xb_out x" by (auto elim: sys_write_cases)
      with 1 True w err show ?thesis by (auto simp: write_loop.simps [of x body k] intro!: exI [of _ k])
    next
      case part: False
      with w have p: "nat n \<le> length (drop k body)" "xb_out x1 = xb_out x @ take (nat n) (drop k body)"
        by (auto elim: sys_write_cases)
      from p(1) True have "k + nat n \<le> length body" by simp
      with 1 True w part p obtain m where m: "k + nat n \<le> m" "m \<le> length body"
          "xb_out x' = xb_out x1 @ take (m - (k + nat n)) (drop (k + nat n) body)" "ok \<longleftrightarrow> m = length body"
        by (auto simp: write_loop.simps [of x body k])
      have "take (nat n) (drop k body) @ take (m - (k + nat n)) (drop (k + nat n) body) = take (m - k) (drop k body)"
        using take_add [of "nat n" "m - (k + nat n)" "drop k body"] m(1) by (simp add: add.commute)
      with m p show ?thesis by (intro exI [of _ m]) auto
    qed
  qed
qed

interpretation xbuf_writer: exact_writer write_body xb_out
proof
  fix x d x'
  show "write_body x d = (True, x') \<Longrightarrow> xb_out x' = xb_out x @ d"
    using write_loop_prefix [of x d 0 True x'] by (auto simp: write_body_def split: if_splits)
  show "write_body x d = (False, x') \<Longrightarrow> \<exists>n \<le> length d. xb_out x' = xb_out x @ take n d"
    using write_loop_prefix [of x d 0 False x'] by (auto simp: write_body_def split: if_splits)
qed

lemma write_loop_frame: "write_loop x body k = (ok, x') \<Longrightarrow>
    xb_fd x' = xb_fd x \<and> xb_mailbox_id x' = xb_mailbox_id x \<and> xb_reading x' = xb_reading x"
proof (induction x body k rule: write_loop.induct)
  case (1 x body k)
  then show ?case
    by (auto simp: write_loop.simps [of x body k] sys_write_def Let_def split: prod.splits if_splits)
qed

lemma write_body_frame: "write_body x body = (ok, x') \<Longrightarrow>
    xb_fd x' = xb_fd x \<and> xb_mailbox_id x' = xb_mailbox_id x \<and> xb_reading x' = xb_reading x"
  by (auto simp: write_body_def dest: write_loop_frame split: if_splits)

lemma write_loop_accepts:
  assumes "\<forall>i. 0 < xb_write_k x i" and "k \<le> length body" shows "fst (write_loop x body k)"
  using assms
proof (induction x body k rule: write_loop.induct)
  case (1 x body k)
  show ?case
  proof (cases "k < length body")
    case True
    define n where "n = min (nat (xb_write_k x 0)) (length (drop k body))"
    define x1 where "x1 = x\<lparr>xb_write_k := shift (xb_write_k x), xb_out := xb_out x @ take n (drop k body)\<rparr>"
    have k0: "0 < xb_write_k x 0" using 1(2) by simp
    then have w: "sys_write x (drop k body) = (int n, x1)" "0 < n" "n \<le> length (drop k body)"
      using True by (auto simp: sys_write_def Let_def n_def x1_def)
    have "\<forall>i. 0 < xb_write_k x1 i" using 1(2) by (simp add: x1_def shift_def)
    with 1(1) [OF True w(1) [symmetric]] w True show ?thesis by (simp add: write_loop.simps [of x body k])
  qed (simp add: write_loop.simps)
qed

text \<open>A cross buffer that is open and never refuses a write takes every body that is not empty.\<close>

lemma write_body_accepts:
  assumes "0 \<le> xb_fd x" and "\<forall>i. 0 < xb_write_k x i" and "body \<noteq> []"
  obtains x' where "write_body x body = (True, x')" and "xb_out x' = xb_out x @ body"
proof -
  from assms have "fst (write_body x body)" by (simp add: write_body_def write_loop_accepts)
  then obtain x' where "write_body x body = (True, x')" by (cases "write_body x body") simp
  with that xbuf_writer.all_written show thesis by blast
qed

section \<open>What the shared operations leave alone\<close>

lemma on_core_simps [simp]:
  "er_core (on_core f r) = f (er_core r)" "er_table (on_core f r) = er_table r" "er_xbufs (on_core f r) = er_xbufs r"
  by (simp_all add: on_core_def)

lemma foldl_on_core: "foldl (\<lambda>r c. on_core (\<lambda>t. f t c) r) r cs = on_core (\<lambda>t. foldl f t cs) r"
  by (induction cs arbitrary: r) (simp_all add: on_core_def)

lemma er_peer_frames:
  "er_send_peer_register m = (\<lambda>r c. on_core (\<lambda>t. send_peer_register m t c) r)"
  "er_send_peer_delete m = (\<lambda>r c. on_core (\<lambda>t. send_peer_delete m t c) r)"
  by (intro ext; simp add: er_send_peer_register_def er_send_peer_delete_def)+

lemma er_on_local_registered_core: "er_on_local_registered r m = on_core (\<lambda>t. on_local_registered t m) r"
  by (simp add: er_on_local_registered_def er_broadcast_to_peers_def er_peer_frames foldl_on_core
      on_local_registered_def broadcast_to_peers_def)

lemma er_on_local_deleted_core: "er_on_local_deleted r m = on_core (\<lambda>t. on_local_deleted t m) r"
  by (simp add: er_on_local_deleted_def er_broadcast_to_peers_def er_peer_frames foldl_on_core
      on_local_deleted_def broadcast_to_peers_def)

lemma er_forward_core: "snd (er_forward r d f b) = on_core (\<lambda>t. snd (forward t d f b)) r"
  by (simp add: er_forward_def on_core_def split: prod.splits)

lemma er_forward_to_upstream_core:
  "er_forward_to_upstream r f b = (fst (forward_to_upstream (er_core r) f b), on_core (\<lambda>t. snd (forward_to_upstream t f b)) r)"
  by (simp add: er_forward_to_upstream_def on_core_def split: prod.splits)

lemmas er_cores = er_on_local_registered_core er_on_local_deleted_core er_forward_core
  er_forward_to_upstream_core er_send_def er_advertise_as_peer_def

lemma set_xbuf_simps [simp]:
  "er_core (set_xbuf r i x) = er_core r" "er_table (set_xbuf r i x) = er_table r"
  "er_xbufs (set_xbuf r i x) = (er_xbufs r)[i := x]"
  by (simp_all add: set_xbuf_def)

section \<open>From TCP to the cross buffer\<close>

lemma er_dispatch_data:
  "fh_type f \<notin> set router_types \<Longrightarrow> er_dispatch_frame xopen r c f body = er_route_data r c f body"
  by (simp add: router_types_def er_dispatch_frame_def)

lemma forward_healthy:
  assumes "can_send (socket_of t d)" and "d < length (rt_connections t)"
  shows "tx (snd (forward t d f b)) e = tx t e @ (if e = d then frame_bytes f @ b else [])"
proof -
  obtain s where s: "both_written send_all (socket_of t d) (frame_bytes f) b = (True, s)"
    using assms(1) by (rule both_send_can_send)
  with tcp_writer.both_all_written [OF s] assms(2) show ?thesis
    by (auto simp: forward_def socket_of_set_socket)
qed


definition ex_xbuf :: xbuf_entry where
  "ex_xbuf = start_reader (new_xbuf 9 (\<lambda>_. 3) 0x0404)"

definition ex_evl_router :: evl_router where
  "ex_evl_router = \<lparr>er_core = ex_router\<lparr>rt_registry := Map.empty, rt_local := [0x0404]\<rparr>,
     er_table = [0x0404 \<mapsto> Xbuf 0, 0x0101 \<mapsto> Tcp 1], er_xbufs = [ex_xbuf]\<rparr>"

lemma ex_evl_facts:
  "er_table ex_evl_router 0x0404 = Some (Xbuf 0)" "er_table ex_evl_router 0x0101 = Some (Tcp 1)"
  "er_xbufs ex_evl_router = [ex_xbuf]" "length (rt_connections (er_core ex_evl_router)) = 3"
  "all_can_send (er_core ex_evl_router)" "rt_max_msg_size (er_core ex_evl_router) = 4096"
  using ex_router_healthy by (simp_all add: ex_evl_router_def all_can_send_def) (simp_all add: ex_router_def new_router_def)


section \<open>From the cross buffer to TCP\<close>

fun tcp_route :: "mailbox_entry option \<Rightarrow> con option" where
  "tcp_route (Some (Tcp d)) = Some d"
| "tcp_route (Some (Peer d)) = Some d"
| "tcp_route _ = None"

lemma xbuf_reader_route:
  assumes "0 < p" and "32 \<le> length got" and "length got \<le> rt_max_msg_size (er_core r)"
  shows "xbuf_reader_iter r p got = (case tcp_route (er_table r (wh_dest (read_wire_header got))) of None \<Rightarrow> r
    | Some d \<Rightarrow> on_core (\<lambda>t. snd (forward t d (make_frame 0 (wh_dest (read_wire_header got))
        (wh_src (read_wire_header got)) 0 0 (of_nat (length got))) got)) r)"
  using assms by (cases "er_table r (wh_dest (read_wire_header got))" rule: tcp_route.cases)
    (auto simp: xbuf_reader_iter_def Let_def find_entry_def er_forward_core)


definition ex_xmsg :: bytes where
  "ex_xmsg = wire_header_bytes \<lparr>wh_msg_type = 7, wh_msg_size = 33, wh_timestamp = 5, wh_seq_number = 1,
     wh_dest = 0x0101, wh_src = 0x0404, wh_flags = 0\<rparr> @ [42]"


section \<open>Where cross-buffer mailboxes are left out\<close>

text \<open>
  A frame that arrives from upstream, or from a system route, for a cross-buffer mailbox is
  read and thrown away: no connection, no cross buffer and no table entry changes, and nobody is
  told.
\<close>

lemma upstream_loses_xbuf_frames:
  assumes "poll_in sock 200 = (p, s0)" and "0 < p" and "recv_all s0 16 = (True, frame_bytes f, s1)"
    and "frame_body_len f \<noteq> 0" and "unat (frame_body_len f) \<le> rt_max_msg_size (er_core r)"
    and "recv_all s1 (unat (frame_body_len f)) = (True, body, s2)"
    and "er_table r (fh_dest f) = Some (Xbuf i)"
  shows "er_reader_iter r sock = (True, s2, r)"
  using assms by (simp add: er_reader_iter_def frame_layout.dec_enc Let_def find_entry_def)

text \<open>Registration of an id that is taken: refused, whatever the device says.\<close>

lemma register_taken: "er_table r m = Some e \<Longrightarrow> register_mailbox xopen r c m = (False, r)"
  by (auto simp: register_mailbox_def add_xbuf_def add_tcp_def add_entry_def split: prod.splits)

lemma exit_keeps_xbuf:
  "er_table r m = Some (Xbuf i) \<Longrightarrow> er_table (er_connection_exit r c) m = Some (Xbuf i)"
  using evl_table.remove_all_keeps_others [of "er_table r" m "Xbuf i" c]
  by (simp add: er_connection_exit_def find_entry_def)

text \<open>
  A cross-buffer mailbox outlives the client that registered it: when that connection ends
  the entry stays, and every later registration of the same id is answered with an error frame
  and changes nothing else, although the mailbox may have been created anew.
\<close>

lemma xbuf_outlives_client:
  assumes "er_table r m = Some (Xbuf i)" and "fh_type f = MSG_ROUTER_MBX_INIT_WITH_REPLY"
    and "4 \<le> length body" and "mip_mbx (read_mbx_init body) = m"
  shows "er_table (er_connection_exit r c) m = Some (Xbuf i) \<and>
    er_dispatch_frame xopen (er_connection_exit r c) d f body = er_send (er_connection_exit r c) d (error_frame f)"
  using exit_keeps_xbuf [OF assms(1), of c] register_taken [of "er_connection_exit r c" m "Xbuf i" xopen d] assms(2-4)
  by (simp add: er_dispatch_frame_def msg_type_defs error_frame_def)

section \<open>Invariant of the running daemon\<close>

definition xbuf_live :: "xbuf_entry list \<Rightarrow> nat \<Rightarrow> u32 \<Rightarrow> bool" where
  "xbuf_live xs i m \<longleftrightarrow> i < length xs \<and> 0 \<le> xb_fd (xs ! i) \<and> xb_reading (xs ! i) \<and> xb_mailbox_id (xs ! i) = m"

definition con_live :: "control \<Rightarrow> con \<Rightarrow> bool" where
  "con_live k c \<longleftrightarrow> c < length (ct_phase k) \<and> c < length (ct_peer k) \<and> ct_phase k ! c = Running"

fun entry_ok :: "control \<Rightarrow> xbuf_entry list \<Rightarrow> u32 \<Rightarrow> mailbox_entry \<Rightarrow> bool" where
  "entry_ok k xs m (Tcp c) \<longleftrightarrow> con_live k c \<and> m \<in> set (ct_local k)"
| "entry_ok k xs m (Peer c) \<longleftrightarrow> con_live k c \<and> ct_peer k ! c"
| "entry_ok k xs m (Xbuf i) \<longleftrightarrow> xbuf_live xs i m \<and> m \<in> set (ct_local k)"

definition table_routes_ok :: "control \<Rightarrow> xbuf_entry list \<Rightarrow> entry_table \<Rightarrow> bool" where
  "table_routes_ok k xs t \<longleftrightarrow> (\<forall>m e. t m = Some e \<longrightarrow> entry_ok k xs m e)"

abbreviation er_ok :: "evl_router \<Rightarrow> bool" where
  "er_ok r \<equiv> table_routes_ok (ctrl (er_core r)) (er_xbufs r) (er_table r)"

lemma table_ok_core: "er_ok r \<Longrightarrow> ctrl (f (er_core r)) = ctrl (er_core r) \<Longrightarrow> er_ok (on_core f r)"
  by simp

lemma table_ok_add:
  assumes "table_routes_ok k xs t" and "entry_ok k xs m e"
  shows "table_routes_ok k xs (snd (add_entry t m e))"
  using assms by (auto simp: table_routes_ok_def add_entry_def split: option.splits)

lemma table_ok_mono:
  assumes "table_routes_ok k xs t" and "\<And>m e. t' m = Some e \<Longrightarrow> t m = Some e"
    and "\<And>m e. t' m = Some e \<Longrightarrow> entry_ok k xs m e \<Longrightarrow> entry_ok k' xs' m e"
  shows "table_routes_ok k' xs' t'"
  using assms unfolding table_routes_ok_def by blast

lemma entry_ok_local: "entry_ok k xs m e \<Longrightarrow> entry_ok (k\<lparr>ct_local := List.insert n (ct_local k)\<rparr>) xs m e"
  by (cases e) (auto simp: con_live_def)

lemma entry_ok_xbuf_same:
  assumes "xb_fd x = xb_fd (xs ! i)" and "xb_mailbox_id x = xb_mailbox_id (xs ! i)" and "xb_reading x = xb_reading (xs ! i)"
  shows "entry_ok k xs m e \<Longrightarrow> entry_ok k (xs[i := x]) m e"
proof -
  have "xbuf_live (xs[i := x]) j m = xbuf_live xs j m" for j
    using assms by (cases "i = j"; cases "i < length xs") (auto simp: xbuf_live_def list_update_beyond)
  then show "entry_ok k xs m e \<Longrightarrow> entry_ok k (xs[i := x]) m e" by (cases e) simp_all
qed

lemma entry_ok_xbuf_append: "entry_ok k xs m e \<Longrightarrow> entry_ok k (xs @ ys) m e"
  by (cases e) (auto simp: xbuf_live_def nth_append)

lemma er_ok_remove:
  assumes "er_ok r" shows "er_ok (er_remove r m)"
proof (rule table_ok_mono [OF assms])
  fix n e assume n: "er_table (er_remove r m) n = Some e"
  then have ne: "n \<noteq> m" "er_table r n = Some e"
    by (auto simp: er_remove_def Let_def remove_entry_def find_entry_def split: if_splits option.splits mailbox_entry.splits)
  then show "er_table r n = Some e" by simp
  have core: "er_core (er_remove r m) = er_core r"
    by (simp add: er_remove_def Let_def split: option.splits mailbox_entry.splits)
  assume ok: "entry_ok (ctrl (er_core r)) (er_xbufs r) n e"
  show "entry_ok (ctrl (er_core (er_remove r m))) (er_xbufs (er_remove r m)) n e"
  proof (cases "\<exists>i. er_table r m = Some (Xbuf i)")
    case True
    then obtain i where i: "er_table r m = Some (Xbuf i)" by blast
    with assms have "entry_ok (ctrl (er_core r)) (er_xbufs r) m (Xbuf i)" unfolding table_routes_ok_def by blast
    then have "xb_mailbox_id (er_xbufs r ! i) = m" by (simp add: xbuf_live_def)
    with ok ne(1) have "xbuf_live ((er_xbufs r)[i := x]) j n" if "e = Xbuf j" for j x
      using that by (cases "i = j") (auto simp: xbuf_live_def)
    with ok i core show ?thesis by (cases e) (auto simp: er_remove_def find_entry_def)
  next
    case False
    then have "er_xbufs (er_remove r m) = er_xbufs r"
      by (auto simp: er_remove_def find_entry_def split: option.splits mailbox_entry.splits)
    with ok core show ?thesis by simp
  qed
qed

lemma er_remove_simps [simp]: "er_core (er_remove r m) = er_core r" "er_table (er_remove r m) m = None"
  by (simp_all add: er_remove_def Let_def remove_entry_def split: option.splits mailbox_entry.splits)

lemma er_ok_deleted:
  assumes "er_ok r" and "er_table r m = None" shows "er_ok (er_on_local_deleted r m)"
  using assms(1)
proof (rule table_ok_mono)
  fix n e assume "er_table (er_on_local_deleted r m) n = Some e" "entry_ok (ctrl (er_core r)) (er_xbufs r) n e"
  with assms(2) show "entry_ok (ctrl (er_core (er_on_local_deleted r m))) (er_xbufs (er_on_local_deleted r m)) n e"
    by (cases e) (auto simp: er_cores con_live_def)
qed (simp add: er_cores)

lemma er_ok_registered:
  assumes "table_routes_ok (ctrl (er_core r)) (er_xbufs r) t" and "t m = None"
    and "entry_ok ((ctrl (er_core r))\<lparr>ct_local := List.insert m (rt_local (er_core r))\<rparr>) (er_xbufs r @ ys) m e"
  shows "er_ok (er_on_local_registered (r\<lparr>er_table := t(m \<mapsto> e), er_xbufs := er_xbufs r @ ys\<rparr>) m)"
proof -
  have "entry_ok ((ctrl (er_core r))\<lparr>ct_local := List.insert m (rt_local (er_core r))\<rparr>) (er_xbufs r @ ys) n e'"
    if "t n = Some e'" for n e'
    using assms(1) that entry_ok_xbuf_append entry_ok_local [of "ctrl (er_core r)"]
    by (fastforce simp: table_routes_ok_def)
  with assms(3) show ?thesis by (auto simp: er_cores table_routes_ok_def)
qed

lemma er_ok_register:
  assumes "er_ok r" and "con_live (ctrl (er_core r)) c"
  shows "er_ok (snd (register_mailbox xopen r c m))"
proof (cases "er_table r m")
  case None
  obtain xfd writes where x: "xopen (xbuf_path m) = (xfd, writes)" by fastforce
  have "entry_ok ((ctrl (er_core r))\<lparr>ct_local := List.insert m (rt_local (er_core r))\<rparr>) (er_xbufs r @ []) m (Tcp c)"
    using assms(2) by (simp add: con_live_def)
  moreover have "0 \<le> xfd \<Longrightarrow> entry_ok ((ctrl (er_core r))\<lparr>ct_local := List.insert m (rt_local (er_core r))\<rparr>)
      (er_xbufs r @ [start_reader (new_xbuf xfd writes m)]) m (Xbuf (length (er_xbufs r)))"
    by (simp add: xbuf_live_def start_reader_def new_xbuf_def)
  ultimately show ?thesis
    using er_ok_registered [OF assms(1) None, of "[]" "Tcp c"] er_ok_registered [OF assms(1) None] x None
    by (auto simp: register_mailbox_def add_xbuf_def add_tcp_def add_entry_def)
next
  case (Some e)
  with assms(1) show ?thesis by (simp add: register_taken)
qed

lemma er_ok_route:
  assumes "er_ok r" shows "er_ok (er_route_data r c f body)"
proof (cases "find_entry (er_table r) (fh_dest f)")
  case None
  with assms show ?thesis by (simp add: er_route_data_def er_cores)
next
  case (Some e)
  show ?thesis
  proof (cases e)
    case (Xbuf i)
    obtain ok x where w: "write_body (er_xbufs r ! i) body = (ok, x)" by fastforce
    have "er_ok (set_xbuf r i x)"
      using write_body_frame [OF w] entry_ok_xbuf_same [of x "er_xbufs r" i]
      by (auto intro!: table_ok_mono [OF assms])
    with Some Xbuf w show ?thesis by (simp add: er_route_data_def er_cores)
  qed (use assms Some in \<open>simp_all add: er_route_data_def er_cores\<close>)
qed

lemma er_ok_dispatch:
  assumes "er_ok r" and "con_live (ctrl (er_core r)) c"
  shows "er_ok (er_dispatch_frame xopen r c f body)"
proof -
  let ?m = "mip_mbx (read_mbx_init body)"
  have peer: "ct_peer (ctrl (er_core r)) ! c = er_is_peer r c"
    using assms(2) by (simp add: con_live_def)
  have upd: "d < length xs \<Longrightarrow> xs ! d \<Longrightarrow> xs[c := True] ! d" for d xs by (cases "c = d") simp_all
  have hello: "er_ok (on_core (\<lambda>t. set_peer t c) r)"
  proof (rule table_ok_mono [OF assms(1)])
    fix m e assume "entry_ok (ctrl (er_core r)) (er_xbufs r) m e"
    then show "entry_ok (ctrl (er_core (on_core (\<lambda>t. set_peer t c) r))) (er_xbufs (on_core (\<lambda>t. set_peer t c) r)) m e"
      by (cases e) (auto simp: con_live_def upd)
  qed simp
  have reg: "er_ok (r\<lparr>er_table := snd (add_peer (er_table r) ?m c)\<rparr>)" if "er_is_peer r c"
    using table_ok_add [OF assms(1), of ?m "Peer c"] assms(2) that peer by (simp add: add_peer_def)
  obtain ok r1 where r1: "register_mailbox xopen r c ?m = (ok, r1)" by fastforce
  with er_ok_register [OF assms, of xopen ?m] have init: "er_ok r1" by simp
  note del = er_ok_remove [OF assms(1), of ?m]
  show ?thesis
    using assms(1) hello reg init del er_ok_deleted [OF del] er_ok_route [OF assms(1), of c f body] r1
    by (simp add: er_dispatch_frame_def er_cores(5,6))
qed

lemma er_ok_handle:
  assumes "er_ok r" and "con_live (ctrl (er_core r)) c" shows "er_ok (er_handle_frame xopen r c f)"
proof -
  have s: "er_ok (on_core (\<lambda>t. set_socket t c s) r)" "con_live (ctrl (er_core (on_core (\<lambda>t. set_socket t c s) r))) c" for s
    using assms by simp_all
  show ?thesis
    using s er_ok_dispatch [OF s] er_ok_dispatch [OF assms] by (simp add: er_handle_frame_def Let_def split: prod.splits)
qed

lemma er_ok_exit: "er_ok r \<Longrightarrow> er_ok (er_connection_exit r c)"
proof (rule table_ok_mono)
  fix m e assume t: "er_table (er_connection_exit r c) m = Some e" and ok: "entry_ok (ctrl (er_core r)) (er_xbufs r) m e"
  from t have "\<not> entry_of_con e c"
    using evl_table.remove_all_no_owner [of "er_table r" c m e] by (simp add: er_connection_exit_def find_entry_def)
  with ok show "entry_ok (ctrl (er_core (er_connection_exit r c))) (er_xbufs (er_connection_exit r c)) m e"
    by (cases e) (auto simp: er_connection_exit_def con_live_def)
next
  fix m e assume "er_table (er_connection_exit r c) m = Some e"
  then show "er_table r m = Some e"
    using evl_table.remove_all_sub [of "er_table r" c m e] by (simp add: er_connection_exit_def find_entry_def)
qed

lemma er_ok_round:
  assumes "er_ok r" and "con_live (ctrl (er_core r)) c" shows "er_ok (er_connection_iter xopen r c)"
proof -
  have s: "er_ok (on_core (\<lambda>t. set_socket t c s) r)" "con_live (ctrl (er_core (on_core (\<lambda>t. set_socket t c s) r))) c" for s
    using assms by simp_all
  show ?thesis
    using s er_ok_handle [OF s] er_ok_exit [OF s(1)] by (simp add: er_connection_iter_def Let_def split: prod.splits)
qed

lemma er_ok_reader: "er_reader_iter r sock = (go, s, r') \<Longrightarrow> er_ok r \<Longrightarrow> er_ok r'"
  by (auto simp: er_reader_iter_def Let_def er_forward_core split: prod.splits if_splits option.splits mailbox_entry.splits)

lemma er_ok_xbuf_reader: "er_ok r \<Longrightarrow> er_ok (xbuf_reader_iter r p got)"
  by (simp add: xbuf_reader_iter_def Let_def er_forward_core split: option.splits mailbox_entry.splits)

lemma entry_ok_connections:
  "entry_ok k xs m e \<Longrightarrow> entry_ok (k\<lparr>ct_phase := (ct_phase k)[c := Running]\<rparr>) xs m e"
  "entry_ok k xs m e \<Longrightarrow> entry_ok (k\<lparr>ct_peer := ct_peer k @ [b], ct_phase := ct_phase k @ [p]\<rparr>) xs m e"
  by (cases e; auto simp: con_live_def nth_update_same_val nth_append)+

lemma er_ok_step: "er_step r r' \<Longrightarrow> er_ok r \<Longrightarrow> er_ok r'"
proof (induction rule: er_step.induct)
  case (er_accepted r s)
  then show ?case
    using entry_ok_connections(2) by (auto simp: er_accept_def accept_connection_def table_routes_ok_def)
next
  case (er_started c r)
  then show ?case
    using entry_ok_connections(1) by (auto simp: er_connection_start_def Let_def er_cores table_routes_ok_def)
next
  case (er_round c r xopen)
  then show ?case by (intro er_ok_round) (simp_all add: con_live_def)
next
  case (er_stopped c r)
  then show ?case by (intro er_ok_exit)
next
  case (er_upstream r)
  obtain go s r' where i: "er_reader_iter r (rt_upstream (er_core r)) = (go, s, r')" by (rule prod_cases3)
  have "ctrl ((er_core r')\<lparr>rt_upstream := s\<rparr>) = ctrl (er_core r')" by (simp add: ctrl_def)
  with er_ok_reader [OF i] er_upstream i show ?case by (simp add: er_upstream_iter_def)
next
  case (er_system i r)
  obtain go s r' where it: "er_reader_iter r (sc_socket (rt_systems (er_core r) ! i)) = (go, s, r')" by (rule prod_cases3)
  have "ctrl ((er_core r')\<lparr>rt_systems := x\<rparr>) = ctrl (er_core r')" for x by (simp add: ctrl_def)
  with er_ok_reader [OF it] er_system it show ?case by (simp add: er_system_iter_def)
qed (simp_all add: er_ok_xbuf_reader)

lemma er_reachable_ok: "er_reachable r \<Longrightarrow> er_ok r"
proof (induction rule: er_reachable.induct)
  case (er_init n peers upstream systems)
  then show ?case by (simp add: er_startup_core new_evl_router_def table_routes_ok_def)
qed (rule er_ok_step)


text \<open>A client connects and registers a mailbox whose cross buffer exists.\<close>

definition ex_evl_start :: evl_router where
  "ex_evl_start = er_connection_start (er_accept (er_startup 4096 [] None []) (ex_socket\<lparr>sk_rx :=
     frame_bytes (make_frame MSG_ROUTER_MBX_INIT_WITH_REPLY 0 0x0404 0 0 4) @ mbx_init_bytes \<lparr>mip_mbx = 0x0404\<rparr>\<rparr>)) 0"

definition ex_evl_served :: evl_router where
  "ex_evl_served = er_connection_iter (\<lambda>_. (9, \<lambda>_. 3)) ex_evl_start 0"

lemma ex_evl_served_reachable: "er_reachable ex_evl_served"
proof -
  have "er_reachable (er_accept (er_startup 4096 [] None []) s)" for s
    by (rule er_more [OF er_init er_accepted])
  then have "er_reachable ex_evl_start"
    unfolding ex_evl_start_def
    by (rule er_more) (rule er_started, simp_all add: er_accept_def accept_connection_def add_connection_def
        er_startup_core startup_def connect_to_peers_def connect_to_upstream_def connect_to_system_routes_def
        new_router_def new_connection_def)
  moreover have "length (rt_connections (er_core ex_evl_start)) = 1" "cn_phase (rt_connections (er_core ex_evl_start) ! 0) = Running"
    by code_simp+
  ultimately show ?thesis
    unfolding ex_evl_served_def by (intro er_more [OF _ er_round]) simp_all
qed


end
