(* ===== verification/Router_Cli.thy ===== *)
theory Router_Cli
  imports Tcp_Router
begin

text \<open>
  The command line of the router daemons: the option loop of \<open>main\<close> in \<open>src/router/tcp_router.cpp\<close>,
  which \<open>src/router/evl_router.cpp\<close> repeats word for word, with the standard library's \<open>stoul\<close>. An
  exception of \<open>stoul\<close> is not caught and ends the program.
\<close>

section \<open>std::stoul\<close>

datatype stoul_error = Invalid_argument | Out_of_range

definition is_space :: "char \<Rightarrow> bool" where
  "is_space c \<longleftrightarrow> of_char c \<in> {9, 10, 11, 12, 13, 32 :: nat}"

definition is_digit :: "char \<Rightarrow> bool" where
  "is_digit c \<longleftrightarrow> 48 \<le> (of_char c :: nat) \<and> (of_char c :: nat) \<le> 57"

definition digits_value :: "string \<Rightarrow> nat" where
  "digits_value ds = foldl (\<lambda>n c. (of_char c - 48) + 10 * n) 0 ds"

definition strip_sign :: "string \<Rightarrow> bool \<times> string" where
  "strip_sign s = (case s of c # cs \<Rightarrow> if c = CHR ''-'' then (True, cs) else if c = CHR ''+'' then (False, cs) else (False, s)
     | [] \<Rightarrow> (False, s))"

definition stoul :: "string \<Rightarrow> stoul_error + u64" where
  "stoul s =
     (case strip_sign (dropWhile is_space s) of (negative, u) \<Rightarrow>
        let ds = takeWhile is_digit u
        in if ds = [] then Inl Invalid_argument
           else if digits_value ds \<ge> 2 ^ 64 then Inl Out_of_range
           else Inr (if negative then - of_nat (digits_value ds) else of_nat (digits_value ds)))"

section \<open>Options\<close>

record cli =
  cli_port :: u16
  cli_max_msg_size :: u64
  cli_peers :: "peer_config list"
  cli_upstream :: "peer_config option"
  cli_system_routes :: "system_route_config list"

definition kDefaultPort :: u16 where "kDefaultPort = 2000"

definition default_cli :: cli where
  "default_cli = \<lparr>cli_port = kDefaultPort, cli_max_msg_size = 256 * 1024, cli_peers = [], cli_upstream = None,
     cli_system_routes = []\<rparr>"

text \<open>\<open>rfind\<close>: the part after the last colon, and the part before it.\<close>

definition after_last_colon :: "string \<Rightarrow> string" where
  "after_last_colon s = rev (takeWhile (\<lambda>c. c \<noteq> CHR '':'') (rev s))"

definition parse_host_port :: "string \<Rightarrow> u16 \<Rightarrow> stoul_error + (string \<times> u16)" where
  "parse_host_port s default_port =
     (if CHR '':'' \<in> set s
      then case stoul (after_last_colon s) of Inl e \<Rightarrow> Inl e
        | Inr v \<Rightarrow> Inr (take (length s - length (after_last_colon s) - 1) s, ucast v)
      else Inr (s, default_port))"

text \<open>\<open>SYSID@HOST[:PORT]\<close>; a value without \<open>@\<close> is reported and ignored.\<close>

definition parse_system_route :: "string \<Rightarrow> stoul_error + system_route_config option" where
  "parse_system_route sr =
     (if CHR ''@'' \<notin> set sr then Inr None
      else case stoul (takeWhile (\<lambda>c. c \<noteq> CHR ''@'') sr) of Inl e \<Rightarrow> Inl e
        | Inr v \<Rightarrow> (case parse_host_port (tl (dropWhile (\<lambda>c. c \<noteq> CHR ''@'') sr)) kDefaultPort of Inl e \<Rightarrow> Inl e
            | Inr (host, port) \<Rightarrow> Inr (Some \<lparr>src_system_id = ucast v, src_host = host, src_port = port\<rparr>)))"

text \<open>How \<open>main\<close> goes on: run the router, print the usage, or die of an exception.\<close>

datatype cli_result = Run cli | Help | Abort stoul_error

text \<open>The value of an option is the next argument; an option that comes last is ignored.\<close>

fun parse_args :: "string list \<Rightarrow> cli \<Rightarrow> cli_result" where
  "parse_args [] k = Run k"
| "parse_args (arg # rest) k =
     (case rest of
        v # rest' \<Rightarrow>
          if arg = ''--port'' \<or> arg = ''-p'' then
            (case stoul v of Inl e \<Rightarrow> Abort e | Inr n \<Rightarrow> parse_args rest' (k\<lparr>cli_port := ucast n\<rparr>))
          else if arg = ''--max-msg-size'' \<or> arg = ''-m'' then
            (case stoul v of Inl e \<Rightarrow> Abort e | Inr n \<Rightarrow> parse_args rest' (k\<lparr>cli_max_msg_size := n\<rparr>))
          else if arg = ''--peer'' \<or> arg = ''-r'' then
            (case parse_host_port v kDefaultPort of Inl e \<Rightarrow> Abort e
             | Inr (host, port) \<Rightarrow> parse_args rest' (k\<lparr>cli_peers := cli_peers k @ [\<lparr>pc_host = host, pc_port = port\<rparr>]\<rparr>))
          else if arg = ''--upstream'' \<or> arg = ''-u'' then
            (case parse_host_port v kDefaultPort of Inl e \<Rightarrow> Abort e
             | Inr (host, port) \<Rightarrow> parse_args rest' (k\<lparr>cli_upstream := Some \<lparr>pc_host = host, pc_port = port\<rparr>\<rparr>))
          else if arg = ''--system-route'' \<or> arg = ''-s'' then
            (case parse_system_route v of Inl e \<Rightarrow> Abort e
             | Inr None \<Rightarrow> parse_args rest' k
             | Inr (Some rc) \<Rightarrow> parse_args rest' (k\<lparr>cli_system_routes := cli_system_routes k @ [rc]\<rparr>))
          else if arg = ''--help'' \<or> arg = ''-h'' then Help
          else parse_args rest k
      | [] \<Rightarrow> if arg = ''--help'' \<or> arg = ''-h'' then Help else parse_args rest k)"

section \<open>Numbers\<close>

lemma ucast_up_down [simp]: "ucast (ucast (w :: u16) :: u64) = w" "ucast (ucast (v :: u8) :: u64) = v"
  by (rule bit_word_eqI; auto simp: bit_ucast_iff dest: bit_imp_le_length)+

definition dec :: "nat \<Rightarrow> string" where
  "dec v = rev (if v = 0 then ''0'' else id_digits v)"

lemma dec_digits: "c \<in> set (dec v) \<Longrightarrow> is_digit c"
proof -
  have "c \<in> set (id_digits v) \<Longrightarrow> is_digit c" for c v
  proof (induction v rule: id_digits.induct)
    case (1 v)
    have "is_digit (char_of (48 + v mod 10))" by (simp add: is_digit_def)
    with 1 show ?case by (subst (asm) (2) id_digits.simps) (auto split: if_splits)
  qed
  then show "c \<in> set (dec v) \<Longrightarrow> is_digit c" by (auto simp: dec_def is_digit_def split: if_splits)
qed

lemma dec_nonempty: "dec v \<noteq> []"
  using id_digits_value [of v] by (auto simp: dec_def)

lemma dec_value: "digits_value (dec v) = v"
  using id_digits_value [of v] by (auto simp: dec_def digits_value_def foldl_conv_foldr)

lemma digit_plain: "is_digit c \<Longrightarrow> \<not> is_space c \<and> c \<noteq> CHR ''-'' \<and> c \<noteq> CHR ''+'' \<and> c \<noteq> CHR '':'' \<and> c \<noteq> CHR ''@''"
  by (auto simp: is_digit_def is_space_def)

lemma stoul_dec:
  assumes "v < 2 ^ 64" shows "stoul (dec v) = Inr (of_nat v)"
proof -
  obtain c cs where c: "dec v = c # cs" using dec_nonempty [of v] by (cases "dec v") auto
  then have "is_digit c" using dec_digits [of c v] by simp
  then have "strip_sign (dropWhile is_space (dec v)) = (False, dec v)"
    using digit_plain [of c] by (simp add: c strip_sign_def)
  moreover have tw: "takeWhile is_digit (dec v) = dec v" using dec_digits [of _ v] by (simp add: takeWhile_eq_all_conv)
  ultimately show ?thesis using assms dec_nonempty [of v] unfolding stoul_def by (simp add: tw dec_value Let_def)
qed

lemma parse_host_port_dec:
  "parse_host_port (host @ '':'' @ dec (unat (p :: u16))) d = Inr (host, p)"
proof -
  have "c \<noteq> CHR '':''" if "c \<in> set (rev (dec (unat p)))" for c
    using that dec_digits [of c "unat p"] digit_plain [of c] by simp
  then have "takeWhile (\<lambda>c. c \<noteq> CHR '':'') (rev (dec (unat p)) @ CHR '':'' # rev host) = rev (dec (unat p))"
    by (subst takeWhile_append2) auto
  then have "after_last_colon (host @ '':'' @ dec (unat p)) = dec (unat p)"
    by (simp add: after_last_colon_def)
  moreover have "unat p < 2 ^ 16" using unsigned_less [of p] by simp
  then have "stoul (dec (unat p)) = Inr (of_nat (unat p))" by (simp add: stoul_dec)
  moreover have "ucast (of_nat (unat p) :: u64) = p" by simp
  ultimately show ?thesis by (simp add: parse_host_port_def)
qed

lemma parse_system_route_dec:
  "parse_system_route (dec (unat (i :: u8)) @ ''@'' @ host @ '':'' @ dec (unat (p :: u16)))
    = Inr (Some \<lparr>src_system_id = i, src_host = host, src_port = p\<rparr>)"
proof -
  have plain: "c \<noteq> CHR ''@''" if "c \<in> set (dec (unat i))" for c
    using that dec_digits [of c "unat i"] digit_plain [of c] by simp
  let ?rest = "host @ '':'' @ dec (unat p)"
  have "takeWhile (\<lambda>c. c \<noteq> CHR ''@'') (dec (unat i) @ ''@'' @ ?rest) = dec (unat i)"
    using plain by (subst takeWhile_append2) auto
  moreover have "dropWhile (\<lambda>c. c \<noteq> CHR ''@'') (dec (unat i) @ ''@'' @ ?rest) = ''@'' @ ?rest"
    using plain by (subst dropWhile_append2) auto
  moreover have "unat i < 2 ^ 8" using unsigned_less [of i] by simp
  then have "stoul (dec (unat i)) = Inr (of_nat (unat i))" by (simp add: stoul_dec)
  moreover have "ucast (of_nat (unat i) :: u64) = i" by simp
  ultimately show ?thesis using parse_host_port_dec [of host p] by (simp add: parse_system_route_def)
qed

section \<open>Round trip\<close>

text \<open>A command line that spells out a configuration.\<close>

definition show_peer :: "peer_config \<Rightarrow> string" where
  "show_peer pc = pc_host pc @ '':'' @ dec (unat (pc_port pc))"

definition show_route :: "system_route_config \<Rightarrow> string" where
  "show_route rc = dec (unat (src_system_id rc)) @ ''@'' @ src_host rc @ '':'' @ dec (unat (src_port rc))"

definition show_args :: "cli \<Rightarrow> string list" where
  "show_args k = [''--port'', dec (unat (cli_port k)), ''--max-msg-size'', dec (unat (cli_max_msg_size k))]
     @ concat (map (\<lambda>pc. [''--peer'', show_peer pc]) (cli_peers k))
     @ (case cli_upstream k of None \<Rightarrow> [] | Some u \<Rightarrow> [''--upstream'', show_peer u])
     @ concat (map (\<lambda>rc. [''--system-route'', show_route rc]) (cli_system_routes k))"

lemma parse_peers:
  "parse_args (concat (map (\<lambda>pc. [''--peer'', show_peer pc]) pcs) @ rest) k
    = parse_args rest (k\<lparr>cli_peers := cli_peers k @ pcs\<rparr>)"
proof (induction pcs arbitrary: k)
  case (Cons pc pcs)
  then show ?case by (cases pc) (simp add: show_peer_def parse_host_port_dec [simplified])
qed simp

lemma parse_routes:
  "parse_args (concat (map (\<lambda>rc. [''--system-route'', show_route rc]) rcs)) k
    = Run (k\<lparr>cli_system_routes := cli_system_routes k @ rcs\<rparr>)"
proof (induction rcs arbitrary: k)
  case (Cons rc rcs)
  then show ?case by (cases rc) (simp add: show_route_def parse_system_route_dec [simplified])
qed simp

text \<open>
  C39. Every configuration can be given on the command line: the options that spell it out, with
  explicit ports, are parsed back to exactly that configuration, whatever the host names contain,
  and the program does not die of an exception.
\<close>

theorem cli_roundtrip: "parse_args (show_args k) default_cli = Run k"
proof -
  have "unat (cli_port k) < 2 ^ 16" using unsigned_less [of "cli_port k"] by simp
  then have p: "stoul (dec (unat (cli_port k))) = Inr (of_nat (unat (cli_port k)))" by (simp add: stoul_dec)
  have "unat (cli_max_msg_size k) < 2 ^ 64" using unsigned_less [of "cli_max_msg_size k"] by simp
  then have m: "stoul (dec (unat (cli_max_msg_size k))) = Inr (cli_max_msg_size k)" by (simp add: stoul_dec)
  have c: "ucast (of_nat (unat (cli_port k)) :: u64) = cli_port k" by simp
  have u: "parse_host_port (show_peer pc) d = Inr (pc_host pc, pc_port pc)" for pc d
    using parse_host_port_dec [of "pc_host pc" "pc_port pc" d] by (simp add: show_peer_def)
  show ?thesis
    using p m c unfolding show_args_def
    by (cases "cli_upstream k") (simp_all add: parse_peers parse_routes u default_cli_def)
qed

text \<open>A port above 65535 is not refused but reduced, and a colon with nothing after it is fatal.\<close>

lemmas stoul_eval = stoul_def strip_sign_def is_space_def is_digit_def digits_value_def

lemma cli_port_wraps: "parse_args [''--port'', ''70000''] default_cli = Run (default_cli\<lparr>cli_port := 4464\<rparr>)"
  by (simp add: stoul_eval)

lemma cli_empty_port_aborts: "parse_args [''--peer'', ''host:''] default_cli = Abort Invalid_argument"
  by (simp add: parse_host_port_def after_last_colon_def stoul_eval)

end
