(* ===== verification/Logging.thy ===== *)
theory Logging
  imports Tcp_Router Wire_Message
begin

text \<open>
  The real-time logger of \<open>include/corerat/logging/\<close>: the levels and their GDOS wire types
  (\<open>log_level.hpp\<close>), the entry (\<open>rt_log_entry.hpp\<close>), the stream that assembles a message
  (\<open>rt_log_stream.hpp\<close>), the ring with its drain thread (\<open>rt_logger.hpp\<close>) and the two built-in
  sinks (\<open>log_sink.hpp\<close>).

  A \<open>fixed_string\<close> is the list of its characters. The formatting routines of the SeRTial
  library are parameters: \<open>app\<close> is \<open>sertial::rt::append(dst, msg, len)\<close>, whose first argument
  is the capacity of the destination, and \<open>rt_format\<close> collects it with the overloads for the
  other types. A sink is any type with a \<open>write\<close> operation, as behind \<open>ILogSink\<close>.
\<close>

section \<open>Levels\<close>

datatype log_level = Fatal | Error | Warn | Info | Debug | Trace

fun level_code :: "log_level \<Rightarrow> u8" where
  "level_code Fatal = 0"
| "level_code Error = 1"
| "level_code Warn = 2"
| "level_code Info = 3"
| "level_code Debug = 4"
| "level_code Trace = 5"

lemma level_code_inject: "level_code a = level_code b \<longleftrightarrow> a = b"
  by (cases a; cases b) simp_all

instantiation log_level :: linorder
begin

definition less_eq_log_level :: "log_level \<Rightarrow> log_level \<Rightarrow> bool" where
  "less_eq_log_level a b \<longleftrightarrow> level_code a \<le> level_code b"

definition less_log_level :: "log_level \<Rightarrow> log_level \<Rightarrow> bool" where
  "less_log_level a b \<longleftrightarrow> level_code a < level_code b"

instance
  by standard (auto simp: less_eq_log_level_def less_log_level_def level_code_inject order_less_le)

end

fun to_gdos_type :: "log_level \<Rightarrow> i8" where
  "to_gdos_type Fatal = -124"
| "to_gdos_type Error = -125"
| "to_gdos_type Warn = -126"
| "to_gdos_type Info = -127"
| "to_gdos_type _ = -128"

fun level_to_string :: "log_level \<Rightarrow> string" where
  "level_to_string Fatal = ''FATAL''"
| "level_to_string Error = ''ERROR''"
| "level_to_string Warn = ''WARN ''"
| "level_to_string Info = ''INFO ''"
| "level_to_string Debug = ''DEBUG''"
| "level_to_string Trace = ''TRACE''"

section \<open>Entries and the ring\<close>

record log_entry =
  le_timestamp :: u64
  le_source_id :: u32
  le_level :: log_level
  le_message :: string

definition empty_entry :: log_entry where
  "empty_entry = \<lparr>le_timestamp = 0, le_source_id = 0, le_level = Debug, le_message = []\<rparr>"

text \<open>
  The length of \<open>lg_ring\<close> is the template parameter \<open>RingSize\<close>. The counters \<open>lg_head\<close> and
  \<open>lg_tail\<close> run freely and wrap at the width of \<open>size_t\<close>; \<open>lg_thread\<close> says whether the drain
  thread's handle is joinable.
\<close>

record 'k logger =
  lg_ring :: "log_entry list"
  lg_max_msg_len :: nat
  lg_head :: u64
  lg_tail :: u64
  lg_source_id :: u32
  lg_level :: log_level
  lg_sinks :: "'k list"
  lg_running :: bool
  lg_thread :: bool

type_synonym append_fn = "nat \<Rightarrow> string \<Rightarrow> string \<Rightarrow> string"

definition ring_size :: "'k logger \<Rightarrow> nat" where
  "ring_size l = length (lg_ring l)"

text \<open>The \<open>static_assert\<close> on \<open>RingSize\<close>; zero passes it.\<close>

definition ring_size_ok :: "u64 \<Rightarrow> bool" where
  "ring_size_ok n \<longleftrightarrow> n AND (n - 1) = 0"

definition rt_logger :: "nat \<Rightarrow> nat \<Rightarrow> u32 \<Rightarrow> log_level \<Rightarrow> 'k logger" where
  "rt_logger ring_sz max_msg_len source_id min_level =
     \<lparr>lg_ring = replicate ring_sz empty_entry, lg_max_msg_len = max_msg_len, lg_head = 0, lg_tail = 0,
      lg_source_id = source_id, lg_level = min_level, lg_sinks = [], lg_running = False,
      lg_thread = False\<rparr>"

definition slot :: "'k logger \<Rightarrow> u64 \<Rightarrow> nat" where
  "slot l i = unat (i AND (of_nat (ring_size l) - 1))"

definition set_level :: "log_level \<Rightarrow> 'k logger \<Rightarrow> 'k logger" where
  "set_level lvl l = l\<lparr>lg_level := lvl\<rparr>"

text \<open>
  \<open>commit\<close>, in the three parts another thread can observe: the test for a full ring, the entry
  written to the slot at \<open>head\<close>, and the increment that publishes it.
\<close>

definition ring_full :: "'k logger \<Rightarrow> bool" where
  "ring_full l \<longleftrightarrow> of_nat (ring_size l) \<le> lg_head l - lg_tail l"

definition new_entry :: "append_fn \<Rightarrow> u64 \<Rightarrow> log_level \<Rightarrow> string \<Rightarrow> 'k logger \<Rightarrow> log_entry" where
  "new_entry app now lvl msg l =
     \<lparr>le_timestamp = now, le_source_id = lg_source_id l, le_level = lvl,
      le_message = app (lg_max_msg_len l) [] msg\<rparr>"

definition commit_fill :: "log_entry \<Rightarrow> 'k logger \<Rightarrow> 'k logger" where
  "commit_fill e l = l\<lparr>lg_ring := (lg_ring l)[slot l (lg_head l) := e]\<rparr>"

definition commit_publish :: "'k logger \<Rightarrow> 'k logger" where
  "commit_publish l = l\<lparr>lg_head := lg_head l + 1\<rparr>"

definition commit_entry :: "log_entry \<Rightarrow> 'k logger \<Rightarrow> 'k logger" where
  "commit_entry e l = (if ring_full l then l else commit_publish (commit_fill e l))"

definition commit :: "append_fn \<Rightarrow> u64 \<Rightarrow> log_level \<Rightarrow> string \<Rightarrow> 'k logger \<Rightarrow> 'k logger" where
  "commit app now lvl msg l = commit_entry (new_entry app now lvl msg l) l"

definition kMaxSinks :: nat where "kMaxSinks = 4"

definition add_sink :: "'k option \<Rightarrow> 'k logger \<Rightarrow> 'k logger" where
  "add_sink sink l =
     (case sink of None \<Rightarrow> l
      | Some k \<Rightarrow> if length (lg_sinks l) < kMaxSinks then l\<lparr>lg_sinks := lg_sinks l @ [k]\<rparr> else l)"

text \<open>What every sink is handed: the entry with its message copied into a \<open>fixed_string<256>\<close>.\<close>

definition sink_entry :: "append_fn \<Rightarrow> log_entry \<Rightarrow> log_entry" where
  "sink_entry app e = e\<lparr>le_message := app 256 [] (le_message e)\<rparr>"

definition dispatch :: "append_fn \<Rightarrow> ('k \<Rightarrow> log_entry \<Rightarrow> 'k) \<Rightarrow> log_entry \<Rightarrow> 'k logger \<Rightarrow> 'k logger" where
  "dispatch app wr e l = l\<lparr>lg_sinks := map (\<lambda>k. wr k (sink_entry app e)) (lg_sinks l)\<rparr>"

text \<open>The body of both drain loops before \<open>dispatch\<close>: the entry at \<open>tail\<close> is copied out.\<close>

definition drain_empty :: "'k logger \<Rightarrow> bool" where
  "drain_empty l \<longleftrightarrow> lg_head l = lg_tail l"

definition drain_copy :: "'k logger \<Rightarrow> u64 \<Rightarrow> log_entry" where
  "drain_copy l t = lg_ring l ! slot l t"

definition drain_advance :: "u64 \<Rightarrow> 'k logger \<Rightarrow> 'k logger" where
  "drain_advance t l = l\<lparr>lg_tail := t + 1\<rparr>"

definition drain_take :: "'k logger \<Rightarrow> (log_entry \<times> 'k logger) option" where
  "drain_take l = (if drain_empty l then None
     else Some (drain_copy l (lg_tail l), drain_advance (lg_tail l) l))"

lemma dispatch_fields [simp]:
  "lg_head (dispatch app wr e l) = lg_head l" "lg_tail (dispatch app wr e l) = lg_tail l"
  "lg_ring (dispatch app wr e l) = lg_ring l" "lg_running (dispatch app wr e l) = lg_running l"
  "lg_thread (dispatch app wr e l) = lg_thread l" "lg_level (dispatch app wr e l) = lg_level l"
  "lg_source_id (dispatch app wr e l) = lg_source_id l"
  "lg_max_msg_len (dispatch app wr e l) = lg_max_msg_len l"
  by (simp_all add: dispatch_def)

lemma drain_take_measure:
  assumes "drain_take l = Some (e, l')"
  shows "unat (lg_head l - lg_tail l) = Suc (unat (lg_head l' - lg_tail l'))"
proof -
  have "lg_head l - lg_tail l \<noteq> 0" and l': "l' = drain_advance (lg_tail l) l"
    using assms by (auto simp: drain_take_def drain_empty_def split: if_splits)
  then have "unat (lg_head l - lg_tail l - 1) = unat (lg_head l - lg_tail l) - 1"
    and "0 < unat (lg_head l - lg_tail l)"
    by (auto simp: unat_minus_one unat_gt_0)
  then show ?thesis by (simp add: l' drain_advance_def algebra_simps)
qed

text \<open>The second loop, run once the stop flag has been seen.\<close>

function drain_flush :: "append_fn \<Rightarrow> ('k \<Rightarrow> log_entry \<Rightarrow> 'k) \<Rightarrow> 'k logger \<Rightarrow> 'k logger" where
  "drain_flush app wr l =
     (case drain_take l of None \<Rightarrow> l
      | Some (e, l') \<Rightarrow> drain_flush app wr (dispatch app wr e l'))"
  by pat_completeness auto
termination
  by (relation "measure (\<lambda>(app, wr, l). unat (lg_head l - lg_tail l))")
    (auto dest!: drain_take_measure)

declare drain_flush.simps [simp del]

text \<open>
  \<open>start_drain\<close>: \<open>spawned\<close> says whether the \<open>std::thread\<close> could be created. If it could not,
  its constructor throws (first component \<open>False\<close>) when the flag has already been set.
\<close>

definition start_drain :: "bool \<Rightarrow> 'k logger \<Rightarrow> bool \<times> 'k logger" where
  "start_drain spawned l =
     (if lg_running l then (True, l)
      else let l1 = l\<lparr>lg_running := True\<rparr>
           in if spawned then (True, l1\<lparr>lg_thread := True\<rparr>) else (False, l1))"

text \<open>
  \<open>stop_drain\<close> clears the flag and joins the drain thread, which then runs its second loop.
  Without a joinable thread nothing is drained.
\<close>

definition stop_drain :: "append_fn \<Rightarrow> ('k \<Rightarrow> log_entry \<Rightarrow> 'k) \<Rightarrow> 'k logger \<Rightarrow> 'k logger" where
  "stop_drain app wr l =
     (if \<not> lg_running l then l
      else let l1 = l\<lparr>lg_running := False\<rparr>
           in if lg_thread l1 then (drain_flush app wr l1)\<lparr>lg_thread := False\<rparr> else l1)"

definition logger_destroy :: "append_fn \<Rightarrow> ('k \<Rightarrow> log_entry \<Rightarrow> 'k) \<Rightarrow> 'k logger \<Rightarrow> 'k logger" where
  "logger_destroy app wr l = stop_drain app wr l"

definition logger_level :: "'k logger \<Rightarrow> log_level" where
  "logger_level l = lg_level l"

section \<open>Writers and the drain thread, interleaved\<close>

text \<open>
  The writers exclude each other by \<open>ring_mutex_\<close>, so at most one is inside \<open>commit\<close>; the drain
  thread takes no lock. \<open>W_claimed\<close>: the test for a full ring has passed; \<open>W_filled\<close>: the slot
  is written, the counter not yet. \<open>D_loaded\<close>: the drain thread saw a non-empty ring and read
  \<open>tail\<close>; \<open>D_copied\<close>: it has copied the slot; \<open>D_taken\<close>: it has stored the new \<open>tail\<close>. The flag
  of these states is \<open>True\<close> in the second loop, which runs after the stop. \<open>ls_committed\<close> and
  \<open>ls_dispatched\<close> record the entries published and handed to the sinks.
\<close>

datatype writer_pc = W_idle | W_claimed log_entry | W_filled log_entry

datatype drain_pc = D_none | D_top bool | D_loaded bool u64 | D_copied bool u64 log_entry
  | D_taken bool log_entry

record 'k log_sys =
  ls_logger :: "'k logger"
  ls_writer :: writer_pc
  ls_drain :: drain_pc
  ls_committed :: "log_entry list"
  ls_dispatched :: "log_entry list"

definition log_sys_init :: "'k logger \<Rightarrow> 'k log_sys" where
  "log_sys_init l = \<lparr>ls_logger = l, ls_writer = W_idle, ls_drain = D_none, ls_committed = [], ls_dispatched = []\<rparr>"

inductive log_step :: "append_fn \<Rightarrow> ('k \<Rightarrow> log_entry \<Rightarrow> 'k) \<Rightarrow> 'k log_sys \<Rightarrow> 'k log_sys \<Rightarrow> bool"
  for app wr where
  commit_drop: "ls_writer s = W_idle \<Longrightarrow> ring_full (ls_logger s) \<Longrightarrow> log_step app wr s s"
| commit_claim: "ls_writer s = W_idle \<Longrightarrow> \<not> ring_full (ls_logger s) \<Longrightarrow>
    log_step app wr s (s\<lparr>ls_writer := W_claimed (new_entry app now lvl msg (ls_logger s))\<rparr>)"
| commit_write: "ls_writer s = W_claimed e \<Longrightarrow>
    log_step app wr s (s\<lparr>ls_logger := commit_fill e (ls_logger s), ls_writer := W_filled e\<rparr>)"
| commit_release: "ls_writer s = W_filled e \<Longrightarrow>
    log_step app wr s (s\<lparr>ls_logger := commit_publish (ls_logger s), ls_writer := W_idle,
      ls_committed := ls_committed s @ [e]\<rparr>)"
| started: "ls_drain s = D_none \<Longrightarrow> \<not> lg_running (ls_logger s) \<Longrightarrow>
    log_step app wr s (s\<lparr>ls_logger := snd (start_drain True (ls_logger s)), ls_drain := D_top False\<rparr>)"
| stop_flag: "lg_running (ls_logger s) \<Longrightarrow>
    log_step app wr s (s\<lparr>ls_logger := (ls_logger s)\<lparr>lg_running := False\<rparr>\<rparr>)"
| level_set: "log_step app wr s (s\<lparr>ls_logger := set_level lvl (ls_logger s)\<rparr>)"
| drain_sleep: "ls_drain s = D_top False \<Longrightarrow> lg_running (ls_logger s) \<Longrightarrow>
    drain_empty (ls_logger s) \<Longrightarrow> log_step app wr s s"
| drain_stop_seen: "ls_drain s = D_top False \<Longrightarrow> \<not> lg_running (ls_logger s) \<Longrightarrow>
    log_step app wr s (s\<lparr>ls_drain := D_top True\<rparr>)"
| drain_exit: "ls_drain s = D_top True \<Longrightarrow> drain_empty (ls_logger s) \<Longrightarrow>
    log_step app wr s (s\<lparr>ls_logger := (ls_logger s)\<lparr>lg_thread := False\<rparr>, ls_drain := D_none\<rparr>)"
| drain_load: "ls_drain s = D_top fl \<Longrightarrow> fl \<or> lg_running (ls_logger s) \<Longrightarrow>
    \<not> drain_empty (ls_logger s) \<Longrightarrow>
    log_step app wr s (s\<lparr>ls_drain := D_loaded fl (lg_tail (ls_logger s))\<rparr>)"
| drain_read: "ls_drain s = D_loaded fl t \<Longrightarrow>
    log_step app wr s (s\<lparr>ls_drain := D_copied fl t (drain_copy (ls_logger s) t)\<rparr>)"
| drain_store: "ls_drain s = D_copied fl t e \<Longrightarrow>
    log_step app wr s (s\<lparr>ls_logger := drain_advance t (ls_logger s), ls_drain := D_taken fl e\<rparr>)"
| drain_dispatch: "ls_drain s = D_taken fl e \<Longrightarrow>
    log_step app wr s (s\<lparr>ls_logger := dispatch app wr e (ls_logger s), ls_drain := D_top fl,
      ls_dispatched := ls_dispatched s @ [e]\<rparr>)"

section \<open>Streams\<close>

text \<open>
  \<open>RtLogStream\<close>. An item is an argument of one of its \<open>operator<<\<close> overloads; \<open>'f\<close> and \<open>'d\<close>
  are the types of \<open>float\<close> and \<open>double\<close> values, whose text only the library knows.
\<close>

record rt_hex =
  hex_value :: u64
  hex_prefix :: bool

record rt_hex32 =
  hex32_value :: u32
  hex32_prefix :: bool

datatype ('f, 'd) log_item = It_cstr string | It_i32 u32 | It_u32 u32 | It_i64 u64 | It_u64 u64
  | It_float 'f | It_double 'd | It_bool bool | It_hex rt_hex | It_hex32 rt_hex32 | It_fixed string

record ('f, 'd) rt_format =
  rf_append :: append_fn
  rf_append_cstr :: append_fn
  rf_append_i64 :: "nat \<Rightarrow> string \<Rightarrow> u64 \<Rightarrow> string"
  rf_append_u64 :: "nat \<Rightarrow> string \<Rightarrow> u64 \<Rightarrow> string"
  rf_append_float :: "nat \<Rightarrow> string \<Rightarrow> 'f \<Rightarrow> string"
  rf_append_double :: "nat \<Rightarrow> string \<Rightarrow> 'd \<Rightarrow> string"
  rf_append_bool :: "nat \<Rightarrow> string \<Rightarrow> bool \<Rightarrow> string"
  rf_append_hex :: "nat \<Rightarrow> string \<Rightarrow> u64 \<Rightarrow> bool \<Rightarrow> string"

record log_stream =
  st_level :: log_level
  st_active :: bool
  st_cap :: nat
  st_buf :: string

definition open_stream :: "nat \<Rightarrow> log_level \<Rightarrow> 'k logger \<Rightarrow> log_stream" where
  "open_stream max_msg_len lvl l =
     \<lparr>st_level = lvl, st_active = (lvl \<le> lg_level l), st_cap = max_msg_len, st_buf = []\<rparr>"

definition logger_stream :: "log_level \<Rightarrow> 'k logger \<Rightarrow> log_stream" where
  "logger_stream lvl l = open_stream (lg_max_msg_len l) lvl l"

fun append_item :: "('f, 'd) rt_format \<Rightarrow> nat \<Rightarrow> string \<Rightarrow> ('f, 'd) log_item \<Rightarrow> string" where
  "append_item F n b (It_cstr s) = rf_append_cstr F n b s"
| "append_item F n b (It_i32 v) = rf_append_i64 F n b (scast v)"
| "append_item F n b (It_u32 v) = rf_append_u64 F n b (ucast v)"
| "append_item F n b (It_i64 v) = rf_append_i64 F n b v"
| "append_item F n b (It_u64 v) = rf_append_u64 F n b v"
| "append_item F n b (It_float v) = rf_append_float F n b v"
| "append_item F n b (It_double v) = rf_append_double F n b v"
| "append_item F n b (It_bool v) = rf_append_bool F n b v"
| "append_item F n b (It_hex h) = rf_append_hex F n b (hex_value h) (hex_prefix h)"
| "append_item F n b (It_hex32 h) = rf_append_hex F n b (ucast (hex32_value h)) (hex32_prefix h)"
| "append_item F n b (It_fixed s) = rf_append F n b s"

definition put_item :: "('f, 'd) rt_format \<Rightarrow> ('f, 'd) log_item \<Rightarrow> log_stream \<Rightarrow> log_stream" where
  "put_item F it st =
     (if st_active st then st\<lparr>st_buf := append_item F (st_cap st) (st_buf st) it\<rparr> else st)"

definition close_stream :: "append_fn \<Rightarrow> u64 \<Rightarrow> log_stream \<Rightarrow> 'k logger \<Rightarrow> 'k logger" where
  "close_stream app now st l =
     (if st_active st then commit app now (st_level st) (st_buf st) l else l)"

text \<open>
  A whole \<open>RTLOG_*\<close> statement: the macros instantiate \<open>RtLogStream<>\<close>, whose buffer holds 256
  characters whatever the logger's \<open>MaxMsgLen\<close>. \<open>now\<close> is the clock when it is committed.
\<close>

record ('f, 'd) rtlog_stmt =
  rl_level :: log_level
  rl_items :: "('f, 'd) log_item list"
  rl_now :: u64

definition rtlog :: "('f, 'd) rt_format \<Rightarrow> ('f, 'd) rtlog_stmt \<Rightarrow> 'k logger \<Rightarrow> 'k logger" where
  "rtlog F s l =
     close_stream (rf_append F) (rl_now s)
       (fold (put_item F) (rl_items s) (open_stream 256 (rl_level s) l)) l"

section \<open>Sinks\<close>

text \<open>The conversions of \<open>printf\<close> the terminal sink uses.\<close>

definition hex_digit :: "nat \<Rightarrow> char" where
  "hex_digit d = char_of (if d < 10 then 48 + d else 55 + d)"

definition hex8 :: "u32 \<Rightarrow> string" where
  "hex8 v = map (\<lambda>i. hex_digit (unat (drop_bit (4 * (7 - i)) v) mod 16)) [0..<8]"

definition pad0 :: "nat \<Rightarrow> string \<Rightarrow> string" where
  "pad0 w s = replicate (w - length s) (CHR ''0'') @ s"

record terminal_sink =
  tk_min_level :: log_level
  tk_out :: string

text \<open>The fields of the clock shown: hour, minute, second, millisecond.\<close>

definition clock_fields :: "u64 \<Rightarrow> u64 \<times> u64 \<times> u64 \<times> u64" where
  "clock_fields ts =
     (let ts_ms = ts div 1000000; ms = ts_ms mod 1000; ts_s = ts_ms div 1000; sec = ts_s mod 60;
          mins = (ts_s div 60) mod 60; hour = (ts_s div 3600) mod 24
      in (hour, mins, sec, ms))"

definition escape :: "string \<Rightarrow> string" where
  "escape s = char_of (27 :: nat) # s"

fun color_for :: "log_level \<Rightarrow> string" where
  "color_for Fatal = escape ''[1;31m''"
| "color_for Error = escape ''[0;31m''"
| "color_for Warn = escape ''[0;33m''"
| "color_for Info = escape ''[0;32m''"
| "color_for Debug = escape ''[0;36m''"
| "color_for Trace = escape ''[0;37m''"

definition terminal_line :: "log_entry \<Rightarrow> string" where
  "terminal_line e =
     (case clock_fields (le_timestamp e) of (hour, mins, sec, ms) \<Rightarrow>
        color_for (le_level e) @ ''['' @ pad0 2 (decimal_nat (unat hour)) @ '':'' @
        pad0 2 (decimal_nat (unat mins)) @ '':'' @ pad0 2 (decimal_nat (unat sec)) @ ''.'' @
        pad0 3 (decimal_nat (unat ms)) @ ''] ['' @ level_to_string (le_level e) @ ''] [src='' @
        hex8 (le_source_id e) @ ''] '' @ c_string (le_message e) @ escape ''[0m'' @
        [char_of (10 :: nat)])"

definition terminal_write :: "terminal_sink \<Rightarrow> log_entry \<Rightarrow> terminal_sink" where
  "terminal_write k e =
     (if le_level e > tk_min_level k then k else k\<lparr>tk_out := tk_out k @ terminal_line e\<rparr>)"

text \<open>The TiMS sink borrows the socket \<open>tm_sock\<close>; its descriptor is the \<open>fd_\<close> of the source.\<close>

record tims_sink =
  tm_sock :: tcp_socket
  tm_src_id :: u32
  tm_min_level :: log_level

definition kGdosMailbox :: u32 where "kGdosMailbox = 0x0C000000"

definition kHeadLen :: u32 where "kHeadLen = 32"

definition write_u32 :: "bytes \<Rightarrow> nat \<Rightarrow> u32 \<Rightarrow> bytes" where
  "write_u32 p off v =
     p[off := ucast v, off + 1 := ucast (drop_bit 8 v), off + 2 := ucast (drop_bit 16 v),
       off + 3 := ucast (drop_bit 24 v)]"

definition write_u64 :: "bytes \<Rightarrow> nat \<Rightarrow> u64 \<Rightarrow> bytes" where
  "write_u64 p off v = write_u32 (write_u32 p off (ucast v)) (off + 4) (ucast (drop_bit 32 v))"

text \<open>
  The 32 bytes sent first, filled into the uninitialised array \<open>junk\<close>, and the payload with its
  terminating NUL.
\<close>

definition tims_head :: "bytes \<Rightarrow> u32 \<Rightarrow> log_entry \<Rightarrow> bytes" where
  "tims_head junk src_id e =
     (let msglen = of_nat (length (le_message e)) + 1; total = kHeadLen + msglen;
          h1 = write_u32 junk 0 (scast (to_gdos_type (le_level e)));
          h2 = write_u32 h1 4 total;
          h3 = write_u64 h2 8 (le_timestamp e);
          h4 = write_u32 h3 16 0;
          h5 = write_u32 h4 20 kGdosMailbox;
          h6 = write_u32 h5 24 src_id
      in write_u32 h6 28 0)"

definition gdos_payload :: "log_entry \<Rightarrow> bytes" where
  "gdos_payload e = map of_char (le_message e) @ [0]"

definition tims_write :: "bytes \<Rightarrow> tims_sink \<Rightarrow> log_entry \<Rightarrow> tims_sink" where
  "tims_write junk k e =
     (if le_level e > tm_min_level k \<or> sk_fd (tm_sock k) < 0 then k
      else case sys_send (tm_sock k) (tims_head junk (tm_src_id k) e) of (n, s1) \<Rightarrow>
             if n \<noteq> int (unat kHeadLen) then k\<lparr>tm_sock := s1\<rparr>
             else k\<lparr>tm_sock := snd (sys_send s1 (gdos_payload e))\<rparr>)"

text \<open>The two built-in implementations behind the \<open>ILogSink\<close> pointer.\<close>

datatype log_sink = Terminal_sink terminal_sink | Tims_sink tims_sink

fun sink_write :: "bytes \<Rightarrow> log_sink \<Rightarrow> log_entry \<Rightarrow> log_sink" where
  "sink_write junk (Terminal_sink k) e = Terminal_sink (terminal_write k e)"
| "sink_write junk (Tims_sink k) e = Tims_sink (tims_write junk k e)"

end
