(* ===== verification/Logging_Props.thy ===== *)
theory Logging_Props
  imports Logging Tcp_Router_Props
begin

text \<open>
  The logger's ring is a bounded queue that drops the newest entry, although its counters wrap;
  the drain thread, which takes no lock, delivers every committed entry exactly once and in
  order under every interleaving with the writers; stopping flushes the ring. For the sinks:
  the clock the terminal shows, and the bytes the TiMS sink puts on the wire.
\<close>

section \<open>Ring arithmetic\<close>

lemma pow2_of_and_pred:
  fixes n :: nat
  assumes "n AND (n - 1) = 0" and "0 < n"
  shows "\<exists>k. n = 2 ^ k"
  using assms
proof (induction n rule: less_induct)
  case (less n)
  show ?case
  proof (cases "even n")
    case True
    then obtain m where m: "n = 2 * m" by blast
    with less.prems have "0 < m" by simp
    then have "odd (n - 1)" and "(n - 1) div 2 = m - 1" using m by auto
    then have "n AND (n - 1) = 2 * (m AND (m - 1))"
      using m by (subst and_rec) simp
    with less.prems less.IH [of m] \<open>0 < m\<close> m obtain k where "m = 2 ^ k" by auto
    with m have "n = 2 ^ Suc k" by simp
    then show ?thesis by blast
  next
    case False
    then obtain m where m: "n = 2 * m + 1" by (auto elim: oddE)
    then have "n AND (n - 1) = 2 * m" by (subst and_rec) simp
    with less.prems m have "n = 2 ^ 0" by simp
    then show ?thesis by blast
  qed
qed

lemma ring_size_pow2:
  assumes "ring_size_ok (of_nat n)" and "n < 2 ^ 64" and "0 < n"
  shows "\<exists>k < 64. n = 2 ^ k"
proof -
  let ?w = "of_nat n :: u64"
  have u: "unat ?w = n" using assms(2) by (simp add: unat_of_nat take_bit_nat_eq_self)
  then have "?w \<noteq> 0" using assms(3) by auto
  then have "unat (?w - 1) = n - 1" using u by (simp add: unat_minus_one)
  then have "n AND (n - 1) = unat (?w AND (?w - 1))" by (simp add: unsigned_and_eq u)
  also have "\<dots> = 0" using assms(1) by (simp add: ring_size_ok_def)
  finally obtain k where k: "n = 2 ^ k" using pow2_of_and_pred assms(3) by blast
  with assms(2) have "k < 64" using power_less_imp_less_exp [of 2 k 64] by simp
  with k show ?thesis by blast
qed

text \<open>What the template parameters and the operations keep true of a logger.\<close>

definition log_wf :: "'k logger \<Rightarrow> bool" where
  "log_wf l \<longleftrightarrow> ring_size_ok (of_nat (ring_size l)) \<and> ring_size l < 2 ^ 64 \<and>
     unat (lg_head l - lg_tail l) \<le> ring_size l"

definition log_contents :: "'k logger \<Rightarrow> log_entry list" where
  "log_contents l =
     map (\<lambda>i. drain_copy l (lg_tail l + of_nat i)) [0..<unat (lg_head l - lg_tail l)]"

lemma length_log_contents [simp]: "length (log_contents l) = unat (lg_head l - lg_tail l)"
  by (simp add: log_contents_def)

lemma slot_mod:
  assumes "log_wf l" and "0 < ring_size l"
  shows "slot l (lg_tail l + of_nat i) = (unat (lg_tail l) + i) mod ring_size l"
proof -
  obtain k where k: "k < 64" "ring_size l = 2 ^ k"
    using assms ring_size_pow2 by (auto simp: log_wf_def)
  have "(of_nat (ring_size l) - 1 :: u64) = mask k" by (simp add: k mask_eq_exp_minus_1)
  then have "slot l x = take_bit k (unat x)" for x
    by (simp add: slot_def take_bit_eq_mask [symmetric] unsigned_take_bit_eq)
  then have "slot l x = unat x mod 2 ^ k" for x by (simp add: take_bit_eq_mod)
  moreover have "(2::nat) ^ k dvd 2 ^ 64" using k by (intro le_imp_power_dvd) simp
  then have "unat (lg_tail l + of_nat i) mod 2 ^ k = (unat (lg_tail l) + i) mod 2 ^ k"
    by (simp add: unat_word_ariths unat_of_nat take_bit_eq_mod mod_mod_cancel mod_simps)
  ultimately show ?thesis by (simp add: k)
qed

lemma slot_less: "log_wf l \<Longrightarrow> 0 < ring_size l \<Longrightarrow> slot l (lg_tail l + of_nat i) < ring_size l"
  by (simp add: slot_mod)

lemma mod_add_inject:
  fixes a :: nat
  assumes "(a + i) mod n = (a + j) mod n" and "i < n" and "j < n"
  shows "i = j"
proof -
  have "x = y" if "(a + x) mod n = (a + y) mod n" "x \<le> y" "y < n" for x y
  proof -
    have "n dvd y - x" using that mod_eq_dvd_iff_nat [of "a + x" "a + y" n] by simp
    then show ?thesis using that by (auto dest: dvd_imp_le)
  qed
  from this [of i j] this [of j i] show ?thesis using assms by (cases "i \<le> j") auto
qed

lemma slot_inject:
  assumes "log_wf l" and "i < ring_size l" and "j < ring_size l"
  shows "slot l (lg_tail l + of_nat i) = slot l (lg_tail l + of_nat j) \<longleftrightarrow> i = j"
proof -
  have "0 < ring_size l" using assms(2) by simp
  then show ?thesis
    using assms by (auto simp: slot_mod intro: mod_add_inject)
qed

lemma head_as_offset: "lg_head l = lg_tail l + of_nat (unat (lg_head l - lg_tail l))"
  by simp

lemma ring_full_iff: "log_wf l \<Longrightarrow> ring_full l \<longleftrightarrow> length (log_contents l) = ring_size l"
  by (auto simp: ring_full_def log_wf_def word_le_nat_alt unat_of_nat take_bit_nat_eq_self)

section \<open>A bounded queue that drops the newest\<close>

text \<open>
  What the producers and the drain thread rely on. The clients' facts are proved from these
  laws alone: a run of \<open>put\<close>s keeps the oldest entries that fit, and taking until nothing is
  left yields the contents in order.
\<close>

locale drop_newest_queue =
  fixes put :: "'e \<Rightarrow> 's \<Rightarrow> 's" and get :: "'s \<Rightarrow> ('e \<times> 's) option"
    and contents :: "'s \<Rightarrow> 'e list" and cap :: "'s \<Rightarrow> nat" and wf :: "'s \<Rightarrow> bool"
  assumes put_wf: "wf s \<Longrightarrow> wf (put e s)"
    and put_cap: "cap (put e s) = cap s"
    and put_room: "wf s \<Longrightarrow> length (contents s) < cap s \<Longrightarrow> contents (put e s) = contents s @ [e]"
    and put_full: "wf s \<Longrightarrow> cap s \<le> length (contents s) \<Longrightarrow> put e s = s"
    and get_none: "get s = None \<longleftrightarrow> contents s = []"
    and get_some: "wf s \<Longrightarrow> get s = Some (e, s') \<Longrightarrow> contents s = e # contents s' \<and> wf s' \<and> cap s' = cap s"
    and within: "wf s \<Longrightarrow> length (contents s) \<le> cap s"
begin

lemma put_contents:
  "wf s \<Longrightarrow> contents (put e s) = contents s @ take (cap s - length (contents s)) [e]"
  by (cases "length (contents s) < cap s") (simp_all add: put_room put_full)

lemma puts_contents:
  "wf s \<Longrightarrow> contents (fold put es s) = contents s @ take (cap s - length (contents s)) es \<and>
     wf (fold put es s) \<and> cap (fold put es s) = cap s"
proof (induction es arbitrary: s)
  case Nil
  then show ?case by simp
next
  case (Cons e es)
  from Cons.IH [of "put e s"] Cons.prems show ?case
    by (cases "length (contents s) < cap s") (auto simp: put_wf put_cap put_room put_full Suc_diff_Suc take_Cons')
qed

lemma get_put_empty:
  assumes "wf s" and "contents s = []" and "0 < cap s"
  shows "\<exists>s'. get (put e s) = Some (e, s') \<and> contents s' = []"
proof -
  have c: "contents (put e s) = [e]" using assms by (simp add: put_room)
  then obtain e' s' where g: "get (put e s) = Some (e', s')"
    using get_none [of "put e s"] by (cases "get (put e s)") auto
  with get_some [OF put_wf [OF assms(1)] g] c show ?thesis by auto
qed

end

lemma log_wf_nonempty: "log_wf l \<Longrightarrow> \<not> drain_empty l \<Longrightarrow> 0 < ring_size l"
  by (cases "ring_size l") (auto simp: log_wf_def drain_empty_def unat_eq_0)

lemma log_contents_update:
  assumes "log_wf l" and "\<not> ring_full l"
  shows "log_contents (commit_fill e l) = log_contents l"
    and "drain_copy (commit_fill e l) (lg_head l) = e"
proof -
  let ?n = "unat (lg_head l - lg_tail l)"
  have n: "?n < ring_size l"
    using assms ring_full_iff [OF assms(1)] by (auto simp: log_wf_def)
  have h: "slot l (lg_head l) = slot l (lg_tail l + of_nat ?n)" by simp
  have s [simp]: "slot (commit_fill e l) i = slot l i" for i
    by (simp add: commit_fill_def slot_def ring_size_def)
  have "slot l (lg_head l) \<noteq> slot l (lg_tail l + of_nat i)" if "i < ?n" for i
    using slot_inject [OF assms(1), of i ?n] that n unfolding h by (metis less_irrefl order.strict_trans)
  then have "drain_copy (commit_fill e l) (lg_tail l + of_nat i) = drain_copy l (lg_tail l + of_nat i)"
    if "i < ?n" for i
    using that unfolding drain_copy_def s by (simp add: commit_fill_def nth_list_update_neq)
  moreover have "lg_head (commit_fill e l) = lg_head l" "lg_tail (commit_fill e l) = lg_tail l"
    by (simp_all add: commit_fill_def)
  ultimately show "log_contents (commit_fill e l) = log_contents l"
    unfolding log_contents_def by simp
  have "slot l (lg_head l) < length (lg_ring l)"
    unfolding h ring_size_def [symmetric] by (rule slot_less [OF assms(1)]) (use n in linarith)
  then show "drain_copy (commit_fill e l) (lg_head l) = e"
    unfolding drain_copy_def s by (simp add: commit_fill_def)
qed

lemma log_wf_fields:
  "log_wf l \<Longrightarrow> lg_head l' = lg_head l \<Longrightarrow> lg_tail l' = lg_tail l \<Longrightarrow> ring_size l' = ring_size l \<Longrightarrow> log_wf l'"
  by (simp add: log_wf_def)

lemma commit_fill_fields [simp]:
  "lg_head (commit_fill e l) = lg_head l" "lg_tail (commit_fill e l) = lg_tail l"
  "ring_size (commit_fill e l) = ring_size l"
  by (simp_all add: commit_fill_def ring_size_def)

lemma commit_publish_wf:
  assumes "log_wf l" and "\<not> ring_full l"
  shows "log_wf (commit_publish l)"
    and "log_contents (commit_publish l) = log_contents l @ [drain_copy l (lg_head l)]"
proof -
  let ?d = "lg_head l - lg_tail l"
  have n: "unat ?d < ring_size l" and "ring_size l < 2 ^ 64"
    using assms ring_full_iff [OF assms(1)] by (auto simp: log_wf_def)
  then have "unat ?d + 1 < 2 ^ 64" by simp
  then have "unat (?d + 1) = unat ?d + 1" by (subst unat_add_lem [THEN iffD1]) simp_all
  then have d: "unat (lg_head l + 1 - lg_tail l) = Suc (unat ?d)" by (simp add: algebra_simps)
  then show "log_wf (commit_publish l)"
    using assms(1) n by (simp add: log_wf_def commit_publish_def ring_size_def)
  show "log_contents (commit_publish l) = log_contents l @ [drain_copy l (lg_head l)]"
    using d by (simp add: log_contents_def commit_publish_def drain_copy_def slot_def ring_size_def)
qed

lemma drain_advance_wf:
  assumes "log_wf l" and "\<not> drain_empty l"
  shows "log_wf (drain_advance (lg_tail l) l)"
    and "log_contents l = drain_copy l (lg_tail l) # log_contents (drain_advance (lg_tail l) l)"
proof -
  let ?a = "drain_advance (lg_tail l) l"
  have f: "lg_head ?a = lg_head l" "lg_tail ?a = lg_tail l + 1" "ring_size ?a = ring_size l"
    by (simp_all add: drain_advance_def ring_size_def)
  define n where "n = unat (lg_head l - (lg_tail l + 1))"
  have "drain_take l = Some (drain_copy l (lg_tail l), ?a)"
    using assms(2) by (simp add: drain_take_def)
  from drain_take_measure [OF this] have d: "unat (lg_head l - lg_tail l) = Suc n"
    by (simp only: f n_def)
  then show "log_wf ?a" using assms(1) by (simp add: log_wf_def f n_def)
  have c: "drain_copy ?a i = drain_copy l i" for i
    by (simp add: drain_advance_def drain_copy_def slot_def ring_size_def)
  show "log_contents l = drain_copy l (lg_tail l) # log_contents ?a"
    unfolding log_contents_def f c d n_def [symmetric]
    by (simp add: upt_conv_Cons map_Suc_upt [symmetric] comp_def algebra_simps del: upt_Suc)
qed

lemma commit_entry_wf:
  assumes "log_wf l"
  shows "log_wf (commit_entry e l)"
proof (cases "ring_full l")
  case False
  then have "\<not> ring_full (commit_fill e l)" and "log_wf (commit_fill e l)"
    using assms by (auto simp: ring_full_def intro: log_wf_fields)
  then show ?thesis using False by (simp add: commit_entry_def commit_publish_wf)
qed (use assms in \<open>simp add: commit_entry_def\<close>)

lemma commit_entry_room:
  assumes "log_wf l" and "length (log_contents l) < ring_size l"
  shows "log_contents (commit_entry e l) = log_contents l @ [e]"
proof -
  have "\<not> ring_full l" using assms ring_full_iff by fastforce
  moreover from this have "\<not> ring_full (commit_fill e l)" and "log_wf (commit_fill e l)"
    using assms by (auto simp: ring_full_def intro: log_wf_fields)
  ultimately show ?thesis
    using assms by (simp add: commit_entry_def commit_publish_wf log_contents_update)
qed

interpretation log_ring: drop_newest_queue commit_entry drain_take log_contents ring_size log_wf
proof
  fix l l' :: "'k logger" and e
  show "log_wf l \<Longrightarrow> log_wf (commit_entry e l)" by (rule commit_entry_wf)
  show "ring_size (commit_entry e l) = ring_size l"
    by (simp add: commit_entry_def commit_publish_def ring_size_def commit_fill_def)
  show "log_wf l \<Longrightarrow> length (log_contents l) < ring_size l \<Longrightarrow> log_contents (commit_entry e l) = log_contents l @ [e]"
    by (rule commit_entry_room)
  show "log_wf l \<Longrightarrow> ring_size l \<le> length (log_contents l) \<Longrightarrow> commit_entry e l = l"
    using ring_full_iff [of l] by (simp add: commit_entry_def log_wf_def)
  show "(drain_take l = None) = (log_contents l = [])"
    using length_log_contents [of l] by (simp add: drain_take_def drain_empty_def log_contents_def unat_eq_0)
  show "log_wf l \<Longrightarrow> drain_take l = Some (e, l') \<Longrightarrow>
      log_contents l = e # log_contents l' \<and> log_wf l' \<and> ring_size l' = ring_size l"
    using drain_advance_wf [of l]
    by (auto simp: drain_take_def drain_advance_def ring_size_def split: if_splits)
  show "log_wf l \<Longrightarrow> length (log_contents l) \<le> ring_size l" by (simp add: log_wf_def)
qed

section \<open>Delivery\<close>

text \<open>What a sink has become after a run of entries.\<close>

definition feed :: "append_fn \<Rightarrow> ('k \<Rightarrow> log_entry \<Rightarrow> 'k) \<Rightarrow> log_entry list \<Rightarrow> 'k \<Rightarrow> 'k" where
  "feed app wr es k = fold (\<lambda>e k. wr k (sink_entry app e)) es k"

lemma feed_simps [simp]:
  "feed app wr [] = (\<lambda>k. k)" "feed app wr (e # es) k = feed app wr es (wr k (sink_entry app e))"
  "feed app wr (es @ fs) k = feed app wr fs (feed app wr es k)"
  by (simp_all add: feed_def fun_eq_iff)

lemma drain_flush_contents:
  assumes "log_wf l"
  shows "lg_sinks (drain_flush app wr l) = map (feed app wr (log_contents l)) (lg_sinks l) \<and>
    log_contents (drain_flush app wr l) = [] \<and> lg_running (drain_flush app wr l) = lg_running l"
  using assms
proof (induction app wr l rule: drain_flush.induct)
  case (1 app wr l)
  show ?case
  proof (cases "drain_take l")
    case None
    moreover from this have "log_contents l = []" by (simp add: log_ring.get_none)
    ultimately show ?thesis by (subst (1 2 3) drain_flush.simps) simp
  next
    case (Some p)
    obtain e l' where p: "p = (e, l')" by force
    note t = Some [unfolded p]
    from log_ring.get_some [OF 1(2) t]
    have c: "log_contents l = e # log_contents l'" and "log_wf l'" by auto
    moreover have "log_contents (dispatch app wr e l') = log_contents l'"
      and "ring_size (dispatch app wr e l') = ring_size l'"
      by (simp_all add: log_contents_def drain_copy_def slot_def ring_size_def)
    moreover from this \<open>log_wf l'\<close> have "log_wf (dispatch app wr e l')" by (simp add: log_wf_def)
    moreover have "lg_sinks l' = lg_sinks l" and "lg_running l' = lg_running l"
      using t by (auto simp: drain_take_def drain_advance_def split: if_splits)
    moreover have "drain_flush app wr l = drain_flush app wr (dispatch app wr e l')"
      using t by (subst drain_flush.simps) simp
    ultimately show ?thesis
      using 1(1) [OF Some p [symmetric]] by (simp add: dispatch_def comp_def)
  qed
qed

definition stmt_entry :: "('f, 'd) rt_format \<Rightarrow> 'k logger \<Rightarrow> ('f, 'd) rtlog_stmt \<Rightarrow> log_entry" where
  "stmt_entry F l s = new_entry (rf_append F) (rl_now s) (rl_level s)
     (fold (\<lambda>it b. append_item F 256 b it) (rl_items s) []) l"

lemma put_items:
  "fold (put_item F) its st = (if st_active st
     then st\<lparr>st_buf := fold (\<lambda>it b. append_item F (st_cap st) b it) its (st_buf st)\<rparr> else st)"
  by (induction its arbitrary: st) (simp_all add: put_item_def)

lemma rtlog_commit:
  "rtlog F s l = (if rl_level s \<le> lg_level l then commit_entry (stmt_entry F l s) l else l)"
  by (simp add: rtlog_def close_stream_def put_items open_stream_def commit_def stmt_entry_def)

lemma commit_entry_fields [simp]:
  "lg_level (commit_entry e l) = lg_level l" "lg_sinks (commit_entry e l) = lg_sinks l"
  "lg_running (commit_entry e l) = lg_running l" "lg_thread (commit_entry e l) = lg_thread l"
  "stmt_entry F (commit_entry e l) = stmt_entry F l"
  by (auto simp: commit_entry_def commit_publish_def commit_fill_def stmt_entry_def new_entry_def)

lemma rtlogs_commit:
  "fold (rtlog F) ss l =
     fold commit_entry (map (stmt_entry F l) (filter (\<lambda>s. rl_level s \<le> lg_level l) ss)) l"
  by (induction ss arbitrary: l) (simp_all add: rtlog_commit)

lemma commit_entries_fields [simp]:
  "lg_sinks (fold commit_entry es l) = lg_sinks l" "lg_running (fold commit_entry es l) = lg_running l"
  "lg_thread (fold commit_entry es l) = lg_thread l"
  by (induction es arbitrary: l) simp_all

lemma stop_drain_flushes:
  assumes "log_wf l" and "lg_running l" and "lg_thread l"
  shows "lg_sinks (stop_drain app wr l) = map (feed app wr (log_contents l)) (lg_sinks l) \<and>
    log_contents (stop_drain app wr l) = [] \<and> \<not> lg_running (stop_drain app wr l)"
proof -
  let ?l = "l\<lparr>lg_running := False\<rparr>"
  have "log_wf ?l" and "log_contents ?l = log_contents l"
    using assms(1) by (simp_all add: log_wf_def ring_size_def log_contents_def drain_copy_def slot_def)
  moreover have "log_contents (x\<lparr>lg_thread := b\<rparr>) = log_contents x" for x :: "'a logger" and b
    by (simp add: log_contents_def drain_copy_def slot_def ring_size_def)
  ultimately show ?thesis
    using drain_flush_contents [of ?l app wr] assms by (simp add: stop_drain_def Let_def)
qed


section \<open>Well-formed loggers\<close>

text \<open>
  What the types of the source promise of a logger: a ring whose size is a power of two (or
  zero) and whose counters are no further apart than its size, messages that fit their
  \<open>fixed_string\<close>, and at most four sinks.
\<close>

definition append_bounded :: "append_fn \<Rightarrow> bool" where
  "append_bounded app \<longleftrightarrow> (\<forall>cap d s. length (app cap d s) \<le> cap)"

definition log_ok :: "'k logger \<Rightarrow> bool" where
  "log_ok l \<longleftrightarrow> log_wf l \<and> (\<forall>e \<in> set (lg_ring l). length (le_message e) \<le> lg_max_msg_len l) \<and>
     length (lg_sinks l) \<le> kMaxSinks"

lemma log_ok_commit:
  assumes "log_ok l" and "length (le_message e) \<le> lg_max_msg_len l"
  shows "log_ok (commit_entry e l)"
proof -
  have "set (lg_ring (commit_entry e l)) \<subseteq> insert e (set (lg_ring l))"
    and "lg_max_msg_len (commit_entry e l) = lg_max_msg_len l"
    by (auto simp: commit_entry_def commit_publish_def commit_fill_def dest: set_update_subset_insert [THEN subsetD])
  with assms commit_entry_wf [of l e] show ?thesis by (auto simp: log_ok_def)
qed

lemma log_ok_rtlog:
  assumes "append_bounded (rf_append F)" and "log_ok l"
  shows "log_ok (rtlog F s l)"
  using assms by (auto simp: rtlog_commit stmt_entry_def new_entry_def append_bounded_def intro: log_ok_commit)

lemma log_ok_fields:
  assumes "log_ok l" and "log_wf l'" and "lg_ring l' = lg_ring l" and "lg_max_msg_len l' = lg_max_msg_len l"
    and "length (lg_sinks l') \<le> kMaxSinks"
  shows "log_ok l'"
  using assms by (simp add: log_ok_def)

lemma log_wf_frame:
  "lg_ring l' = lg_ring l \<Longrightarrow> lg_head l' = lg_head l \<Longrightarrow> lg_tail l' = lg_tail l \<Longrightarrow> log_wf l' \<longleftrightarrow> log_wf l"
  by (simp add: log_wf_def ring_size_def)

lemma drain_flush_ok: "log_ok l \<Longrightarrow> log_ok (drain_flush app wr l)"
proof (induction app wr l rule: drain_flush.induct)
  case (1 app wr l)
  show ?case
  proof (cases "drain_take l")
    case None
    then show ?thesis using 1(2) by (subst drain_flush.simps) simp
  next
    case (Some p)
    obtain e l' where p: "p = (e, l')" by force
    note t = Some [unfolded p]
    have "log_wf l'" using log_ring.get_some [OF _ t] 1(2) by (simp add: log_ok_def)
    moreover have "lg_ring l' = lg_ring l" "lg_max_msg_len l' = lg_max_msg_len l" "lg_sinks l' = lg_sinks l"
      using t by (auto simp: drain_take_def drain_advance_def split: if_splits)
    moreover have "log_wf (dispatch app wr e l') = log_wf l'" by (rule log_wf_frame) simp_all
    moreover have "length (lg_sinks (dispatch app wr e l')) = length (lg_sinks l')" by (simp add: dispatch_def)
    ultimately have "log_ok (dispatch app wr e l')"
      using 1(2) by (intro log_ok_fields [OF 1(2)]) (simp_all add: log_ok_def)
    with 1(1) [OF Some p [symmetric]] t show ?thesis by (subst drain_flush.simps) simp
  qed
qed

lemma log_ok_frame:
  assumes "log_ok l" and "lg_ring l' = lg_ring l" and "lg_head l' = lg_head l" and "lg_tail l' = lg_tail l"
    and "lg_max_msg_len l' = lg_max_msg_len l" and "length (lg_sinks l') \<le> kMaxSinks"
  shows "log_ok l'"
  using assms log_wf_frame [OF assms(2-4)] by (simp add: log_ok_def)

lemma log_ok_stop:
  assumes "log_ok l"
  shows "log_ok (stop_drain app wr l)"
proof -
  have s: "length (lg_sinks x) \<le> kMaxSinks" if "log_ok x" for x :: "'a logger"
    using that by (simp add: log_ok_def)
  have l: "log_ok (l\<lparr>lg_running := False\<rparr>)" by (rule log_ok_frame [OF assms]) (simp_all add: s [OF assms])
  note f = drain_flush_ok [OF l, of app wr]
  have "log_ok ((drain_flush app wr (l\<lparr>lg_running := False\<rparr>))\<lparr>lg_thread := False\<rparr>)"
    by (rule log_ok_frame [OF f]) (simp_all add: s [OF f])
  with assms l show ?thesis by (simp add: stop_drain_def Let_def)
qed

lemma slots_in_range:
  assumes "log_wf l"
  shows "\<not> ring_full l \<Longrightarrow> slot l (lg_head l) < ring_size l"
    and "\<not> drain_empty l \<Longrightarrow> slot l (lg_tail l) < ring_size l"
proof -
  assume "\<not> ring_full l"
  then have "0 < ring_size l" by (cases "ring_size l") (auto simp: ring_full_def)
  from slot_less [OF assms this, of "unat (lg_head l - lg_tail l)"]
  show "slot l (lg_head l) < ring_size l" by simp
next
  assume "\<not> drain_empty l"
  from slot_less [OF assms log_wf_nonempty [OF assms this], of 0]
  show "slot l (lg_tail l) < ring_size l" by simp
qed

text \<open>
  C25. A logger is well formed from its construction on: statements, level changes, sinks,
  starting and stopping keep its ring a power of two with the counters no further apart than
  that, its messages within their capacity and its sinks within four. In such a logger the slot
  a writer fills and the slot the drain thread copies lie inside the ring.
\<close>

theorem logger_well_formed:
  assumes "append_bounded (rf_append F)" and "log_ok l"
  shows "log_ok (rtlog F s l) \<and> log_ok (set_level lvl l) \<and> log_ok (add_sink k l) \<and>
    log_ok (snd (start_drain spawned l)) \<and> log_ok (stop_drain app wr l) \<and>
    (ring_size_ok (of_nat n) \<and> n < 2 ^ 64 \<longrightarrow> log_ok (rt_logger n m src lvl)) \<and>
    (\<not> ring_full l \<longrightarrow> slot l (lg_head l) < ring_size l) \<and>
    (\<not> drain_empty l \<longrightarrow> slot l (lg_tail l) < ring_size l)"
proof -
  have s: "length (lg_sinks l) \<le> kMaxSinks" and w: "log_wf l" using assms(2) by (simp_all add: log_ok_def)
  have "log_ok (set_level lvl l)"
    by (rule log_ok_frame [OF assms(2)]) (simp_all add: s set_level_def)
  moreover have "log_ok (snd (start_drain spawned l))"
    by (rule log_ok_frame [OF assms(2)]) (simp_all add: s start_drain_def Let_def)
  moreover have "log_ok (add_sink k l)"
    by (rule log_ok_frame [OF assms(2)]) (use s in \<open>auto simp: add_sink_def split: option.splits\<close>)
  moreover have "log_ok (rt_logger n m src lvl)" if "ring_size_ok (of_nat n)" "n < 2 ^ 64"
    using that by (auto simp: log_ok_def log_wf_def rt_logger_def ring_size_def empty_entry_def)
  ultimately show ?thesis
    using log_ok_rtlog [OF assms] log_ok_stop [OF assms(2)] slots_in_range [OF w] by blast
qed

section \<open>The lock-free drain\<close>

definition log_reachable :: "append_fn \<Rightarrow> ('k \<Rightarrow> log_entry \<Rightarrow> 'k) \<Rightarrow> 'k logger \<Rightarrow> 'k log_sys \<Rightarrow> bool" where
  "log_reachable app wr l s \<longleftrightarrow> (log_step app wr)\<^sup>*\<^sup>* (log_sys_init l) s"

text \<open>The entry the drain thread has taken out of the ring and not yet handed to the sinks.\<close>

fun in_hand :: "drain_pc \<Rightarrow> log_entry list" where
  "in_hand (D_taken fl e) = [e]"
| "in_hand _ = []"

fun writer_inv :: "'k logger \<Rightarrow> writer_pc \<Rightarrow> bool" where
  "writer_inv l W_idle \<longleftrightarrow> True"
| "writer_inv l (W_claimed e) \<longleftrightarrow> \<not> ring_full l"
| "writer_inv l (W_filled e) \<longleftrightarrow> \<not> ring_full l \<and> drain_copy l (lg_head l) = e"

fun drain_inv :: "'k logger \<Rightarrow> drain_pc \<Rightarrow> bool" where
  "drain_inv l (D_loaded fl t) \<longleftrightarrow> t = lg_tail l \<and> \<not> drain_empty l"
| "drain_inv l (D_copied fl t e) \<longleftrightarrow> t = lg_tail l \<and> \<not> drain_empty l \<and> e = drain_copy l t"
| "drain_inv l _ \<longleftrightarrow> True"

definition log_sys_inv :: "append_fn \<Rightarrow> ('k \<Rightarrow> log_entry \<Rightarrow> 'k) \<Rightarrow> 'k list \<Rightarrow> 'k log_sys \<Rightarrow> bool" where
  "log_sys_inv app wr ks s \<longleftrightarrow> log_wf (ls_logger s) \<and>
     writer_inv (ls_logger s) (ls_writer s) \<and> drain_inv (ls_logger s) (ls_drain s) \<and>
     ls_committed s = ls_dispatched s @ in_hand (ls_drain s) @ log_contents (ls_logger s) \<and>
     lg_sinks (ls_logger s) = map (feed app wr (ls_dispatched s)) ks"

text \<open>Operations that leave the ring and its counters alone.\<close>

lemma ring_frame:
  assumes "lg_ring l' = lg_ring l" and "lg_head l' = lg_head l" and "lg_tail l' = lg_tail l"
  shows "log_wf l' = log_wf l" "log_contents l' = log_contents l" "ring_full l' = ring_full l"
    "drain_empty l' = drain_empty l" "drain_copy l' i = drain_copy l i"
    "writer_inv l' w = writer_inv l w" "drain_inv l' d = drain_inv l d"
proof -
  have c: "drain_copy l' i = drain_copy l i" for i
    using assms by (simp add: drain_copy_def slot_def ring_size_def)
  have e: "drain_empty l' = drain_empty l" and f: "ring_full l' = ring_full l"
    using assms by (simp_all add: drain_empty_def ring_full_def ring_size_def)
  show "log_wf l' = log_wf l" "log_contents l' = log_contents l"
    using assms c by (simp_all add: log_wf_def ring_size_def log_contents_def)
  show "ring_full l' = ring_full l" "drain_empty l' = drain_empty l" "drain_copy l' i = drain_copy l i"
    by (fact f, fact e, fact c)
  show "writer_inv l' w = writer_inv l w"
    using assms by (cases w) (simp_all add: f c)
  show "drain_inv l' d = drain_inv l d"
    using assms by (cases d) (simp_all add: e c)
qed

lemma log_sys_inv_frame:
  assumes "log_sys_inv app wr ks s" and "lg_ring l' = lg_ring (ls_logger s)"
    and "lg_head l' = lg_head (ls_logger s)" and "lg_tail l' = lg_tail (ls_logger s)"
    and "lg_sinks l' = lg_sinks (ls_logger s)"
  shows "log_sys_inv app wr ks (s\<lparr>ls_logger := l'\<rparr>)"
  using assms ring_frame [OF assms(2-4)] by (simp add: log_sys_inv_def)

lemma fill_keeps_tail:
  assumes "log_wf l" and "\<not> ring_full l" and "\<not> drain_empty l"
  shows "slot l (lg_tail l) \<noteq> slot l (lg_head l)"
    and "drain_copy (commit_fill e l) (lg_tail l) = drain_copy l (lg_tail l)"
proof -
  have n: "unat (lg_head l - lg_tail l) < ring_size l"
    using assms(1,2) ring_full_iff [OF assms(1)] by (auto simp: log_wf_def)
  moreover have "0 < unat (lg_head l - lg_tail l)"
    using assms(3) by (simp add: drain_empty_def unat_gt_0)
  ultimately show ne: "slot l (lg_tail l) \<noteq> slot l (lg_head l)"
    using slot_inject [OF assms(1), of 0 "unat (lg_head l - lg_tail l)"] by simp
  have "slot (commit_fill e l) (lg_tail l) = slot l (lg_tail l)"
    by (simp add: commit_fill_def slot_def ring_size_def)
  with ne show "drain_copy (commit_fill e l) (lg_tail l) = drain_copy l (lg_tail l)"
    unfolding drain_copy_def by (simp add: commit_fill_def)
qed

lemma drain_inv_commit:
  assumes "log_wf l" and "\<not> ring_full l" and "drain_inv l d"
  shows "drain_inv (commit_fill e l) d" and "drain_inv (commit_publish l) d"
proof -
  show "drain_inv (commit_fill e l) d"
    using assms fill_keeps_tail [OF assms(1,2)] by (cases d) (simp_all add: drain_empty_def)
  have "\<not> drain_empty (commit_publish l)"
    using commit_publish_wf(2) [OF assms(1,2)] log_ring.get_none [of "commit_publish l"]
    by (auto simp: drain_take_def)
  then show "drain_inv (commit_publish l) d"
    using assms(3)
    by (cases d) (simp_all add: commit_publish_def drain_copy_def slot_def ring_size_def)
qed

lemma drain_advance_not_full:
  assumes "log_wf l" and "\<not> drain_empty l"
  shows "\<not> ring_full (drain_advance (lg_tail l) l)"
proof -
  have "length (log_contents (drain_advance (lg_tail l) l)) < ring_size l"
    using drain_advance_wf [OF assms] assms(1) by (metis length_Cons less_eq_Suc_le log_ring.within)
  then show ?thesis
    using ring_full_iff [OF drain_advance_wf(1) [OF assms]]
    by (simp add: ring_size_def drain_advance_def)
qed

lemma writer_inv_advance:
  assumes "log_wf l" and "\<not> drain_empty l" and "writer_inv l w"
  shows "writer_inv (drain_advance (lg_tail l) l) w"
  using assms(3) drain_advance_not_full [OF assms(1,2)]
  by (cases w) (simp_all add: drain_copy_def slot_def ring_size_def drain_advance_def)

lemma log_step_inv:
  assumes "log_step app wr s s'" and "log_sys_inv app wr ks s"
  shows "log_sys_inv app wr ks s'"
  using assms
proof (induction rule: log_step.induct)
  case (commit_write s e)
  then have w: "log_wf (ls_logger s)" "\<not> ring_full (ls_logger s)" "drain_inv (ls_logger s) (ls_drain s)"
    by (simp_all add: log_sys_inv_def)
  have "lg_sinks (commit_fill e (ls_logger s)) = lg_sinks (ls_logger s)"
    and "ring_full (commit_fill e (ls_logger s)) = ring_full (ls_logger s)"
    by (simp_all add: commit_fill_def ring_full_def ring_size_def)
  with commit_write w log_contents_update [OF w(1,2)] drain_inv_commit(1) [OF w]
    log_wf_fields [OF w(1), of "commit_fill e (ls_logger s)"]
  show ?case by (simp add: log_sys_inv_def)
next
  case (commit_release s e)
  then have w: "log_wf (ls_logger s)" "\<not> ring_full (ls_logger s)" "drain_inv (ls_logger s) (ls_drain s)"
    and "drain_copy (ls_logger s) (lg_head (ls_logger s)) = e"
    by (simp_all add: log_sys_inv_def)
  with commit_release commit_publish_wf [OF w(1,2)] drain_inv_commit(2) [OF w]
  show ?case by (simp add: log_sys_inv_def commit_publish_def)
next
  case (drain_store s fl t e)
  then have w: "log_wf (ls_logger s)" "\<not> drain_empty (ls_logger s)" "t = lg_tail (ls_logger s)"
    "e = drain_copy (ls_logger s) t" "writer_inv (ls_logger s) (ls_writer s)"
    by (simp_all add: log_sys_inv_def)
  have "lg_sinks (drain_advance t (ls_logger s)) = lg_sinks (ls_logger s)"
    by (simp add: drain_advance_def)
  with drain_store w drain_advance_wf [OF w(1,2)] writer_inv_advance [OF w(1,2,5)]
  show ?case by (simp add: log_sys_inv_def)
next
  case (drain_dispatch s fl e)
  have f: "lg_ring (dispatch app wr e (ls_logger s)) = lg_ring (ls_logger s)"
    "lg_head (dispatch app wr e (ls_logger s)) = lg_head (ls_logger s)"
    "lg_tail (dispatch app wr e (ls_logger s)) = lg_tail (ls_logger s)" by simp_all
  from drain_dispatch ring_frame [OF f] show ?case
    by (simp add: log_sys_inv_def dispatch_def comp_def)
next
  case (started s)
  have f: "lg_ring (snd (start_drain True (ls_logger s))) = lg_ring (ls_logger s)"
    "lg_head (snd (start_drain True (ls_logger s))) = lg_head (ls_logger s)"
    "lg_tail (snd (start_drain True (ls_logger s))) = lg_tail (ls_logger s)"
    "lg_sinks (snd (start_drain True (ls_logger s))) = lg_sinks (ls_logger s)"
    by (simp_all add: start_drain_def Let_def)
  with started ring_frame [OF f(1-3)] show ?case by (simp add: log_sys_inv_def)
next
  case (drain_exit s)
  then show ?case
    using ring_frame [of "(ls_logger s)\<lparr>lg_thread := False\<rparr>" "ls_logger s"]
    by (simp add: log_sys_inv_def)
qed (simp_all add: log_sys_inv_frame set_level_def, simp_all add: log_sys_inv_def)

text \<open>
  C21. The drain thread reads the ring without a lock, and still, whatever the interleaving of
  writers, drain thread, start, stop and level changes: every entry ever published has been
  handed to all sinks, or is in the drain thread's hand, or waits in the ring, each exactly once
  and in the order of publication; the sinks have seen exactly the dispatched entries; the ring
  never holds more than its size; and while a writer is filling a slot, the drain thread is not
  about to copy that slot.
\<close>

theorem drained_exactly_once:
  assumes "log_wf l" and "log_contents l = []" and "log_reachable app wr l s"
  shows "ls_committed s = ls_dispatched s @ in_hand (ls_drain s) @ log_contents (ls_logger s) \<and>
    lg_sinks (ls_logger s) = map (feed app wr (ls_dispatched s)) (lg_sinks l) \<and>
    length (log_contents (ls_logger s)) \<le> ring_size (ls_logger s) \<and>
    (\<forall>e fl t. ls_writer s = W_claimed e \<and> ls_drain s = D_loaded fl t \<longrightarrow>
       slot (ls_logger s) t \<noteq> slot (ls_logger s) (lg_head (ls_logger s)))"
proof -
  have "log_sys_inv app wr (lg_sinks l) (log_sys_init l)"
    using assms(1,2) by (simp add: log_sys_inv_def log_sys_init_def)
  with assms(3) have i: "log_sys_inv app wr (lg_sinks l) s"
    unfolding log_reachable_def by (induction rule: rtranclp_induct) (simp_all add: log_step_inv)
  moreover have "slot (ls_logger s) t \<noteq> slot (ls_logger s) (lg_head (ls_logger s))"
    if "ls_writer s = W_claimed e" "ls_drain s = D_loaded fl t" for e fl t
    using i that fill_keeps_tail(1) [of "ls_logger s"] by (simp add: log_sys_inv_def)
  ultimately show ?thesis by (auto simp: log_sys_inv_def log_wf_def)
qed

section \<open>A concrete logger\<close>

text \<open>
  A logger with two slots and one sink that keeps what it is given, and formatting routines that
  truncate at the capacity; numbers are printed in a fixed way.
\<close>

definition ex_append :: append_fn where
  "ex_append n d s = take n (d @ s)"

definition ex_format :: "(unit, unit) rt_format" where
  "ex_format = \<lparr>rf_append = ex_append, rf_append_cstr = ex_append,
     rf_append_i64 = (\<lambda>n d v. ex_append n d ''i''), rf_append_u64 = (\<lambda>n d v. ex_append n d ''u''),
     rf_append_float = (\<lambda>n d v. ex_append n d ''f''), rf_append_double = (\<lambda>n d v. ex_append n d ''d''),
     rf_append_bool = (\<lambda>n d v. ex_append n d (if v then ''true'' else ''false'')),
     rf_append_hex = (\<lambda>n d v p. ex_append n d ''x'')\<rparr>"

definition ex_collect :: "log_entry list \<Rightarrow> log_entry \<Rightarrow> log_entry list" where
  "ex_collect k e = k @ [e]"

definition ex_logger :: "log_entry list logger" where
  "ex_logger = snd (start_drain True (add_sink (Some []) (rt_logger 2 256 7 Info)))"

definition ex_stmt :: "log_level \<Rightarrow> string \<Rightarrow> (unit, unit) rtlog_stmt" where
  "ex_stmt lvl s = \<lparr>rl_level = lvl, rl_items = [It_cstr s, It_bool True], rl_now = 5\<rparr>"

lemma ex_logger_simps [simp]:
  "lg_ring ex_logger = [empty_entry, empty_entry]" "lg_head ex_logger = 0" "lg_tail ex_logger = 0"
  "lg_running ex_logger" "lg_thread ex_logger" "lg_sinks ex_logger = [[]]" "lg_level ex_logger = Info"
  "lg_source_id ex_logger = 7" "lg_max_msg_len ex_logger = 256"
  by (simp_all add: ex_logger_def start_drain_def add_sink_def rt_logger_def kMaxSinks_def
      numeral_2_eq_2)

lemma ex_logger_wf: "log_wf ex_logger" "log_contents ex_logger = []" "ring_size ex_logger = 2"
  by (simp_all add: log_wf_def log_contents_def ring_size_def ring_size_ok_def)


theorem logger_well_formed_witness:
  "log_ok (rtlog ex_format (ex_stmt Error ''c'') ex_logger) \<and> slot ex_logger (lg_head ex_logger) < ring_size ex_logger"
proof -
  have "append_bounded (rf_append ex_format)"
    by (auto simp: append_bounded_def ex_format_def ex_append_def min_def)
  moreover have "log_ok ex_logger"
    using ex_logger_wf by (simp add: log_ok_def empty_entry_def kMaxSinks_def)
  moreover have "\<not> ring_full ex_logger" by (simp add: ring_full_def ex_logger_wf)
  ultimately show ?thesis using logger_well_formed [of ex_format ex_logger] by blast
qed

theorem drained_exactly_once_witness:
  "log_contents (commit_publish (commit_fill (new_entry ex_append 5 Info ''hi'' ex_logger) ex_logger)) =
     [new_entry ex_append 5 Info ''hi'' ex_logger]"
proof -
  let ?e = "new_entry ex_append 5 Info ''hi'' ex_logger"
  let ?s0 = "log_sys_init ex_logger" and ?step = "log_step ex_append ex_collect"
  let ?s1 = "?s0\<lparr>ls_writer := W_claimed ?e\<rparr>"
  let ?s2 = "?s1\<lparr>ls_logger := commit_fill ?e (ls_logger ?s1), ls_writer := W_filled ?e\<rparr>"
  let ?s3 = "?s2\<lparr>ls_logger := commit_publish (ls_logger ?s2), ls_writer := W_idle,
    ls_committed := ls_committed ?s2 @ [?e]\<rparr>"
  have l: "ls_logger ?s0 = ex_logger" and "\<not> ring_full (ls_logger ?s0)"
    by (simp_all add: log_sys_init_def ring_full_def ring_size_def)
  then have "?step ?s0 ?s1"
    using log_step.commit_claim [of ?s0 ex_append ex_collect 5 Info "''hi''"]
    by (simp add: log_sys_init_def)
  moreover have "?step ?s1 ?s2" by (rule log_step.commit_write) simp
  moreover have "?step ?s2 ?s3" by (rule log_step.commit_release) simp
  ultimately have "log_reachable ex_append ex_collect ex_logger ?s3"
    unfolding log_reachable_def by (meson rtranclp.rtrancl_into_rtrancl rtranclp.rtrancl_refl)
  from drained_exactly_once [OF ex_logger_wf(1,2) this] show ?thesis
    by (simp add: log_sys_init_def)
qed

section \<open>The bytes of the TiMS sink\<close>

lemma list_update_four:
  "off + 4 \<le> length p \<Longrightarrow>
     p[off := a, off + 1 := b, off + 2 := c, off + 3 := d] = take off p @ [a, b, c, d] @ drop 4 (drop off p)"
proof (induction off arbitrary: p)
  case 0
  then obtain x y z w q where "p = x # y # z # w # q"
    by (auto simp: Suc_le_length_iff numeral_eq_Suc)
  then show ?case by (simp add: numeral_eq_Suc)
next
  case (Suc off)
  then obtain x q where "p = x # q" and "off + 4 \<le> length q" by (cases p) auto
  with Suc.IH [of q] show ?case by (simp add: add.commute [of 3] del: drop_drop)
qed

lemma enc_u32_bytes:
  "enc_u32 v = [ucast v, ucast (drop_bit 8 v), ucast (drop_bit 16 v), ucast (drop_bit 24 v)]"
  by (simp add: enc_u32_def word_le_def upt_rec)

lemma write_u32_overwrite:
  "off + 4 \<le> length p \<Longrightarrow> write_u32 p off v = overwrite off (enc_u32 v) p"
  using list_update_four [of off p "ucast v"]
  by (simp only: write_u32_def overwrite_def enc_u32_bytes [symmetric] u32_layout.enc_length drop_drop add.commute)

lemma enc_u64_halves: "enc_u64 v = enc_u32 (ucast v) @ enc_u32 (ucast (drop_bit 32 v))"
proof -
  have lo: "ucast (drop_bit n (ucast v :: u32)) = (ucast (drop_bit n v) :: u8)" if "n \<le> 24" for n
    using that by (intro bit_word_eqI) (auto simp: bit_ucast_iff bit_drop_bit_eq)
  have hi: "ucast (drop_bit n (ucast (drop_bit 32 v) :: u32)) = (ucast (drop_bit (32 + n) v) :: u8)"
    if "n \<le> 24" for n
    using that by (intro bit_word_eqI) (auto simp: bit_ucast_iff bit_drop_bit_eq ac_simps)
  show ?thesis
    unfolding enc_u64_def enc_u32_bytes using lo [of 0] hi [of 0]
    by (simp add: word_le_def upt_rec lo hi)
qed

lemma overwrite_append:
  "length pre = n \<Longrightarrow> length d \<le> length post \<Longrightarrow> overwrite n d (pre @ post) = pre @ d @ drop (length d) post"
  by (simp add: overwrite_def)

lemma write_u32_append:
  "length pre = n \<Longrightarrow> 4 \<le> length post \<Longrightarrow> write_u32 (pre @ post) n v = (pre @ enc_u32 v) @ drop 4 post"
  by (simp add: write_u32_overwrite overwrite_append)

lemma write_u64_append:
  "length pre = n \<Longrightarrow> 8 \<le> length post \<Longrightarrow> write_u64 (pre @ post) n v = (pre @ enc_u64 v) @ drop 8 post"
  using write_u32_append [of pre n post] write_u32_append [of "pre @ enc_u32 (ucast v)" "n + 4" "drop 4 post"]
  by (simp add: write_u64_def enc_u64_halves)

definition gdos_header :: "u32 \<Rightarrow> log_entry \<Rightarrow> wire_header" where
  "gdos_header src_id e =
     \<lparr>wh_msg_type = scast (to_gdos_type (le_level e)), wh_msg_size = of_nat (33 + length (le_message e)),
      wh_timestamp = le_timestamp e, wh_seq_number = 0, wh_dest = kGdosMailbox, wh_src = src_id,
      wh_flags = 0\<rparr>"

lemma tims_head_bytes:
  assumes "length junk = 32"
  shows "tims_head junk src_id e = wire_header_bytes (gdos_header src_id e)"
proof -
  have l: "4 \<le> length (drop n junk)" if "n \<le> 28" for n using assms that by simp
  have l8: "8 \<le> length (drop n junk)" if "n \<le> 24" for n using assms that by simp
  have z: "drop 32 junk = []" using assms by simp
  note w = write_u32_append write_u64_append
  have "write_u32 junk 0 v = enc_u32 v @ drop 4 junk" for v
    using write_u32_append [of "[]" 0 junk v] assms by simp
  moreover have "kHeadLen + (of_nat (length (le_message e)) + 1) = of_nat (33 + length (le_message e))"
    by (simp add: kHeadLen_def)
  ultimately show ?thesis
    using assms unfolding tims_head_def Let_def
    by (simp add: w wire_header_bytes_def gdos_header_def z del: append_assoc of_nat_add)
qed

text \<open>
  C26. What the TiMS sink puts on an open socket whose kernel takes whole buffers: exactly the
  image of a \<open>WireHeader\<close> with the sign-extended GDOS type of the level, the size of header,
  text and terminating NUL, the entry's time stamp, the GDOS mailbox as destination and the
  sink's source, followed by the text and its NUL. The array it is built in need not be
  initialised, and an entry above the sink's level is not sent.
\<close>

theorem gdos_message_layout:
  assumes "length junk = 32" and "0 \<le> sk_fd (tm_sock k)"
    and "32 \<le> sk_send_k (tm_sock k) 0" and "int (length (gdos_payload e)) \<le> sk_send_k (tm_sock k) 1"
  shows "sk_tx (tm_sock (tims_write junk k e)) = sk_tx (tm_sock k) @
    (if le_level e \<le> tm_min_level k
     then wire_header_bytes \<lparr>wh_msg_type = scast (to_gdos_type (le_level e)),
        wh_msg_size = of_nat (32 + length (gdos_payload e)), wh_timestamp = le_timestamp e,
        wh_seq_number = 0, wh_dest = 0x0C000000, wh_src = tm_src_id k, wh_flags = 0\<rparr> @ gdos_payload e
     else [])"
proof (cases "le_level e \<le> tm_min_level k")
  case True
  let ?h = "tims_head junk (tm_src_id k) e"
  have h: "?h = wire_header_bytes (gdos_header (tm_src_id k) e)" by (rule tims_head_bytes [OF assms(1)])
  then have "length ?h = 32" by simp
  moreover have "gdos_payload e \<noteq> []" by (simp add: gdos_payload_def)
  moreover from this have "0 < int (length (gdos_payload e))" by simp
  ultimately show ?thesis
    using True assms h
    by (simp add: tims_write_def sys_send_def Let_def kHeadLen_def shift_def gdos_header_def
        kGdosMailbox_def) (simp add: gdos_payload_def)
next
  case False
  then show ?thesis by (auto simp: tims_write_def)
qed

definition ex_gdos_sink :: tims_sink where
  "ex_gdos_sink = \<lparr>tm_sock = closed_socket\<lparr>sk_fd := 3, sk_send_k := (\<lambda>_. 1000)\<rparr>, tm_src_id = 5,
     tm_min_level = Warn\<rparr>"

definition ex_gdos_entry :: log_entry where
  "ex_gdos_entry = \<lparr>le_timestamp = 0x0010000000000000, le_source_id = 5, le_level = Error, le_message = ''no''\<rparr>"

lemma gdos_error_type: "(scast (to_gdos_type Error) :: u32) = 0xFFFFFF83"
  by code_simp

theorem gdos_message_layout_witness:
  "sk_tx (tm_sock (tims_write (replicate 32 0xCD) ex_gdos_sink ex_gdos_entry)) =
     wire_header_bytes \<lparr>wh_msg_type = 0xFFFFFF83, wh_msg_size = 35, wh_timestamp = 0x0010000000000000,
       wh_seq_number = 0, wh_dest = 0x0C000000, wh_src = 5, wh_flags = 0\<rparr> @ [0x6E, 0x6F, 0]"
  using gdos_message_layout [of "replicate 32 0xCD" ex_gdos_sink ex_gdos_entry]
  by (simp add: ex_gdos_sink_def ex_gdos_entry_def closed_socket_def gdos_payload_def less_eq_log_level_def
      gdos_error_type del: to_gdos_type.simps)

text \<open>
  A router that receives such a message on a client connection takes the first sixteen
  bytes for a frame header, because the sink sends none: the body length it reads is the upper
  half of the time stamp. When that exceeds the router's limit, it closes the connection,
  changes nothing else and routes nothing.
\<close>

lemma gdos_message_closes_connection:
  assumes "length junk = 32" and "c < length (rt_connections r)"
    and "rt_max_msg_size r + 16 < unat (drop_bit 32 (le_timestamp e))"
  shows "handle_frame r c (read_frame (tims_head junk src_id e @ rest)) = set_socket r c (close (socket_of r c)) \<and>
    fh_dest (read_frame (tims_head junk src_id e @ rest)) = of_nat (32 + length (gdos_payload e))"
proof -
  let ?f = "read_frame (tims_head junk src_id e @ rest)"
  let ?hi = "ucast (drop_bit 32 (le_timestamp e)) :: u32"
  have f: "fh_dest ?f = of_nat (33 + length (le_message e))" "fh_msglen ?f = ?hi"
    by (simp_all add: tims_head_bytes [OF assms(1)] wire_header_bytes_def read_frame_def enc_u64_halves
        gdos_header_def del: of_nat_add)
  have "unat ?hi = unat (drop_bit 32 (le_timestamp e))"
  proof -
    have "unat (drop_bit 32 (le_timestamp e)) < 2 ^ 32"
    proof -
      have "unat (le_timestamp e) < 2 ^ 32 * 2 ^ 32" using unsigned_less [of "le_timestamp e"] by simp
      then have "unat (le_timestamp e) div 2 ^ 32 < 2 ^ 32" by (rule less_mult_imp_div_less)
      then have "drop_bit 32 (unat (le_timestamp e)) < 2 ^ 32" by (simp only: drop_bit_eq_div)
      then show ?thesis by (simp only: unat_drop_bit_eq)
    qed
    then show ?thesis by (simp add: unsigned_ucast_eq take_bit_nat_eq_self)
  qed
  with assms(3) have g: "16 < unat ?hi" and m: "rt_max_msg_size r < unat ?hi - 16" by simp_all
  then have "(16 :: u32) < ?hi" by (simp add: word_less_nat_alt)
  then have "unat (?hi - 16) = unat ?hi - 16" by (simp add: unat_sub order_less_imp_le)
  with \<open>16 < ?hi\<close> m have "rt_max_msg_size r < unat (frame_body_len ?f)"
    by (simp add: frame_body_len_def f)
  then show ?thesis
    using f by (simp add: handle_frame_def Let_def gdos_payload_def)
qed

section \<open>The clock of the terminal sink\<close>

text \<open>
  The four numbers of a terminal line are a clock reading: hours below 24, minutes and
  seconds below 60, milliseconds below 1000, and together they are the time stamp's milliseconds
  since the start of its day, for every 64-bit time stamp.
\<close>

lemma clock_reading:
  "case clock_fields ts of (hour, mins, sec, ms) \<Rightarrow>
     hour < 24 \<and> mins < 60 \<and> sec < 60 \<and> ms < 1000 \<and>
     ((unat hour * 60 + unat mins) * 60 + unat sec) * 1000 + unat ms = unat ts div 1000000 mod 86400000"
proof -
  define x where "x = unat ts div 1000000"
  have a: "x mod (1000 * 86400) = 1000 * (x div 1000 mod 86400) + x mod 1000" by (rule mod_mult2_eq)
  have b: "x div 1000 mod (60 * 1440) = 60 * (x div 1000 div 60 mod 1440) + x div 1000 mod 60"
    by (rule mod_mult2_eq)
  have c: "x div 1000 div 60 mod (60 * 24) = 60 * (x div 1000 div 60 div 60 mod 24) + x div 1000 div 60 mod 60"
    by (rule mod_mult2_eq)
  have "x div 1000 div 60 div 60 = x div 1000 div 3600" by (simp add: div_mult2_eq [symmetric])
  with a b c have "x mod 86400000 =
      ((x div 1000 div 3600 mod 24 * 60 + x div 1000 div 60 mod 60) * 60 + x div 1000 mod 60) * 1000 + x mod 1000"
    by simp
  moreover have "unat (ts div 1000000) = x" by (simp add: unat_div_distrib x_def)
  then have "unat (ts div 1000000 mod 1000) = x mod 1000" and "unat (ts div 1000000 div 1000) = x div 1000"
    by (simp_all add: unat_div_distrib unat_mod_distrib)
  moreover from this(2)
  have "unat (ts div 1000000 div 1000 mod 60) = x div 1000 mod 60"
    "unat (ts div 1000000 div 1000 div 60 mod 60) = x div 1000 div 60 mod 60"
    "unat (ts div 1000000 div 1000 div 3600 mod 24) = x div 1000 div 3600 mod 24"
    by (simp_all add: unat_div_distrib unat_mod_distrib)
  ultimately show ?thesis
    unfolding clock_fields_def Let_def prod.case word_less_nat_alt x_def [symmetric] by simp
qed

end
