(* ===== verification/Ownership.thy ===== *)
theory Ownership
  imports Prelude
begin

text \<open>
  The RAII discipline shared by the wrappers of \<open>platform/\<close>: an object owns kernel resources
  (threads, descriptors), its operations acquire and release them, and a move hands them to
  another object. The interface \<open>resource_owner\<close> states what a single operation promises; from
  it follows, for any number of objects and any sequence of operations, that every live resource
  has exactly one owner. It is interpreted on \<open>Thread\<close> and \<open>File\<close> of both back ends.
\<close>

text \<open>
  A program using such objects: \<open>F\<close> are default-constructed objects, \<open>U\<close> the operations on one
  object and \<open>B\<close> those on two, each with the kernel's state \<open>'w\<close>.
\<close>

inductive own_step ::
  "'h set \<Rightarrow> ('h \<Rightarrow> 'w \<Rightarrow> 'h \<times> 'w) set \<Rightarrow> ('h \<Rightarrow> 'h \<Rightarrow> 'w \<Rightarrow> 'h \<times> 'h \<times> 'w) set \<Rightarrow>
    'h list \<times> 'w \<Rightarrow> 'h list \<times> 'w \<Rightarrow> bool"
  for F U B where
  construct: "h \<in> F \<Longrightarrow> own_step F U B (hs, w) (hs @ [h], w)"
| operate: "f \<in> U \<Longrightarrow> i < length hs \<Longrightarrow> f (hs ! i) w = (h, w') \<Longrightarrow>
    own_step F U B (hs, w) (hs[i := h], w')"
| transfer: "g \<in> B \<Longrightarrow> i < length hs \<Longrightarrow> j < length hs \<Longrightarrow> i \<noteq> j \<Longrightarrow>
    g (hs ! i) (hs ! j) w = (h, k, w') \<Longrightarrow> own_step F U B (hs, w) (hs[i := h, j := k], w')"

abbreviation own_steps ::
  "'h set \<Rightarrow> ('h \<Rightarrow> 'w \<Rightarrow> 'h \<times> 'w) set \<Rightarrow> ('h \<Rightarrow> 'h \<Rightarrow> 'w \<Rightarrow> 'h \<times> 'h \<times> 'w) set \<Rightarrow>
    'h list \<times> 'w \<Rightarrow> 'h list \<times> 'w \<Rightarrow> bool" where
  "own_steps F U B \<equiv> (own_step F U B)\<^sup>*\<^sup>*"

text \<open>An object is constructed and operated on once.\<close>

lemma own_step_start:
  assumes "h \<in> F" and "f \<in> U" and "f h w = (h', w')"
  shows "own_steps F U B ([], w) ([h'], w')"
proof -
  have "own_step F U B ([], w) ([h], w)" using own_step.construct [OF assms(1), of U B "[]" w] by simp
  moreover have "own_step F U B ([h], w) ([h'], w')"
    using own_step.operate [OF assms(2), of 0 "[h]" w h' w' F B] assms(3) by simp
  ultimately show ?thesis by (meson rtranclp.rtrancl_into_rtrancl rtranclp.rtrancl_refl)
qed

text \<open>Every live resource is owned by exactly one object, and nothing else is owned.\<close>

definition uniquely_owned :: "('h \<Rightarrow> 'r set) \<Rightarrow> 'r set \<Rightarrow> 'h list \<Rightarrow> bool" where
  "uniquely_owned owned live hs \<longleftrightarrow>
     (\<forall>r. r \<in> live \<longleftrightarrow> (\<exists>i < length hs. r \<in> owned (hs ! i))) \<and>
     (\<forall>i < length hs. \<forall>j < length hs. i \<noteq> j \<longrightarrow> owned (hs ! i) \<inter> owned (hs ! j) = {})"

lemma uniquely_owned_subset:
  "uniquely_owned owned live hs \<Longrightarrow> i < length hs \<Longrightarrow> owned (hs ! i) \<subseteq> live"
  by (auto simp: uniquely_owned_def)

lemma uniquely_owned_disjoint:
  "uniquely_owned owned live hs \<Longrightarrow> i < length hs \<Longrightarrow> j < length hs \<Longrightarrow> i \<noteq> j \<Longrightarrow>
     owned (hs ! i) \<inter> owned (hs ! j) = {}"
  by (auto simp: uniquely_owned_def)

lemma uniquely_owned_append:
  assumes "uniquely_owned owned live hs" and "owned h = {}"
  shows "uniquely_owned owned live (hs @ [h])"
  using assms by (auto simp: uniquely_owned_def nth_append less_Suc_eq)

lemma uniquely_owned_update:
  assumes u: "uniquely_owned owned live hs" and i: "i < length hs"
    and live': "live' = (live - owned (hs ! i)) \<union> owned h"
    and fresh: "owned h \<inter> (live - owned (hs ! i)) = {}"
  shows "uniquely_owned owned live' (hs[i := h])"
proof -
  have "r \<in> live' \<longleftrightarrow> (\<exists>k < length (hs[i := h]). r \<in> owned (hs[i := h] ! k))" for r
  proof
    assume "r \<in> live'"
    then consider "r \<in> owned h" | "r \<in> live" "r \<notin> owned (hs ! i)" using live' by blast
    then show "\<exists>k < length (hs[i := h]). r \<in> owned (hs[i := h] ! k)"
    proof cases
      case 1
      then show ?thesis using i by (intro exI [of _ i]) simp
    next
      case 2
      then obtain k where "k < length hs" "r \<in> owned (hs ! k)" "k \<noteq> i"
        using u by (auto simp: uniquely_owned_def)
      then show ?thesis by (intro exI [of _ k]) simp
    qed
  next
    assume "\<exists>k < length (hs[i := h]). r \<in> owned (hs[i := h] ! k)"
    then obtain k where "k < length hs" "r \<in> owned (hs[i := h] ! k)" by auto
    then show "r \<in> live'"
      using uniquely_owned_subset [OF u, of k] uniquely_owned_disjoint [OF u i, of k] i
      by (cases "k = i") (auto simp: live')
  qed
  moreover have "owned (hs[i := h] ! k) \<inter> owned (hs[i := h] ! m) = {}"
    if "k < length hs" "m < length hs" "k \<noteq> m" for k m
    using that i fresh uniquely_owned_disjoint [OF u, of k m]
      uniquely_owned_subset [OF u, of k] uniquely_owned_subset [OF u, of m]
      uniquely_owned_disjoint [OF u i, of k] uniquely_owned_disjoint [OF u i, of m]
    by (cases "k = i"; cases "m = i") auto
  ultimately show ?thesis unfolding uniquely_owned_def by simp
qed

locale resource_owner =
  fixes owned :: "'h \<Rightarrow> 'r set" and live :: "'w \<Rightarrow> 'r set" and F :: "'h set"
    and U :: "('h \<Rightarrow> 'w \<Rightarrow> 'h \<times> 'w) set" and B :: "('h \<Rightarrow> 'h \<Rightarrow> 'w \<Rightarrow> 'h \<times> 'h \<times> 'w) set"
  assumes new_owns_nothing: "h \<in> F \<Longrightarrow> owned h = {}"
    and operation: "f \<in> U \<Longrightarrow> f h w = (h', w') \<Longrightarrow> owned h \<subseteq> live w \<Longrightarrow>
      live w' = (live w - owned h) \<union> owned h' \<and> owned h' \<inter> (live w - owned h) = {}"
    and moved: "g \<in> B \<Longrightarrow> g h k w = (h', k', w') \<Longrightarrow> owned h \<subseteq> live w \<Longrightarrow> owned h \<inter> owned k = {} \<Longrightarrow>
      live w' = live w - owned h \<and> owned h' = owned k \<and> owned k' = {}"
begin

lemma step_owned:
  assumes "own_step F U B (hs, w) (hs', w')" and u: "uniquely_owned owned (live w) hs"
  shows "uniquely_owned owned (live w') hs'"
  using assms(1)
proof (cases rule: own_step.cases)
  case (construct h)
  with u show ?thesis by (simp add: uniquely_owned_append new_owns_nothing)
next
  case (operate f i h)
  with uniquely_owned_subset [OF u, of i] operation [of f "hs ! i" w h w'] u
  show ?thesis by (simp add: uniquely_owned_update)
next
  case (transfer g i j h k)
  note sub = uniquely_owned_subset [OF u]
  have dis: "owned (hs ! i) \<inter> owned (hs ! j) = {}"
    using uniquely_owned_disjoint [OF u] transfer by blast
  with moved [of g "hs ! i" "hs ! j" w h k w'] transfer sub
  have m: "live w' = live w - owned (hs ! i)" "owned h = owned (hs ! j)" "owned k = {}" by auto
  have "uniquely_owned owned (live w - owned (hs ! j)) (hs[j := k])"
    by (rule uniquely_owned_update [OF u]) (use transfer m in auto)
  then have "uniquely_owned owned (live w') (hs[j := k, i := h])"
  proof (rule uniquely_owned_update)
    show "i < length (hs[j := k])" using transfer by simp
    show "live w' = live w - owned (hs ! j) - owned (hs[j := k] ! i) \<union> owned h"
      using transfer m dis sub [of j] by auto
    show "owned h \<inter> (live w - owned (hs ! j) - owned (hs[j := k] ! i)) = {}" using m by auto
  qed
  moreover have "hs' = hs[j := k, i := h]" using transfer by (simp add: list_update_swap)
  ultimately show ?thesis by simp
qed

theorem always_uniquely_owned:
  assumes "own_steps F U B ([], w) (hs, w')" and "live w = {}"
  shows "uniquely_owned owned (live w') hs"
proof -
  have "uniquely_owned owned (live (snd s)) (fst s)" if "own_steps F U B ([], w) s" for s
    using that
  proof (induction rule: rtranclp_induct)
    case base
    then show ?case using assms(2) by (simp add: uniquely_owned_def)
  next
    case (step s t)
    then show ?case using step_owned [of "fst s" "snd s" "fst t" "snd t"] by simp
  qed
  from this [OF assms(1)] show ?thesis by simp
qed

text \<open>Once every object has given up what it owned, nothing is left behind.\<close>

lemma all_released:
  assumes "own_steps F U B ([], w) (hs, w')" and "live w = {}" and "\<forall>h \<in> set hs. owned h = {}"
  shows "live w' = {}"
proof -
  have "\<forall>i < length hs. owned (hs ! i) = {}" using assms(3) by simp
  with always_uniquely_owned [OF assms(1,2)] show ?thesis by (auto simp: uniquely_owned_def)
qed

end

end
