(* ===== verification/File_Io.thy ===== *)
theory File_Io
  imports Ownership
begin

text \<open>
  \<open>File\<close> of \<open>include/corerat/platform/\<close>, both back ends. The kernel's part is its descriptor
  table: a new descriptor is the lowest unused number, as POSIX prescribes, and \<open>fd_closed\<close>
  records the calls of \<open>close(2)\<close> in order. Whether \<open>open(2)\<close> and the creation of an EVL proxy
  succeed, and what a transfer returns, are parameters.
\<close>

section \<open>The descriptor table\<close>

record file_os =
  fd_open :: "int list"
  fd_other :: "int list"
  fd_closed :: "int list"

definition live_fds :: "file_os \<Rightarrow> int set" where
  "live_fds w = set (fd_open w)"

definition lowest_free :: "int list \<Rightarrow> int" where
  "lowest_free used = int (hd (filter (\<lambda>n. int n \<notin> set used) [0..<Suc (length used)]))"

definition sys_new_fd :: "file_os \<Rightarrow> int \<times> file_os" where
  "sys_new_fd w = (let fd = lowest_free (fd_open w @ fd_other w) in (fd, w\<lparr>fd_open := fd # fd_open w\<rparr>))"

definition sys_close :: "int \<Rightarrow> file_os \<Rightarrow> file_os" where
  "sys_close fd w = w\<lparr>fd_open := removeAll fd (fd_open w), fd_closed := fd_closed w @ [fd]\<rparr>"

text \<open>\<open>open(2)\<close>: \<open>err\<close> is zero on success, else the error number it fails with.\<close>

definition sys_open :: "int \<Rightarrow> file_os \<Rightarrow> int \<times> file_os" where
  "sys_open err w = (if err = 0 then sys_new_fd w else (-1, w))"

text \<open>The transfers a file asks the kernel for.\<close>

datatype io_call = C_write int bytes | C_read int nat | C_oob_write int bytes | C_oob_read int nat
  | C_pwrite int bytes int | C_pread int nat int | C_lseek int int int | C_fsync int

section \<open>The standard back end\<close>

record std_file =
  sf_fd :: int

definition std_file_new :: std_file where
  "std_file_new = \<lparr>sf_fd = -1\<rparr>"

definition std_close :: "std_file \<Rightarrow> file_os \<Rightarrow> std_file \<times> file_os" where
  "std_close f w = (if sf_fd f \<ge> 0 then (f\<lparr>sf_fd := -1\<rparr>, sys_close (sf_fd f) w) else (f, w))"

definition std_open :: "int \<Rightarrow> std_file \<Rightarrow> file_os \<Rightarrow> bool \<times> std_file \<times> file_os" where
  "std_open err f w =
     (case std_close f w of (f1, w1) \<Rightarrow>
      case sys_open err w1 of (fd, w2) \<Rightarrow> (fd \<ge> 0, f1\<lparr>sf_fd := fd\<rparr>, w2))"

definition std_is_open :: "std_file \<Rightarrow> bool" where
  "std_is_open f \<longleftrightarrow> sf_fd f \<ge> 0"

definition std_file_move_construct :: "std_file \<Rightarrow> std_file \<times> std_file" where
  "std_file_move_construct other = (other, other\<lparr>sf_fd := -1\<rparr>)"

definition std_file_move_assign ::
  "std_file \<Rightarrow> std_file \<Rightarrow> file_os \<Rightarrow> std_file \<times> std_file \<times> file_os" where
  "std_file_move_assign f other w =
     (case std_close f w of (f1, w1) \<Rightarrow> (f1\<lparr>sf_fd := sf_fd other\<rparr>, other\<lparr>sf_fd := -1\<rparr>, w1))"

definition std_write :: "(io_call \<Rightarrow> 'r) \<Rightarrow> std_file \<Rightarrow> bytes \<Rightarrow> 'r" where
  "std_write K f buf = K (C_write (sf_fd f) buf)"

definition std_read :: "(io_call \<Rightarrow> 'r) \<Rightarrow> std_file \<Rightarrow> nat \<Rightarrow> 'r" where
  "std_read K f n = K (C_read (sf_fd f) n)"

definition std_pwrite :: "(io_call \<Rightarrow> 'r) \<Rightarrow> std_file \<Rightarrow> bytes \<Rightarrow> int \<Rightarrow> 'r" where
  "std_pwrite K f buf off = K (C_pwrite (sf_fd f) buf off)"

definition std_pread :: "(io_call \<Rightarrow> 'r) \<Rightarrow> std_file \<Rightarrow> nat \<Rightarrow> int \<Rightarrow> 'r" where
  "std_pread K f n off = K (C_pread (sf_fd f) n off)"

definition std_seek :: "(io_call \<Rightarrow> 'r) \<Rightarrow> std_file \<Rightarrow> int \<Rightarrow> int \<Rightarrow> 'r" where
  "std_seek K f off whence = K (C_lseek (sf_fd f) off whence)"

definition std_sync :: "(io_call \<Rightarrow> 'r) \<Rightarrow> std_file \<Rightarrow> 'r" where
  "std_sync K f = K (C_fsync (sf_fd f))"

section \<open>The EVL back end\<close>

record evl_file =
  ef_fd :: int
  ef_proxy :: int

record file_config =
  fc_proxy_buf_size :: u64

definition default_file_config :: file_config where
  "default_file_config = \<lparr>fc_proxy_buf_size = 65536\<rparr>"

definition evl_file_new :: evl_file where
  "evl_file_new = \<lparr>ef_fd = -1, ef_proxy = -1\<rparr>"

definition evl_close :: "evl_file \<Rightarrow> file_os \<Rightarrow> evl_file \<times> file_os" where
  "evl_close f w =
     (case (if ef_proxy f \<ge> 0 then (f\<lparr>ef_proxy := -1\<rparr>, sys_close (ef_proxy f) w) else (f, w)) of
      (f1, w1) \<Rightarrow> if ef_fd f1 \<ge> 0 then (f1\<lparr>ef_fd := -1\<rparr>, sys_close (ef_fd f1) w1) else (f1, w1))"

datatype clone_flag = CLONE_PRIVATE | CLONE_INPUT | CLONE_OUTPUT

text \<open>The direction of the proxy, from the access mode bits of \<open>open(2)\<close>.\<close>

definition proxy_flags :: "u32 \<Rightarrow> clone_flag list" where
  "proxy_flags flags =
     (let acc = flags AND 3
      in if acc = 0 then [CLONE_PRIVATE, CLONE_INPUT]
         else if acc = 1 then [CLONE_PRIVATE, CLONE_OUTPUT]
         else [CLONE_PRIVATE, CLONE_INPUT, CLONE_OUTPUT])"

text \<open>
  \<open>proxy\<close> is the EVL core's answer to the creation of a proxy with the given buffer size and
  flags: a negated error number, or zero when a descriptor is created. The result carries
  \<open>errno\<close>.
\<close>

definition evl_open ::
  "int \<Rightarrow> (u64 \<Rightarrow> clone_flag list \<Rightarrow> int) \<Rightarrow> u32 \<Rightarrow> file_config \<Rightarrow> evl_file \<Rightarrow> file_os
    \<Rightarrow> (bool \<times> int) \<times> evl_file \<times> file_os" where
  "evl_open err proxy flags config f w =
     (case evl_close f w of (f1, w1) \<Rightarrow>
      case sys_open err w1 of (fd, w2) \<Rightarrow>
        if fd < 0 then ((False, err), f1\<lparr>ef_fd := fd\<rparr>, w2)
        else let ans = proxy (fc_proxy_buf_size config) (proxy_flags flags)
             in if ans < 0 then ((False, - ans), f1\<lparr>ef_fd := -1\<rparr>, sys_close fd w2)
                else case sys_new_fd w2 of (ret, w3) \<Rightarrow>
                       ((True, 0), f1\<lparr>ef_fd := fd, ef_proxy := ret\<rparr>, w3))"

definition evl_is_open :: "evl_file \<Rightarrow> bool" where
  "evl_is_open f \<longleftrightarrow> ef_fd f \<ge> 0"

definition evl_file_move_construct :: "evl_file \<Rightarrow> evl_file \<times> evl_file" where
  "evl_file_move_construct other = (other, other\<lparr>ef_fd := -1, ef_proxy := -1\<rparr>)"

definition evl_file_move_assign ::
  "evl_file \<Rightarrow> evl_file \<Rightarrow> file_os \<Rightarrow> evl_file \<times> evl_file \<times> file_os" where
  "evl_file_move_assign f other w =
     (case evl_close f w of (f1, w1) \<Rightarrow>
        (f1\<lparr>ef_fd := ef_fd other, ef_proxy := ef_proxy other\<rparr>, other\<lparr>ef_fd := -1, ef_proxy := -1\<rparr>, w1))"

definition evl_write :: "(io_call \<Rightarrow> 'r) \<Rightarrow> bool \<Rightarrow> evl_file \<Rightarrow> bytes \<Rightarrow> 'r" where
  "evl_write K inband f buf =
     (if \<not> inband then K (C_oob_write (ef_proxy f) buf) else K (C_write (ef_fd f) buf))"

definition evl_read :: "(io_call \<Rightarrow> 'r) \<Rightarrow> bool \<Rightarrow> evl_file \<Rightarrow> nat \<Rightarrow> 'r" where
  "evl_read K inband f n =
     (if \<not> inband then K (C_oob_read (ef_proxy f) n) else K (C_read (ef_fd f) n))"

definition evl_pwrite :: "(io_call \<Rightarrow> 'r) \<Rightarrow> evl_file \<Rightarrow> bytes \<Rightarrow> int \<Rightarrow> 'r" where
  "evl_pwrite K f buf off = K (C_pwrite (ef_fd f) buf off)"

definition evl_pread :: "(io_call \<Rightarrow> 'r) \<Rightarrow> evl_file \<Rightarrow> nat \<Rightarrow> int \<Rightarrow> 'r" where
  "evl_pread K f n off = K (C_pread (ef_fd f) n off)"

definition evl_seek :: "(io_call \<Rightarrow> 'r) \<Rightarrow> evl_file \<Rightarrow> int \<Rightarrow> int \<Rightarrow> 'r" where
  "evl_seek K f off whence = K (C_lseek (ef_fd f) off whence)"

definition evl_sync :: "(io_call \<Rightarrow> 'r) \<Rightarrow> evl_file \<Rightarrow> 'r" where
  "evl_sync K f = K (C_fsync (ef_fd f))"

section \<open>Descriptor ownership\<close>

lemma lowest_free_unused: "lowest_free used \<notin> set used" "0 \<le> lowest_free used"
proof -
  let ?xs = "filter (\<lambda>n. int n \<notin> set used) [0..<Suc (length used)]"
  have "?xs \<noteq> []"
  proof
    assume "?xs = []"
    then have "int ` {0..<Suc (length used)} \<subseteq> set used"
      by (auto simp: filter_empty_conv simp del: upt_Suc)
    then have "card (int ` {0..<Suc (length used)}) \<le> card (set used)" by (intro card_mono) auto
    then show False using card_length [of used] by (simp add: card_image)
  qed
  then have "hd ?xs \<in> set ?xs" by (rule hd_in_set)
  then show "lowest_free used \<notin> set used" by (simp add: lowest_free_def del: upt_Suc)
  show "0 \<le> lowest_free used" by (simp add: lowest_free_def)
qed

lemma new_fd:
  assumes "sys_new_fd w = (fd, w')"
  shows "0 \<le> fd" "fd \<notin> live_fds w" "live_fds w' = insert fd (live_fds w)"
  using assms lowest_free_unused [of "fd_open w @ fd_other w"]
  by (auto simp: sys_new_fd_def live_fds_def Let_def)

lemma live_close [simp]: "live_fds (sys_close fd w) = live_fds w - {fd}"
  by (simp add: live_fds_def sys_close_def)

definition std_file_owned :: "std_file \<Rightarrow> int set" where
  "std_file_owned f = (if sf_fd f \<ge> 0 then {sf_fd f} else {})"

definition evl_file_owned :: "evl_file \<Rightarrow> int set" where
  "evl_file_owned f = (if ef_fd f \<ge> 0 then {ef_fd f} else {}) \<union> (if ef_proxy f \<ge> 0 then {ef_proxy f} else {})"

definition std_file_ops :: "(std_file \<Rightarrow> file_os \<Rightarrow> std_file \<times> file_os) set" where
  "std_file_ops = range (\<lambda>err f w. snd (std_open err f w)) \<union> {std_close}"

definition evl_file_ops :: "(evl_file \<Rightarrow> file_os \<Rightarrow> evl_file \<times> file_os) set" where
  "evl_file_ops = range (\<lambda>(err, proxy, flags, config) f w. snd (evl_open err proxy flags config f w)) \<union> {evl_close}"

lemma std_close_owned:
  "std_file_owned (fst (std_close f w)) = {}" "live_fds (snd (std_close f w)) = live_fds w - std_file_owned f"
  by (simp_all add: std_close_def std_file_owned_def)

lemma evl_close_owned:
  "evl_file_owned (fst (evl_close f w)) = {}" "live_fds (snd (evl_close f w)) = live_fds w - evl_file_owned f"
  by (auto simp: evl_close_def evl_file_owned_def)

lemma std_open_owned:
  assumes "std_open err f w = (ok, f', w')"
  shows "live_fds w' = (live_fds w - std_file_owned f) \<union> std_file_owned f'"
    and "std_file_owned f' \<inter> (live_fds w - std_file_owned f) = {}" and "ok \<longleftrightarrow> std_is_open f'"
proof -
  obtain f1 w1 where c: "std_close f w = (f1, w1)" by force
  have l: "live_fds w1 = live_fds w - std_file_owned f" using std_close_owned(2) [of f w] c by simp
  obtain fd w2 where o: "sys_open err w1 = (fd, w2)" by force
  then have r: "ok = (fd \<ge> 0)" "sf_fd f' = fd" "w' = w2"
    using assms c by (auto simp: std_open_def)
  show "live_fds w' = (live_fds w - std_file_owned f) \<union> std_file_owned f'"
    and "std_file_owned f' \<inter> (live_fds w - std_file_owned f) = {}" and "ok \<longleftrightarrow> std_is_open f'"
    using o l r new_fd [of w1 fd w2]
    by (auto simp: sys_open_def std_file_owned_def std_is_open_def split: if_splits)
qed

lemma evl_open_owned:
  assumes "evl_open err proxy flags config f w = (res, f', w')"
  shows "live_fds w' = (live_fds w - evl_file_owned f) \<union> evl_file_owned f'"
    and "evl_file_owned f' \<inter> (live_fds w - evl_file_owned f) = {}"
    and "fst res \<longleftrightarrow> evl_is_open f'" and "\<not> fst res \<Longrightarrow> evl_file_owned f' = {}"
proof -
  obtain f1 w1 where c: "evl_close f w = (f1, w1)" by force
  have l: "live_fds w1 = live_fds w - evl_file_owned f" using evl_close_owned(2) [of f w] c by simp
  have p: "ef_proxy f1 < 0" using c by (auto simp: evl_close_def split: if_splits)
  obtain fd w2 where o: "sys_open err w1 = (fd, w2)" by force
  obtain ret w3 where n: "sys_new_fd w2 = (ret, w3)" by force
  let ?ans = "proxy (fc_proxy_buf_size config) (proxy_flags flags)"
  consider (fail) "fd < 0" "res = (False, err)" "f' = f1\<lparr>ef_fd := fd\<rparr>" "w' = w2"
    | (proxy) "0 \<le> fd" "?ans < 0" "res = (False, - ?ans)" "f' = f1\<lparr>ef_fd := -1\<rparr>" "w' = sys_close fd w2"
    | (opened) "0 \<le> fd" "res = (True, 0)" "f' = f1\<lparr>ef_fd := fd, ef_proxy := ret\<rparr>" "w' = w3"
    using assms c o n by (auto simp: evl_open_def Let_def not_less split: if_splits)
  then have "live_fds w' = live_fds w1 \<union> evl_file_owned f' \<and> evl_file_owned f' \<inter> live_fds w1 = {} \<and>
      (fst res \<longleftrightarrow> evl_is_open f') \<and> (\<not> fst res \<longrightarrow> evl_file_owned f' = {})"
  proof cases
    case fail
    with o new_fd(1) [of w1 fd w2] p show ?thesis
      by (auto simp: sys_open_def evl_file_owned_def evl_is_open_def split: if_splits)
  next
    case proxy
    with o new_fd [of w1 fd w2] p show ?thesis
      by (auto simp: sys_open_def evl_file_owned_def evl_is_open_def split: if_splits)
  next
    case opened
    with o new_fd [of w1 fd w2] new_fd [OF n] show ?thesis
      by (auto simp: sys_open_def evl_file_owned_def evl_is_open_def split: if_splits)
  qed
  with l show "live_fds w' = (live_fds w - evl_file_owned f) \<union> evl_file_owned f'"
    and "evl_file_owned f' \<inter> (live_fds w - evl_file_owned f) = {}"
    and "fst res \<longleftrightarrow> evl_is_open f'" and "\<not> fst res \<Longrightarrow> evl_file_owned f' = {}" by simp_all
qed

interpretation std_files: resource_owner std_file_owned live_fds "{std_file_new}" std_file_ops "{std_file_move_assign}"
proof
  fix h :: std_file assume "h \<in> {std_file_new}"
  then show "std_file_owned h = {}" by (simp add: std_file_new_def std_file_owned_def)
next
  fix f and h h' :: std_file and w w'
  assume "f \<in> std_file_ops" "f h w = (h', w')"
  then consider err ok where "std_open err h w = (ok, h', w')" | "std_close h w = (h', w')"
    by (fastforce simp: std_file_ops_def prod_eq_iff)
  then show "live_fds w' = live_fds w - std_file_owned h \<union> std_file_owned h' \<and>
      std_file_owned h' \<inter> (live_fds w - std_file_owned h) = {}"
    using std_open_owned std_close_owned [of h w] by cases (force, auto)
next
  fix g and h k h' k' :: std_file and w w'
  assume "g \<in> {std_file_move_assign}" "g h k w = (h', k', w')"
  then show "live_fds w' = live_fds w - std_file_owned h \<and> std_file_owned h' = std_file_owned k \<and> std_file_owned k' = {}"
    using std_close_owned [of h w]
    by (auto simp: std_file_move_assign_def std_file_owned_def split: prod.splits)
qed

interpretation evl_files: resource_owner evl_file_owned live_fds "{evl_file_new}" evl_file_ops "{evl_file_move_assign}"
proof
  fix h :: evl_file assume "h \<in> {evl_file_new}"
  then show "evl_file_owned h = {}" by (simp add: evl_file_new_def evl_file_owned_def)
next
  fix f and h h' :: evl_file and w w'
  assume "f \<in> evl_file_ops" "f h w = (h', w')"
  then consider err proxy flags config res where "evl_open err proxy flags config h w = (res, h', w')"
    | "evl_close h w = (h', w')"
    by (fastforce simp: evl_file_ops_def prod_eq_iff)
  then show "live_fds w' = live_fds w - evl_file_owned h \<union> evl_file_owned h' \<and>
      evl_file_owned h' \<inter> (live_fds w - evl_file_owned h) = {}"
  proof cases
    case 1
    then show ?thesis using evl_open_owned(1,2) [OF 1] by simp
  next
    case 2
    then show ?thesis using evl_close_owned [of h w] by auto
  qed
next
  fix g and h k h' k' :: evl_file and w w'
  assume "g \<in> {evl_file_move_assign}" "g h k w = (h', k', w')"
  then show "live_fds w' = live_fds w - evl_file_owned h \<and> evl_file_owned h' = evl_file_owned k \<and> evl_file_owned k' = {}"
    using evl_close_owned [of h w]
    by (auto simp: evl_file_move_assign_def evl_file_owned_def split: prod.splits)
qed


definition ex_file_os :: file_os where
  "ex_file_os = \<lparr>fd_open = [], fd_other = [0, 1, 2], fd_closed = []\<rparr>"


text \<open>The proxy is closed before the file it wraps.\<close>

lemma evl_close_order:
  "0 \<le> ef_fd f \<Longrightarrow> 0 \<le> ef_proxy f \<Longrightarrow>
     fd_closed (snd (evl_close f w)) = fd_closed w @ [ef_proxy f, ef_fd f]"
  by (simp add: evl_close_def sys_close_def)

text \<open>
  Opening an EVL file that cannot be opened, or whose proxy the EVL core refuses: the call
  reports failure with the error number of the step that failed, the object is closed and holds
  no descriptor, and of the descriptors of the process only those the object held before are
  gone.
\<close>

lemma failed_open_leaves_nothing:
  assumes "err \<noteq> 0 \<or> proxy (fc_proxy_buf_size config) (proxy_flags flags) < 0"
  shows "case evl_open err proxy flags config f w of ((ok, errno), f', w') \<Rightarrow>
    \<not> ok \<and> errno = (if err \<noteq> 0 then err else - proxy (fc_proxy_buf_size config) (proxy_flags flags)) \<and>
    \<not> evl_is_open f' \<and> evl_file_owned f' = {} \<and> live_fds w' = live_fds w - evl_file_owned f"
proof -
  obtain f1 w1 where c: "evl_close f w = (f1, w1)" by force
  obtain fd w2 where o: "sys_open err w1 = (fd, w2)" by force
  obtain ok errno f' w' where r: "evl_open err proxy flags config f w = ((ok, errno), f', w')"
    by (metis prod.exhaust)
  have "fd < 0 \<longleftrightarrow> err \<noteq> 0" using o new_fd(1) [of w1 fd w2] by (auto simp: sys_open_def split: if_splits)
  then have "\<not> ok" "errno = (if err \<noteq> 0 then err else - proxy (fc_proxy_buf_size config) (proxy_flags flags))"
    using assms r c o by (auto simp: evl_open_def Let_def split: if_splits)
  with evl_open_owned [OF r] r show ?thesis by simp
qed

text \<open>
  For a caller that is not out of band the EVL back end is the standard one: opened on equal
  descriptors, every transfer, positioned transfer, seek and sync asks the kernel for the same
  thing; out of band, sequential transfers go to the proxy only.
\<close>

lemma inband_io_equivalent:
  assumes "ef_fd e = sf_fd f"
  shows "evl_write K True e buf = std_write K f buf \<and> evl_read K True e n = std_read K f n \<and>
    evl_pwrite K e buf off = std_pwrite K f buf off \<and> evl_pread K e n off = std_pread K f n off \<and>
    evl_seek K e off whence = std_seek K f off whence \<and> evl_sync K e = std_sync K f \<and>
    evl_write K False e buf = K (C_oob_write (ef_proxy e) buf) \<and>
    evl_read K False e n = K (C_oob_read (ef_proxy e) n)"
  using assms
  by (simp add: evl_write_def std_write_def evl_read_def std_read_def evl_pwrite_def std_pwrite_def
      evl_pread_def std_pread_def evl_seek_def std_seek_def evl_sync_def std_sync_def)

end
