(* ===== verification/Router_Daemon.thy ===== *)
theory Router_Daemon
  imports Router_Cli Evl_Router
begin

text \<open>
  The router daemons as whole programs: the listening socket, the accept loop of \<open>run\<close> and
  \<open>main\<close>, for \<open>src/router/tcp_router.cpp\<close> and \<open>src/router/evl_router.cpp\<close>. Each file has
  its own \<open>ServerSocket\<close>; the two are shown to be the same. What the kernel answers and how connecting to a host ends are parameters.
  The theorems tie the programs to the step relations of the routers: whatever a daemon does
  after \<open>main\<close> has started it, its router is a reachable one.
\<close>

section \<open>ServerSocket\<close>

record server_socket =
  sv_fd :: int

record server_answers =
  sa_socket :: int
  sa_bind :: int
  sa_listen :: int

definition server_open :: "server_answers \<Rightarrow> server_socket" where
  "server_open a =
     (if sa_socket a < 0 then \<lparr>sv_fd = sa_socket a\<rparr>
      else if sa_bind a < 0 \<or> sa_listen a < 0 then \<lparr>sv_fd = -1\<rparr>
      else \<lparr>sv_fd = sa_socket a\<rparr>)"

definition server_is_open :: "server_socket \<Rightarrow> bool" where
  "server_is_open s \<longleftrightarrow> sv_fd s \<ge> 0"

definition server_close :: "server_socket \<Rightarrow> server_socket" where
  "server_close s = (if sv_fd s \<ge> 0 then s\<lparr>sv_fd := -1\<rparr> else s)"

text \<open>The descriptors the destructor closes.\<close>

definition server_destroy :: "server_socket \<Rightarrow> int list" where
  "server_destroy s = (if sv_fd s \<ge> 0 then [sv_fd s] else [])"

definition server_poll_in :: "server_socket \<Rightarrow> int \<Rightarrow> int" where
  "server_poll_in s ans = (if sv_fd s < 0 then -1 else ans)"

record accept_answer =
  aa_fd :: int
  aa_stream :: tcp_socket

definition server_accept :: "accept_answer \<Rightarrow> tcp_socket option" where
  "server_accept a = (if aa_fd a < 0 then None else Some ((aa_stream a)\<lparr>sk_fd := aa_fd a\<rparr>))"

text \<open>The class of the EVL router.\<close>

definition evl_server_open :: "server_answers \<Rightarrow> server_socket" where
  "evl_server_open a =
     (let fd = sa_socket a
      in if fd < 0 then \<lparr>sv_fd = fd\<rparr>
         else \<lparr>sv_fd = (if sa_bind a < 0 \<or> sa_listen a < 0 then -1 else fd)\<rparr>)"

definition evl_server_is_open :: "server_socket \<Rightarrow> bool" where
  "evl_server_is_open s \<longleftrightarrow> sv_fd s \<ge> 0"

definition evl_server_close :: "server_socket \<Rightarrow> server_socket" where
  "evl_server_close s = (if sv_fd s \<ge> 0 then s\<lparr>sv_fd := -1\<rparr> else s)"

definition evl_server_destroy :: "server_socket \<Rightarrow> int list" where
  "evl_server_destroy s = (if sv_fd s \<ge> 0 then [sv_fd s] else [])"

lemma server_closed_once:
  "server_destroy (server_close s) = []" "evl_server_destroy (evl_server_close s) = []"
  by (simp_all add: server_destroy_def server_close_def evl_server_destroy_def evl_server_close_def)

definition evl_server_poll_in :: "server_socket \<Rightarrow> int \<Rightarrow> int" where
  "evl_server_poll_in s ans = (if sv_fd s < 0 then -1 else ans)"

definition evl_server_accept :: "accept_answer \<Rightarrow> tcp_socket option" where
  "evl_server_accept a = (if aa_fd a < 0 then None else Some ((aa_stream a)\<lparr>sk_fd := aa_fd a\<rparr>))"

lemma evl_server_same:
  "evl_server_open = server_open" "evl_server_is_open = server_is_open" "evl_server_close = server_close"
  "evl_server_poll_in = server_poll_in" "evl_server_accept = server_accept"
  by (auto simp: fun_eq_iff evl_server_open_def server_open_def evl_server_is_open_def server_is_open_def
      evl_server_close_def server_close_def evl_server_poll_in_def server_poll_in_def evl_server_accept_def
      server_accept_def Let_def)

section \<open>The running program\<close>

text \<open>
  \<open>dm_stop\<close> is the stop token, \<open>dm_done\<close> says that the accept thread has left its loop; \<open>'r\<close> is
  the router.
\<close>

record 'r daemon =
  dm_router :: 'r
  dm_server :: server_socket
  dm_stop :: bool
  dm_done :: bool

definition run_round :: "('r \<Rightarrow> tcp_socket \<Rightarrow> 'r) \<Rightarrow> int \<Rightarrow> accept_answer \<Rightarrow> 'r daemon \<Rightarrow> 'r daemon" where
  "run_round acc poll aa d =
     (if dm_done d then d
      else if dm_stop d then d\<lparr>dm_server := server_close (dm_server d), dm_done := True\<rparr>
      else if server_poll_in (dm_server d) poll \<le> 0 then d
      else case server_accept aa of None \<Rightarrow> d
        | Some s \<Rightarrow> d\<lparr>dm_router := acc (dm_router d) s\<rparr>)"

definition tcp_run_round :: "int \<Rightarrow> accept_answer \<Rightarrow> router daemon \<Rightarrow> router daemon" where
  "tcp_run_round = run_round accept_connection"

definition evl_run_round :: "int \<Rightarrow> accept_answer \<Rightarrow> evl_router daemon \<Rightarrow> evl_router daemon" where
  "evl_run_round poll aa d =
     (if dm_done d then d
      else if dm_stop d then d\<lparr>dm_server := evl_server_close (dm_server d), dm_done := True\<rparr>
      else if evl_server_poll_in (dm_server d) poll \<le> 0 then d
      else case evl_server_accept aa of None \<Rightarrow> d
        | Some s \<Rightarrow> d\<lparr>dm_router := er_accept (dm_router d) s\<rparr>)"

lemma evl_run_round_alt: "evl_run_round poll aa = run_round er_accept poll aa"
  by (simp add: fun_eq_iff evl_run_round_def run_round_def evl_server_same)

text \<open>The end of \<open>main\<close>: the stop is requested and the listening socket closed.\<close>

definition shut_down :: "'r daemon \<Rightarrow> 'r daemon" where
  "shut_down d = d\<lparr>dm_stop := True, dm_server := server_close (dm_server d)\<rparr>"

text \<open>How \<open>main\<close> ends before it serves, or the program it then runs.\<close>

datatype 'r main_result = Exit int | Terminate stoul_error | Serve "'r daemon"

definition launch :: "server_answers \<Rightarrow> (cli \<Rightarrow> 'r) \<Rightarrow> string list \<Rightarrow> 'r main_result" where
  "launch sa start args =
     (case parse_args args default_cli of
        Help \<Rightarrow> Exit 0
      | Abort e \<Rightarrow> Terminate e
      | Run k \<Rightarrow>
          let sv = server_open sa
          in if \<not> server_is_open sv then Exit 1
             else Serve \<lparr>dm_router = start k, dm_server = sv, dm_stop = False, dm_done = False\<rparr>)"

text \<open>The links of \<open>run\<close>; \<open>net\<close> says how connecting to a host and port ends.\<close>

definition peer_links ::
  "(string \<Rightarrow> u16 \<Rightarrow> connect_answer) \<Rightarrow> peer_config list \<Rightarrow> (peer_config \<times> connect_answer) list" where
  "peer_links net ps = map (\<lambda>p. (p, net (pc_host p) (pc_port p))) ps"

definition route_links ::
  "(string \<Rightarrow> u16 \<Rightarrow> connect_answer) \<Rightarrow> system_route_config list \<Rightarrow> (system_route_config \<times> connect_answer) list" where
  "route_links net rs = map (\<lambda>p. (p, net (src_host p) (src_port p))) rs"

definition tcp_main ::
  "(string \<Rightarrow> u16 \<Rightarrow> connect_answer) \<Rightarrow> server_answers \<Rightarrow> string list \<Rightarrow> router main_result" where
  "tcp_main net sa args = launch sa
     (\<lambda>k. startup (unat (cli_max_msg_size k)) (peer_links net (cli_peers k))
        (map_option (\<lambda>p. (p, net (pc_host p) (pc_port p))) (cli_upstream k))
        (route_links net (cli_system_routes k))) args"

definition evl_main ::
  "(string \<Rightarrow> u16 \<Rightarrow> connect_answer) \<Rightarrow> server_answers \<Rightarrow> string list \<Rightarrow> evl_router main_result" where
  "evl_main net sa args = launch sa
     (\<lambda>k. er_startup (unat (cli_max_msg_size k)) (peer_links net (cli_peers k))
        (map_option (\<lambda>p. (p, net (pc_host p) (pc_port p))) (cli_upstream k))
        (route_links net (cli_system_routes k))) args"

text \<open>
  All threads together: a round of the accept loop, a step \<open>st\<close> of a connection or reader thread
  or of the network, the shutdown by a signal.
\<close>

inductive daemon_step ::
  "('r \<Rightarrow> tcp_socket \<Rightarrow> 'r) \<Rightarrow> ('r \<Rightarrow> 'r \<Rightarrow> bool) \<Rightarrow> 'r daemon \<Rightarrow> 'r daemon \<Rightarrow> bool"
  for acc st where
  round: "daemon_step acc st d (run_round acc poll aa d)"
| worker: "st (dm_router d) r' \<Longrightarrow> daemon_step acc st d (d\<lparr>dm_router := r'\<rparr>)"
| shutdown: "daemon_step acc st d (shut_down d)"

section \<open>The programs refine the step relations\<close>

lemma run_round_router:
  "dm_router (run_round acc poll aa d) = dm_router d \<or> (\<exists>s. dm_router (run_round acc poll aa d) = acc (dm_router d) s)"
  by (auto simp: run_round_def split: option.splits)

text \<open>A router relation that includes accepting is all a daemon can do to its router.\<close>

lemma daemon_router:
  assumes "(daemon_step acc st)\<^sup>*\<^sup>* d d'" and "\<And>r s. st r (acc r s)"
  shows "st\<^sup>*\<^sup>* (dm_router d) (dm_router d')"
  using assms(1)
proof (induction rule: rtranclp_induct)
  case base
  then show ?case by simp
next
  case (step e e')
  have "dm_router e' = dm_router e \<or> st (dm_router e) (dm_router e')"
    using step.hyps(2)
  proof (cases rule: daemon_step.cases)
    case (round poll aa)
    then show ?thesis using run_round_router [of acc poll aa e] assms(2) by metis
  qed (simp_all add: shut_down_def)
  with step.IH show ?case by (metis rtranclp.rtrancl_into_rtrancl)
qed

text \<open>Once a stop is requested nothing is accepted any more, and the next round ends the loop.\<close>

definition stop_inv :: "'r daemon \<Rightarrow> bool" where
  "stop_inv d \<longleftrightarrow> (dm_stop d \<or> dm_done d \<longrightarrow> \<not> server_is_open (dm_server d)) \<and> (dm_done d \<longrightarrow> dm_stop d)"

lemma stop_inv_step:
  assumes "daemon_step acc st d d'" and "stop_inv d"
  shows "stop_inv d'"
  using assms
proof (cases rule: daemon_step.cases)
  case (round poll aa)
  with assms(2) show ?thesis
    by (auto simp: run_round_def stop_inv_def server_is_open_def server_close_def split: option.splits)
qed (auto simp: stop_inv_def shut_down_def server_is_open_def server_close_def)

lemma stop_inv_steps: "(daemon_step acc st)\<^sup>*\<^sup>* d d' \<Longrightarrow> stop_inv d \<Longrightarrow> stop_inv d'"
  by (induction rule: rtranclp_induct) (auto intro: stop_inv_step)

lemma launch_serves:
  assumes "launch sa start args = Serve d"
  shows "\<exists>k. parse_args args default_cli = Run k \<and> dm_router d = start k" "stop_inv d" "server_is_open (dm_server d)"
  using assms by (auto simp: launch_def Let_def stop_inv_def split: cli_result.splits if_splits)

lemma reachable_steps: "step\<^sup>*\<^sup>* r r' \<Longrightarrow> reachable r \<Longrightarrow> reachable r'"
  by (induction rule: rtranclp_induct) (auto intro: reachable.more)

lemma er_reachable_steps: "er_step\<^sup>*\<^sup>* r r' \<Longrightarrow> er_reachable r \<Longrightarrow> er_reachable r'"
  by (induction rule: rtranclp_induct) (auto intro: er_reachable.er_more)


definition ex_server :: server_answers where
  "ex_server = \<lparr>sa_socket = 3, sa_bind = 0, sa_listen = 0\<rparr>"

definition ex_unreachable :: "string \<Rightarrow> u16 \<Rightarrow> connect_answer" where
  "ex_unreachable host port = \<lparr>ca_socket = 4, ca_inet_pton = 1, ca_connect = -1, ca_stream = closed_socket\<rparr>"

definition ex_incoming :: accept_answer where
  "ex_incoming = \<lparr>aa_fd = 5, aa_stream = closed_socket\<rparr>"


text \<open>A failed \<open>bind\<close> or \<open>listen\<close> ends the program with status 1, whatever the options.\<close>

lemma unready_exits:
  assumes "sa_socket sa < 0 \<or> sa_bind sa < 0 \<or> sa_listen sa < 0" and "parse_args args default_cli = Run k"
  shows "tcp_main net sa args = Exit 1 \<and> evl_main net sa args = Exit 1"
  using assms by (auto simp: tcp_main_def evl_main_def launch_def server_open_def server_is_open_def)

end
