(* ===== verification/Evl_Inband.thy ===== *)
theory Evl_Inband
  imports Prelude
begin

text \<open>
  \<open>InbandScope\<close> of \<open>ipc/evl/evl_backend.hpp\<close>: a scope in which a real-time thread may make
  ordinary system calls. The constructor silences the warning signal about leaving the
  out-of-band stage and switches the thread; the destructor switches back and restores the
  signal. The answers of the EVL core are parameters; a call that fails changes nothing.
\<close>

record stage =
  vt_inband :: bool
  vt_hmsig :: bool

record scope_answers =
  sw_self :: int
  sw_clear :: int
  sw_switch :: int

record inband_scope =
  is_restore_oob :: bool
  is_self_fd :: int
  is_restore_hmsig :: bool
  is_switched :: bool

definition scope_enter :: "scope_answers \<Rightarrow> stage \<Rightarrow> inband_scope \<times> stage" where
  "scope_enter a t =
     (let restore_oob = (\<not> vt_inband t);
          self_fd = (if restore_oob then sw_self a else -1);
          sc = \<lparr>is_restore_oob = restore_oob, is_self_fd = self_fd, is_restore_hmsig = False,
                is_switched = (\<not> restore_oob)\<rparr>
      in if \<not> restore_oob \<or> self_fd < 0 then (sc, t)
         else if sw_clear a \<noteq> 0 then (sc, t)
         else let t1 = t\<lparr>vt_hmsig := False\<rparr>;
                  sc1 = sc\<lparr>is_restore_hmsig := vt_hmsig t, is_switched := (sw_switch a = 0)\<rparr>;
                  t2 = (if sw_switch a = 0 then t1\<lparr>vt_inband := True\<rparr> else t1)
              in (sc1, if \<not> is_switched sc1 \<and> is_restore_hmsig sc1 then t2\<lparr>vt_hmsig := True\<rparr> else t2))"

text \<open>
  \<open>attach_this_thread\<close>: the name under which the thread asks to be attached, if it asks. A thread
  that is out of band makes no system call; the answer to the request is ignored.
\<close>

definition attach_this_thread :: "nat \<Rightarrow> stage \<Rightarrow> string option" where
  "attach_this_thread tid t = (if \<not> vt_inband t then None else Some (''corerat.'' @ decimal_nat tid))"

lemma attach_names_distinct:
  "attach_this_thread i s = Some n \<Longrightarrow> attach_this_thread j t = Some n \<Longrightarrow> i = j"
  by (auto simp: attach_this_thread_def decimal_nat_inject split: if_splits)

text \<open>\<open>back\<close> is the answer of the switch back to the out-of-band stage.\<close>

definition scope_exit :: "int \<Rightarrow> inband_scope \<Rightarrow> stage \<Rightarrow> stage" where
  "scope_exit back sc t =
     (let t1 = (if is_restore_oob sc \<and> is_switched sc \<and> back = 0 then t\<lparr>vt_inband := False\<rparr> else t)
      in if is_restore_hmsig sc then t1\<lparr>vt_hmsig := True\<rparr> else t1)"

text \<open>
  Whatever the EVL core answers on entry, inside the scope the thread is in band exactly when
  \<open>switched\<close> says so, and leaving the scope puts the thread back on its stage with its signal
  as before. A failed switch back keeps it in band with the signal restored.
\<close>

lemma inband_scope_restores:
  "case scope_enter a t of (sc, t1) \<Rightarrow>
     is_switched sc = vt_inband t1 \<and> scope_exit 0 sc t1 = t \<and>
     (back \<noteq> 0 \<longrightarrow> scope_exit back sc t1 = t\<lparr>vt_inband := vt_inband t1\<rparr>)"
  by (cases t) (auto simp: scope_enter_def scope_exit_def Let_def)

end
