(* ===== verification/Clock.thy ===== *)
theory Clock
  imports Prelude "HOL-Library.Signed_Division"
begin

text \<open>
  Durations and time stamps: \<open>platform/duration.hpp\<close> and the conversions, clocks and
  sleeping of \<open>platform/std/timestamp_impl.hpp\<close> and \<open>platform/evl/timestamp_impl.hpp\<close>. The two
  files repeat the conversions, so both copies are defined and shown to be the same functions. A
  \<open>Duration\<close> is a signed 64-bit count of nanoseconds; C++ leaves signed overflow undefined, so
  the count is an integer and \<open>in_i64\<close> says where the C++ value exists. C++ division truncates
  towards zero, which is \<open>sdiv\<close> and \<open>smod\<close>. Time stamps are unsigned and wrap.
\<close>

section \<open>Duration\<close>

record duration =
  dur_ns :: int

definition in_i64 :: "int \<Rightarrow> bool" where
  "in_i64 x \<longleftrightarrow> - (2 ^ 63) \<le> x \<and> x < 2 ^ 63"

definition nanoseconds :: "int \<Rightarrow> duration" where "nanoseconds v = \<lparr>dur_ns = v\<rparr>"
definition microseconds :: "int \<Rightarrow> duration" where "microseconds v = \<lparr>dur_ns = v * 1000\<rparr>"
definition milliseconds :: "int \<Rightarrow> duration" where "milliseconds v = \<lparr>dur_ns = v * 1000000\<rparr>"
definition seconds :: "int \<Rightarrow> duration" where "seconds v = \<lparr>dur_ns = v * 1000000000\<rparr>"
definition minutes :: "int \<Rightarrow> duration" where "minutes v = \<lparr>dur_ns = v * 60000000000\<rparr>"
definition hours :: "int \<Rightarrow> duration" where "hours v = \<lparr>dur_ns = v * 3600000000000\<rparr>"

definition dur_zero :: duration where "dur_zero = \<lparr>dur_ns = 0\<rparr>"

definition count_ns :: "duration \<Rightarrow> int" where "count_ns d = dur_ns d"
definition count_us :: "duration \<Rightarrow> int" where "count_us d = dur_ns d sdiv 1000"
definition count_ms :: "duration \<Rightarrow> int" where "count_ms d = dur_ns d sdiv 1000000"
definition count_s :: "duration \<Rightarrow> int" where "count_s d = dur_ns d sdiv 1000000000"

definition is_zero :: "duration \<Rightarrow> bool" where "is_zero d \<longleftrightarrow> dur_ns d = 0"
definition is_negative :: "duration \<Rightarrow> bool" where "is_negative d \<longleftrightarrow> dur_ns d < 0"
definition is_positive :: "duration \<Rightarrow> bool" where "is_positive d \<longleftrightarrow> dur_ns d > 0"

definition dur_plus :: "duration \<Rightarrow> duration \<Rightarrow> duration" where
  "dur_plus d e = \<lparr>dur_ns = dur_ns d + dur_ns e\<rparr>"

definition dur_minus :: "duration \<Rightarrow> duration \<Rightarrow> duration" where
  "dur_minus d e = \<lparr>dur_ns = dur_ns d - dur_ns e\<rparr>"

definition dur_neg :: "duration \<Rightarrow> duration" where
  "dur_neg d = \<lparr>dur_ns = - dur_ns d\<rparr>"

definition dur_times :: "duration \<Rightarrow> int \<Rightarrow> duration" where
  "dur_times d k = \<lparr>dur_ns = dur_ns d * k\<rparr>"

definition scalar_times :: "int \<Rightarrow> duration \<Rightarrow> duration" where
  "scalar_times k d = \<lparr>dur_ns = k * dur_ns d\<rparr>"

text \<open>The assigning forms: the object is updated and is the value of the expression.\<close>

definition dur_add_assign :: "duration \<Rightarrow> duration \<Rightarrow> duration" where
  "dur_add_assign this other = this\<lparr>dur_ns := dur_ns this + dur_ns other\<rparr>"

definition dur_sub_assign :: "duration \<Rightarrow> duration \<Rightarrow> duration" where
  "dur_sub_assign this other = this\<lparr>dur_ns := dur_ns this - dur_ns other\<rparr>"

text \<open>Division by a scalar, division and remainder by a duration; undefined for zero divisors.\<close>

definition dur_div :: "duration \<Rightarrow> int \<Rightarrow> duration" where
  "dur_div d k = \<lparr>dur_ns = dur_ns d sdiv k\<rparr>"

definition dur_ratio :: "duration \<Rightarrow> duration \<Rightarrow> int" where
  "dur_ratio d e = dur_ns d sdiv dur_ns e"

definition dur_mod :: "duration \<Rightarrow> duration \<Rightarrow> duration" where
  "dur_mod d e = \<lparr>dur_ns = dur_ns d smod dur_ns e\<rparr>"

definition dur_less :: "duration \<Rightarrow> duration \<Rightarrow> bool" where
  "dur_less d e \<longleftrightarrow> dur_ns d < dur_ns e"

text \<open>
  \<open>std::chrono\<close> durations: the count of the three periods the class converts to, and
  \<open>duration_cast\<close> from a duration of period \<open>num / den\<close> seconds to nanoseconds, which multiplies
  and divides by the reduced ratio of the two periods.
\<close>

definition to_chrono_ns :: "duration \<Rightarrow> int" where "to_chrono_ns d = dur_ns d"
definition to_chrono_us :: "duration \<Rightarrow> int" where "to_chrono_us d = dur_ns d sdiv 1000"
definition to_chrono_ms :: "duration \<Rightarrow> int" where "to_chrono_ms d = dur_ns d sdiv 1000000"

definition from_chrono :: "int \<Rightarrow> int \<Rightarrow> int \<Rightarrow> duration" where
  "from_chrono num den count =
     (let g = gcd (num * 1000000000) den
      in \<lparr>dur_ns = (count * (num * 1000000000 div g)) sdiv (den div g)\<rparr>)"

text \<open>The free functions that stand in for the \<open>std::chrono\<close> type names.\<close>

definition Nanoseconds :: "int \<Rightarrow> duration" where "Nanoseconds v = nanoseconds v"
definition Microseconds :: "int \<Rightarrow> duration" where "Microseconds v = microseconds v"
definition Milliseconds :: "int \<Rightarrow> duration" where "Milliseconds v = milliseconds v"
definition Seconds :: "int \<Rightarrow> duration" where "Seconds v = seconds v"
definition Minutes :: "int \<Rightarrow> duration" where "Minutes v = minutes v"
definition Hours :: "int \<Rightarrow> duration" where "Hours v = hours v"

record timespec =
  tv_sec :: int
  tv_nsec :: int

definition to_timespec :: "duration \<Rightarrow> timespec" where
  "to_timespec d = \<lparr>tv_sec = dur_ns d sdiv 1000000000, tv_nsec = dur_ns d smod 1000000000\<rparr>"

definition from_timespec :: "timespec \<Rightarrow> duration" where
  "from_timespec ts = \<lparr>dur_ns = tv_sec ts * 1000000000 + tv_nsec ts\<rparr>"

section \<open>Time stamps\<close>

type_synonym timestamp = u64

definition to_nanoseconds :: "duration \<Rightarrow> timestamp" where
  "to_nanoseconds d = word_of_int (count_ns d)"

definition from_nanoseconds :: "timestamp \<Rightarrow> duration" where
  "from_nanoseconds ns = nanoseconds (sint ns)"

definition milliseconds_to_ns :: "u64 \<Rightarrow> timestamp" where
  "milliseconds_to_ns ms = ms * 1000000"

definition microseconds_to_ns :: "u64 \<Rightarrow> timestamp" where
  "microseconds_to_ns us = us * 1000"

definition ns_to_milliseconds :: "timestamp \<Rightarrow> u64" where
  "ns_to_milliseconds ns = ns div 1000000"

definition ns_to_microseconds :: "timestamp \<Rightarrow> u64" where
  "ns_to_microseconds ns = ns div 1000"

definition diff :: "timestamp \<Rightarrow> timestamp \<Rightarrow> timestamp" where
  "diff t1 t2 = (if t1 > t2 then t1 - t2 else t2 - t1)"

definition is_within_tolerance :: "timestamp \<Rightarrow> timestamp \<Rightarrow> timestamp \<Rightarrow> bool" where
  "is_within_tolerance timestamp target tolerance_ns \<longleftrightarrow> diff timestamp target \<le> tolerance_ns"

text \<open>The copies of the EVL back end.\<close>

definition evl_to_nanoseconds :: "duration \<Rightarrow> timestamp" where
  "evl_to_nanoseconds d = word_of_int (count_ns d)"

definition evl_from_nanoseconds :: "timestamp \<Rightarrow> duration" where
  "evl_from_nanoseconds ns = nanoseconds (sint ns)"

definition evl_milliseconds_to_ns :: "u64 \<Rightarrow> timestamp" where
  "evl_milliseconds_to_ns ms = ms * 1000000"

definition evl_microseconds_to_ns :: "u64 \<Rightarrow> timestamp" where
  "evl_microseconds_to_ns us = us * 1000"

definition evl_ns_to_milliseconds :: "timestamp \<Rightarrow> u64" where
  "evl_ns_to_milliseconds ns = ns div 1000000"

definition evl_ns_to_microseconds :: "timestamp \<Rightarrow> u64" where
  "evl_ns_to_microseconds ns = ns div 1000"

definition evl_diff :: "timestamp \<Rightarrow> timestamp \<Rightarrow> timestamp" where
  "evl_diff t1 t2 = (if t1 > t2 then t1 - t2 else t2 - t1)"

definition evl_is_within_tolerance :: "timestamp \<Rightarrow> timestamp \<Rightarrow> timestamp \<Rightarrow> bool" where
  "evl_is_within_tolerance timestamp target tolerance_ns \<longleftrightarrow> evl_diff timestamp target \<le> tolerance_ns"

text \<open>Literals: the unsigned value is converted to \<open>int64_t\<close>, which wraps.\<close>

definition lit_ns :: "u64 \<Rightarrow> duration" where "lit_ns v = nanoseconds (sint v)"
definition lit_us :: "u64 \<Rightarrow> duration" where "lit_us v = microseconds (sint v)"
definition lit_ms :: "u64 \<Rightarrow> duration" where "lit_ms v = milliseconds (sint v)"
definition lit_s :: "u64 \<Rightarrow> duration" where "lit_s v = seconds (sint v)"

section \<open>Clocks\<close>

text \<open>
  The clocks of the standard back end; \<open>std_clocks\<close> is what they show: nanosecond counts for the
  two \<open>std::chrono\<close> clocks, the \<open>timespec\<close> of the POSIX ones or \<open>None\<close> where \<open>clock_gettime\<close>
  fails.
\<close>

datatype clock_source = SYSTEM_CLOCK | STEADY_CLOCK | HIGH_RES_CLOCK | REALTIME_CLOCK | MONOTONIC_CLOCK

record std_clocks =
  ck_system :: int
  ck_steady :: int
  ck_realtime :: "timespec option"
  ck_monotonic :: "timespec option"

definition system_clock_now :: "std_clocks \<Rightarrow> timestamp" where
  "system_clock_now ck = word_of_int (ck_system ck)"

definition steady_clock_now :: "std_clocks \<Rightarrow> timestamp" where
  "steady_clock_now ck = word_of_int (ck_steady ck)"

definition posix_clock_now :: "timespec option \<Rightarrow> std_clocks \<Rightarrow> timestamp" where
  "posix_clock_now clock_gettime ck =
     (case clock_gettime of
        Some ts \<Rightarrow> word_of_int (tv_sec ts) * 1000000000 + word_of_int (tv_nsec ts)
      | None \<Rightarrow> steady_clock_now ck)"

fun get_timestamp :: "clock_source \<Rightarrow> std_clocks \<Rightarrow> timestamp" where
  "get_timestamp SYSTEM_CLOCK ck = system_clock_now ck"
| "get_timestamp STEADY_CLOCK ck = steady_clock_now ck"
| "get_timestamp HIGH_RES_CLOCK ck = steady_clock_now ck"
| "get_timestamp REALTIME_CLOCK ck = posix_clock_now (ck_realtime ck) ck"
| "get_timestamp MONOTONIC_CLOCK ck = posix_clock_now (ck_monotonic ck) ck"

text \<open>The process-wide \<open>current_clock_source_\<close>, its setter, and \<open>now\<close> of both back ends.\<close>

record time_class =
  current_clock_source :: clock_source

definition time_class_init :: time_class where
  "time_class_init = \<lparr>current_clock_source = STEADY_CLOCK\<rparr>"

definition set_clock_source :: "clock_source \<Rightarrow> time_class \<Rightarrow> time_class" where
  "set_clock_source source t = t\<lparr>current_clock_source := source\<rparr>"

definition std_now :: "time_class \<Rightarrow> std_clocks \<Rightarrow> timestamp" where
  "std_now t ck = get_timestamp (current_clock_source t) ck"

definition evl_now :: "timespec \<Rightarrow> timestamp" where
  "evl_now ts = word_of_int (tv_sec ts) * 1000000000 + word_of_int (tv_nsec ts)"

section \<open>Sleeping\<close>

text \<open>
  What the sleeping calls ask of the system, in order. \<open>Sleep_for\<close> is \<open>std::this_thread::sleep_for\<close>
  with a signed count of nanoseconds, so an unsigned count of \<open>2^63\<close> or more turns negative.
  \<open>Usleep\<close> takes a \<open>useconds_t\<close> of 32 bits; \<open>usleep\<close> is what \<open>evl_usleep\<close> answers, and a thread
  without EVL attachment (\<open>EPERM\<close>) falls back to \<open>nanosleep\<close> after a message whose length is the
  one \<open>snprintf\<close> reported.
\<close>

datatype sleep_request =
    Sleep_for int
  | Usleep u32
  | Sleep_until timespec
  | Sleep_message string nat
  | Nanosleep timespec
  | Yield

definition EPERM :: int where "EPERM = 1"

definition std_sleep :: "duration \<Rightarrow> sleep_request list" where
  "std_sleep d = [Sleep_for (to_chrono_ns d)]"

definition std_sleep_ns :: "timestamp \<Rightarrow> sleep_request list" where
  "std_sleep_ns ns = [Sleep_for (sint ns)]"

definition std_sleep_until :: "timestamp \<Rightarrow> timestamp \<Rightarrow> sleep_request list" where
  "std_sleep_until now_ts target = (if target > now_ts then [Sleep_for (sint (target - now_ts))] else [])"

definition std_yield :: "sleep_request list" where "std_yield = [Yield]"

definition evl_sleep_until :: "timestamp \<Rightarrow> sleep_request list" where
  "evl_sleep_until target =
     [Sleep_until \<lparr>tv_sec = uint (target div 1000000000), tv_nsec = uint (target mod 1000000000)\<rparr>]"

definition usleep_message :: "timestamp \<Rightarrow> int \<Rightarrow> nat \<times> string" where
  "usleep_message ns r =
     snprintf 96 (''[corerat] evl_usleep('' @ decimal_nat (unat (ns div 1000)) @ '' us) failed: '' @
       decimal_int r @ '' (thread not OOB-attached)'' @ [char_of (10 :: nat)])"

definition evl_sleep_ns :: "(u32 \<Rightarrow> int) \<Rightarrow> timestamp \<Rightarrow> timestamp \<Rightarrow> sleep_request list" where
  "evl_sleep_ns usleep now_ts ns =
     (if ns = 0 then []
      else if ns \<le> 1000000000
      then (let r = usleep (ucast (ns div 1000))
            in [Usleep (ucast (ns div 1000))] @
               (if r \<noteq> 0
                then (if r = - EPERM
                      then (case usleep_message ns r of (n, ebuf) \<Rightarrow>
                        [Sleep_message ebuf n,
                         Nanosleep \<lparr>tv_sec = uint (ns div 1000000000), tv_nsec = uint (ns mod 1000000000)\<rparr>])
                      else [])
                else []))
      else evl_sleep_until (now_ts + ns))"

definition evl_sleep :: "(u32 \<Rightarrow> int) \<Rightarrow> timestamp \<Rightarrow> duration \<Rightarrow> sleep_request list" where
  "evl_sleep usleep now_ts d =
     (if is_zero d \<or> is_negative d then [] else evl_sleep_ns usleep now_ts (word_of_int (count_ns d)))"

definition evl_yield :: "sleep_request list" where "evl_yield = [Yield]"

section \<open>Lemmas\<close>

lemma smod_bounds:
  assumes "0 < (b::int)"
  shows "\<bar>a smod b\<bar> < b"
proof -
  have "\<bar>a smod b\<bar> \<le> \<bar>a\<bar> mod b"
    using assms by (auto simp: signed_modulo_int_def abs_mult sgn_if)
  also have "\<dots> < b" using assms by simp
  finally show ?thesis .
qed

lemma sdiv_smod: "a sdiv b * b + a smod b = (a::int)"
  by (rule sdiv_mult_smod_eq)

lemma sdiv_nonneg: "0 \<le> a \<Longrightarrow> 0 < b \<Longrightarrow> a sdiv b = a div (b::int)"
  by (cases "a = 0") (simp_all add: signed_divide_int_def)

lemma smod_nonneg: "0 \<le> a \<Longrightarrow> 0 < b \<Longrightarrow> a smod b = a mod (b::int)"
  by (cases "a = 0") (simp_all add: signed_modulo_int_def)

text \<open>
  Conversion to a \<open>timespec\<close> loses nothing: every duration, negative ones included, is
  recovered exactly, its nanosecond part stays below one second in magnitude, and for durations
  that are not negative the result is a valid POSIX time (no negative field).
\<close>

lemma timespec_roundtrip:
  "from_timespec (to_timespec d) = d \<and> \<bar>tv_nsec (to_timespec d)\<bar> < 1000000000 \<and>
    (is_negative d \<or> 0 \<le> tv_sec (to_timespec d) \<and> 0 \<le> tv_nsec (to_timespec d))"
  using sdiv_smod [of "dur_ns d" 1000000000] smod_bounds [of 1000000000 "dur_ns d"]
  by (auto simp: from_timespec_def to_timespec_def is_negative_def sdiv_nonneg smod_nonneg)

text \<open>
  \<open>diff\<close> is the distance of two time stamps: symmetric, never wrapping, equal to the
  absolute difference of the two numbers.
\<close>

lemma diff_distance: "uint (diff t1 t2) = \<bar>uint t1 - uint t2\<bar> \<and> diff t1 t2 = diff t2 t1"
proof -
  have "uint (diff t1 t2) = \<bar>uint t1 - uint t2\<bar>"
    by (cases "t2 < t1") (simp_all add: diff_def uint_minus_simple_alt [THEN iffD1] not_less
        word_less_def word_le_def uint_sub_lem [THEN iffD1])
  moreover have "diff t1 t2 = diff t2 t1" by (auto simp: diff_def)
  ultimately show ?thesis by simp
qed

text \<open>
  Milliseconds survive the trip through nanoseconds exactly below the wrap-around bound
  of 64 bits, and every duration in the range of its type survives the trip through a stamp.
\<close>

lemma unit_roundtrips:
  "(unat ms * 1000000 < 2 ^ 64 \<longrightarrow> ns_to_milliseconds (milliseconds_to_ns ms) = ms) \<and>
   (in_i64 (dur_ns d) \<longrightarrow> from_nanoseconds (to_nanoseconds d) = d)"
proof (intro conjI impI)
  assume "unat ms * 1000000 < 2 ^ 64"
  then have "unat (ms * 1000000) = unat ms * 1000000"
    by (simp add: unat_mult_lem [THEN iffD1])
  then have "unat (ms * 1000000 div 1000000) = unat ms"
    by (simp add: unat_div)
  then show "ns_to_milliseconds (milliseconds_to_ns ms) = ms"
    by (simp add: ns_to_milliseconds_def milliseconds_to_ns_def word_unat_eq_iff)
next
  assume "in_i64 (dur_ns d)"
  then show "from_nanoseconds (to_nanoseconds d) = d"
    by (simp add: from_nanoseconds_def to_nanoseconds_def nanoseconds_def count_ns_def in_i64_def
        sint_sbintrunc' signed_take_bit_int_eq_self)
qed

lemma word_of_int_i64:
  assumes "0 \<le> x" and "in_i64 x"
  shows "uint (word_of_int x :: u64) = x" and "sint (word_of_int x :: u64) = x"
  using assms by (simp_all add: in_i64_def uint_word_of_int sint_sbintrunc' signed_take_bit_int_eq_self)

text \<open>
  For a proper \<open>timespec\<close> whose instant fits 64 bits, \<open>now\<close> is that instant in nanoseconds, so
  both back ends agree on the monotonic clock and order instants alike; a POSIX clock that cannot
  be read falls back to the steady one.
\<close>

lemma now_exact:
  assumes "0 \<le> tv_sec ts" and "0 \<le> tv_nsec ts" and "tv_sec ts * 1000000000 + tv_nsec ts < 2 ^ 64"
  shows "uint (evl_now ts) = tv_sec ts * 1000000000 + tv_nsec ts"
    and "ck_monotonic ck = Some ts \<Longrightarrow> std_now (set_clock_source MONOTONIC_CLOCK t) ck = evl_now ts"
proof -
  have "evl_now ts = word_of_int (tv_sec ts * 1000000000 + tv_nsec ts)"
    by (simp add: evl_now_def)
  moreover have "uint (word_of_int x :: u64) = x" if "0 \<le> x" "x < 2 ^ 64" for x
    using that by (simp add: uint_word_of_int)
  ultimately show "uint (evl_now ts) = tv_sec ts * 1000000000 + tv_nsec ts"
    using assms by (metis add_nonneg_nonneg mult_nonneg_nonneg zero_le_numeral)
  show "ck_monotonic ck = Some ts \<Longrightarrow> std_now (set_clock_source MONOTONIC_CLOCK t) ck = evl_now ts"
    by (simp add: evl_now_def posix_clock_now_def std_now_def set_clock_source_def)
qed

lemma failed_clock_is_steady:
  "ck_monotonic ck = None \<Longrightarrow> std_now (set_clock_source MONOTONIC_CLOCK t) ck = std_now time_class_init ck"
  by (simp add: std_now_def set_clock_source_def time_class_init_def posix_clock_now_def)

text \<open>The two files agree on every conversion.\<close>

lemma evl_conversions_agree:
  "evl_to_nanoseconds = to_nanoseconds" "evl_from_nanoseconds = from_nanoseconds"
  "evl_milliseconds_to_ns = milliseconds_to_ns" "evl_microseconds_to_ns = microseconds_to_ns"
  "evl_ns_to_milliseconds = ns_to_milliseconds" "evl_ns_to_microseconds = ns_to_microseconds"
  "evl_diff = diff" "evl_is_within_tolerance = is_within_tolerance"
  by (simp_all add: fun_eq_iff evl_to_nanoseconds_def to_nanoseconds_def evl_from_nanoseconds_def
      from_nanoseconds_def evl_milliseconds_to_ns_def milliseconds_to_ns_def evl_microseconds_to_ns_def
      microseconds_to_ns_def evl_ns_to_milliseconds_def ns_to_milliseconds_def
      evl_ns_to_microseconds_def ns_to_microseconds_def evl_diff_def diff_def
      evl_is_within_tolerance_def is_within_tolerance_def)

text \<open>
  \<open>from_chrono\<close> takes back what the three conversions give, up to the part below their period, and
  is the plain product for the periods of whole nanoseconds.
\<close>

lemma from_chrono_unit:
  "from_chrono 1 1000000000 v = nanoseconds v" "from_chrono 1 1000000 v = microseconds v"
  "from_chrono 1 1000 v = milliseconds v" "from_chrono 1 1 v = seconds v"
  "from_chrono 60 1 v = minutes v" "from_chrono 3600 1 v = hours v"
proof -
  have one: "x sdiv 1 = (x :: int)" for x by (simp add: signed_divide_int_def sgn_mult_abs)
  have g: "gcd (1000000000 :: int) 1000000 = 1000000" "gcd (1000000000 :: int) 1000 = 1000"
    by (simp_all add: gcd_proj2_iff)
  show "from_chrono 1 1000000000 v = nanoseconds v" "from_chrono 1 1000000 v = microseconds v"
    "from_chrono 1 1000 v = milliseconds v" "from_chrono 1 1 v = seconds v"
    "from_chrono 60 1 v = minutes v" "from_chrono 3600 1 v = hours v"
    by (simp_all add: from_chrono_def Let_def one g nanoseconds_def microseconds_def milliseconds_def
        seconds_def minutes_def hours_def)
qed

lemma chrono_roundtrip:
  "from_chrono 1 1000000000 (to_chrono_ns d) = d"
  "dur_minus d (from_chrono 1 1000000 (to_chrono_us d)) = dur_mod d (microseconds 1)"
  "dur_minus d (from_chrono 1 1000 (to_chrono_ms d)) = dur_mod d (milliseconds 1)"
  using sdiv_smod [of "dur_ns d" 1000] sdiv_smod [of "dur_ns d" 1000000]
  by (simp_all add: from_chrono_unit to_chrono_ns_def to_chrono_us_def to_chrono_ms_def dur_minus_def
      dur_mod_def nanoseconds_def microseconds_def milliseconds_def algebra_simps)

text \<open>The operators form the expected group, the assigning forms being the plain ones.\<close>

lemma dur_algebra:
  "dur_plus d dur_zero = d" "dur_plus d (dur_neg d) = dur_zero" "dur_minus d e = dur_plus d (dur_neg e)"
  "scalar_times k d = dur_times d k" "dur_add_assign d e = dur_plus d e" "dur_sub_assign d e = dur_minus d e"
  "dur_ns e \<noteq> 0 \<Longrightarrow> dur_plus (dur_times e (dur_ratio d e)) (dur_mod d e) = d"
  using sdiv_smod [of "dur_ns d" "dur_ns e"]
  by (simp_all add: dur_plus_def dur_neg_def dur_minus_def scalar_times_def dur_times_def dur_zero_def
      dur_add_assign_def dur_sub_assign_def dur_ratio_def dur_mod_def mult.commute)

text \<open>
  The instant a request asks to be woken at, as a distance in nanoseconds from \<open>now\<close>.
\<close>

fun asked_ns :: "timestamp \<Rightarrow> sleep_request \<Rightarrow> int" where
  "asked_ns now_ts (Sleep_for n) = n"
| "asked_ns now_ts (Usleep us) = uint us * 1000"
| "asked_ns now_ts (Sleep_until ts) = dur_ns (from_timespec ts) - uint now_ts"
| "asked_ns now_ts (Nanosleep ts) = dur_ns (from_timespec ts)"
| "asked_ns now_ts (Sleep_message ebuf n) = 0"
| "asked_ns now_ts Yield = 0"

text \<open>
  An attached thread that sleeps for a positive duration asks EVL for one sleep of that duration,
  rounded down to a microsecond up to one second and exact above, as long as the deadline does
  not wrap; the standard back end always asks for the exact duration.
\<close>

lemma evl_sleep_asks:
  assumes "is_positive d" and "in_i64 (dur_ns d)" and "uint now_ts + dur_ns d < 2 ^ 64"
    and "\<And>us. usleep us = 0"
  shows "\<exists>q. evl_sleep usleep now_ts d = [q] \<and>
    asked_ns now_ts q = (if dur_ns d \<le> 1000000000 then dur_ns d div 1000 * 1000 else dur_ns d)"
proof -
  let ?w = "word_of_int (dur_ns d) :: u64"
  have w: "uint ?w = dur_ns d" and pos: "0 < dur_ns d"
    using assms word_of_int_i64 [of "dur_ns d"] by (simp_all add: is_positive_def)
  have nz: "?w \<noteq> 0" using w pos by (metis less_irrefl unsigned_0)
  have le: "?w \<le> 1000000000 \<longleftrightarrow> dur_ns d \<le> 1000000000" using w by (simp add: Word.word_le_def)
  have sleep: "evl_sleep usleep now_ts d = evl_sleep_ns usleep now_ts ?w"
    using pos by (simp add: evl_sleep_def is_zero_def is_negative_def count_ns_def)
  show ?thesis
  proof (cases "dur_ns d \<le> 1000000000")
    case True
    have "uint (ucast (?w div 1000) :: u32) = dur_ns d div 1000"
      using True pos by (simp add: uint_div_distrib w uint_word_of_int unsigned_ucast_eq take_bit_int_eq_self)
    then show ?thesis using True by (simp add: sleep evl_sleep_ns_def nz le Let_def assms(4))
  next
    case False
    have sum: "uint (now_ts + ?w) = uint now_ts + dur_ns d"
      using assms(3) by (simp add: uint_add_lem [THEN iffD1] w)
    have "asked_ns now_ts (Sleep_until \<lparr>tv_sec = uint ((now_ts + ?w) div 1000000000),
        tv_nsec = uint ((now_ts + ?w) mod 1000000000)\<rparr>) = dur_ns d"
      by (simp only: asked_ns.simps from_timespec_def) (simp add: uint_div_distrib uint_mod_distrib sum)
    then show ?thesis using False by (simp add: sleep evl_sleep_ns_def nz le evl_sleep_until_def)
  qed
qed

text \<open>
  A thread without attachment still sleeps up to one second, by \<open>nanosleep\<close> for the exact time and
  after a message that fits its buffer; above one second the only request is the
  \<open>evl_sleep_until\<close> that an unattached thread is refused, so it does not sleep at all.
\<close>

lemma usleep_message_fits:
  assumes "ns \<le> 1000000000"
  shows "fst (usleep_message ns (- EPERM)) < 96"
proof -
  have "unat ns \<le> 1000000000" using assms by (simp add: word_le_nat_alt)
  then have "length (decimal_nat (unat (ns div 1000))) \<le> 7"
    by (intro decimal_nat_length) (simp_all add: unat_div)
  moreover have "length (decimal_int (- EPERM)) = 2" by (simp add: decimal_int_def decimal_nat_def EPERM_def id_digits.simps)
  ultimately show ?thesis by (simp add: usleep_message_def snprintf_def)
qed

lemma unattached_sleep:
  assumes "ns \<noteq> 0" and "\<And>us. usleep us = - EPERM"
  shows "if ns \<le> 1000000000
    then \<exists>ebuf n q. evl_sleep_ns usleep now_ts ns = [Usleep (ucast (ns div 1000)), Sleep_message ebuf n, q] \<and>
           n < 96 \<and> asked_ns now_ts q = uint ns
    else evl_sleep_ns usleep now_ts ns = evl_sleep_until (now_ts + ns)"
proof -
  have "- EPERM \<noteq> 0" by (simp add: EPERM_def)
  moreover have "uint (ns div 1000000000) * 1000000000 + uint (ns mod 1000000000) = uint ns"
    by (simp add: uint_div_distrib uint_mod_distrib)
  ultimately show ?thesis using assms usleep_message_fits [of ns]
    by (auto simp: evl_sleep_ns_def Let_def from_timespec_def split: prod.splits)
qed

text \<open>
  The standard \<open>sleep_until\<close> of an instant less than \<open>2^63\<close> nanoseconds ahead ends at that
  instant, and does not sleep for one in the past.
\<close>

lemma std_sleep_until_asks:
  assumes "uint target - uint now_ts < 2 ^ 63"
  shows "std_sleep_until now_ts target = (if uint now_ts < uint target then [Sleep_for (uint target - uint now_ts)] else [])"
proof (cases "now_ts < target")
  case True
  then have "uint (target - now_ts) = uint target - uint now_ts"
    by (simp add: uint_sub_lem [THEN iffD1] word_less_def)
  then have "sint (target - now_ts) = uint target - uint now_ts"
    using assms True word_of_int_i64(2) [of "uint (target - now_ts)"] by (simp add: in_i64_def word_less_def)
  with True show ?thesis by (simp add: std_sleep_until_def word_less_def)
qed (simp add: std_sleep_until_def word_less_def)

end
