(* ===== verification/Tims_Backend.thy ===== *)
theory Tims_Backend
  imports Clock Wire_Message Tcp_Router_Props
begin

text \<open>
  The TiMS client back end, \<open>src/tims_backend.cpp\<close> and \<open>ipc/tims/tims_backend.hpp\<close>: a mailbox
  connected to the router on the local host. The answers of the kernel while connecting are an
  argument of \<open>initialize\<close>; the byte-order conversion of the \<open>sertial\<close> library is an argument
  of the receive functions. A null data pointer is \<open>None\<close>. Negative results of \<open>receive_raw\<close>
  are the negated Linux error numbers.
\<close>

record tims_mailbox =
  tm_config :: ipc_config
  tm_socket :: tcp_socket
  tm_initialized :: bool
  tm_messages_sent :: u64
  tm_messages_received :: u64
  tm_sequence_number :: u32

record tims_metadata =
  md_src :: u32
  md_dest :: u32
  md_seq_nr :: u32
  md_priority :: u8
  md_flags :: u8

section \<open>Construction and life cycle\<close>

definition new_tims_mailbox :: "ipc_config \<Rightarrow> tims_mailbox" where
  "new_tims_mailbox config = \<lparr>tm_config = config, tm_socket = closed_socket, tm_initialized = False,
     tm_messages_sent = 0, tm_messages_received = 0, tm_sequence_number = 0\<rparr>"

text \<open>Move construction: the new object and what is left of the old one.\<close>

definition tims_move :: "tims_mailbox \<Rightarrow> tims_mailbox \<times> tims_mailbox" where
  "tims_move other =
     (case move_construct (tm_socket other) of (s, s') \<Rightarrow>
        (other\<lparr>tm_socket := s\<rparr>, other\<lparr>tm_socket := s', tm_initialized := False\<rparr>))"

abbreviation tims_priority :: "tims_mailbox \<Rightarrow> u8" where
  "tims_priority mb \<equiv> ucast (cfg_priority (tm_config mb))"

definition watchdog_frame :: "tims_mailbox \<Rightarrow> bytes" where
  "watchdog_frame mb = frame_bytes (make_frame MSG_ROUTER_DISABLE_WATCHDOG 0
     (cfg_mailbox_id (tm_config mb)) (tims_priority mb) 0 0)"

definition reg_msg :: "tims_mailbox \<Rightarrow> bytes" where
  "reg_msg mb = frame_bytes (make_frame MSG_ROUTER_MBX_INIT_WITH_REPLY 0
       (cfg_mailbox_id (tm_config mb)) (tims_priority mb) 0 (of_nat sizeof_mbx_init))
     @ mbx_init_bytes \<lparr>mip_mbx = cfg_mailbox_id (tm_config mb)\<rparr>"

definition initialize :: "tims_mailbox \<Rightarrow> connect_answer \<Rightarrow> ipc_result \<times> tims_mailbox" where
  "initialize mb ans =
     (if tm_initialized mb then (SUCCESS, mb)
      else case connect (tm_socket mb) ans of (ok, s) \<Rightarrow>
        if \<not> ok then (ERROR_INIT, mb\<lparr>tm_socket := s\<rparr>)
        else case send_all s (watchdog_frame mb) of (ok1, s1) \<Rightarrow>
          if \<not> ok1 then (ERROR_INIT, mb\<lparr>tm_socket := close s1\<rparr>)
          else case send_all s1 (reg_msg mb) of (ok2, s2) \<Rightarrow>
            if \<not> ok2 then (ERROR_INIT, mb\<lparr>tm_socket := close s2\<rparr>)
            else case recv_all s2 sizeof_frame of (ok3, reply, s3) \<Rightarrow>
              if \<not> ok3 \<or> fh_type (read_frame reply) \<noteq> MSG_OK
              then (ERROR_INIT, mb\<lparr>tm_socket := close s3\<rparr>)
              else (SUCCESS, mb\<lparr>tm_socket := s3, tm_initialized := True\<rparr>))"

definition shutdown :: "tims_mailbox \<Rightarrow> tims_mailbox" where
  "shutdown mb = (if \<not> tm_initialized mb then mb
     else mb\<lparr>tm_socket := close (tm_socket mb), tm_initialized := False\<rparr>)"

text \<open>
  Move assignment: the two objects afterwards, and the assigned-to object's former socket, which
  \<open>shutdown\<close> and the socket's own move assignment have closed.
\<close>

definition tims_move_assign :: "tims_mailbox \<Rightarrow> tims_mailbox \<Rightarrow> tims_mailbox \<times> tims_mailbox \<times> tcp_socket" where
  "tims_move_assign this other =
     (case tims_move other of (t, t') \<Rightarrow> (t, t', close (tm_socket (shutdown this))))"

section \<open>Send\<close>

definition send_raw :: "tims_mailbox \<Rightarrow> bytes option \<Rightarrow> u32 \<Rightarrow> ipc_result \<times> tims_mailbox" where
  "send_raw mb data dest_mailbox_id =
     (if \<not> tm_initialized mb \<or> \<not> is_open (tm_socket mb) then (ERROR_NOT_INIT, mb)
      else case data of None \<Rightarrow> (ERROR_INVALID_MSG, mb)
      | Some d \<Rightarrow>
          if length d = 0 \<or> length d > cfg_max_msg_size (tm_config mb) then (ERROR_INVALID_MSG, mb)
          else let h = make_frame 0 dest_mailbox_id (cfg_mailbox_id (tm_config mb)) (tims_priority mb)
                     (ucast (tm_sequence_number mb)) (of_nat (length d));
                   mb1 = mb\<lparr>tm_sequence_number := tm_sequence_number mb + 1\<rparr>
               in case send_all (tm_socket mb1) (frame_bytes h) of (ok, s) \<Rightarrow>
                 if \<not> ok then (ERROR_SEND, mb1\<lparr>tm_socket := s\<rparr>)
                 else case send_all s d of (ok', s') \<Rightarrow>
                   if \<not> ok' then (ERROR_SEND, mb1\<lparr>tm_socket := s'\<rparr>)
                   else (SUCCESS, mb1\<lparr>tm_socket := s',
                     tm_messages_sent := tm_messages_sent mb1 + 1\<rparr>))"

definition tims_send :: "u32 option \<Rightarrow> ('p wire_message \<Rightarrow> bytes) \<Rightarrow> tims_mailbox \<Rightarrow> 'p wire_message
    \<Rightarrow> u32 \<Rightarrow> ipc_result \<times> 'p wire_message \<times> tims_mailbox" where
  "tims_send ty ser mb message dest_mailbox_id =
     (if \<not> tm_initialized mb then (ERROR_NOT_INIT, message, mb)
      else case serialize ty ser message of (view, message') \<Rightarrow>
        case send_raw mb (Some view) dest_mailbox_id of (res, mb') \<Rightarrow> (res, message', mb'))"

section \<open>Receive\<close>

text \<open>The millisecond time-out given to \<open>poll\<close>: a 64-bit count narrowed to 32 bits.\<close>

definition timeout_ms :: "duration \<Rightarrow> int" where
  "timeout_ms timeout = (if is_negative timeout then -1
     else sint (word_of_int (count_ns timeout sdiv 1000000) :: 32 word))"

definition swap_header :: "(bool \<Rightarrow> bytes \<Rightarrow> bytes) \<Rightarrow> u8 \<Rightarrow> bytes \<Rightarrow> bytes" where
  "swap_header swap flags body =
     (if length body \<ge> sizeof_wire_header
      then swap (flags AND FRAME_LE_FLAG \<noteq> 0) (take sizeof_wire_header body) @ drop sizeof_wire_header body
      else body)"

definition frame_metadata :: "frame_header \<Rightarrow> tims_metadata" where
  "frame_metadata f = \<lparr>md_src = fh_src f, md_dest = fh_dest f, md_seq_nr = ucast (fh_seq_nr f),
     md_priority = fh_priority f, md_flags = fh_flags f\<rparr>"

lemma poll_in_rx [frame_rules]: "poll_in s t = (p, s') \<Longrightarrow> sk_rx s' = sk_rx s"
  by (auto simp: poll_in_def split: if_splits)

lemma recv_frame_shrinks:
  "recv_all s 16 = (True, bs, s') \<Longrightarrow> length (sk_rx s') < length (sk_rx s)"
  using recv_all_stream [of s 16 bs s'] by auto

lemma send_all_rx [simp]: "sk_rx (snd (send_all s d)) = sk_rx s"
  using send_all_frame(2) [of s d] by (cases "send_all s d") simp

text \<open>
  The receive loop: every round that goes on has taken a frame header off the incoming stream,
  so the loop ends.
\<close>

function receive_loop :: "(bool \<Rightarrow> bytes \<Rightarrow> bytes) \<Rightarrow> tims_mailbox \<Rightarrow> nat \<Rightarrow> int
    \<Rightarrow> int \<times> bytes \<times> tims_metadata option \<times> tims_mailbox" where
  "receive_loop swap mb buffer_size ms =
     (case poll_in (tm_socket mb) ms of (p, s0) \<Rightarrow>
        if p \<le> 0 then (- ETIMEDOUT, [], None, mb\<lparr>tm_socket := s0\<rparr>)
        else case recv_all s0 sizeof_frame of (ok, hdr, s1) \<Rightarrow>
          if \<not> ok then (-1, [], None, mb\<lparr>tm_socket := s1\<rparr>)
          else let frame = read_frame hdr in
            if fh_type frame = MSG_ROUTER_GET_STATUS then
              receive_loop swap (mb\<lparr>tm_socket := snd (send_all s1 (frame_bytes
                (make_frame MSG_OK (fh_src frame) (cfg_mailbox_id (tm_config mb)) 0 0 0)))\<rparr>) buffer_size ms
            else if fh_msglen frame \<le> of_nat sizeof_frame then
              receive_loop swap (mb\<lparr>tm_socket := s1\<rparr>) buffer_size ms
            else let body_len = fh_msglen frame - of_nat sizeof_frame in
              if unat body_len > buffer_size then (- EMSGSIZE, [], None, mb\<lparr>tm_socket := s1\<rparr>)
              else case recv_all s1 (unat body_len) of (ok2, body, s2) \<Rightarrow>
                if \<not> ok2 then (-1, body, None, mb\<lparr>tm_socket := s2\<rparr>)
                else (int (unat body_len), swap_header swap (fh_flags frame) body,
                  Some (frame_metadata frame),
                  mb\<lparr>tm_socket := s2, tm_messages_received := tm_messages_received mb + 1\<rparr>))"
  by pat_completeness auto
termination
  by (relation "measure (\<lambda>(_, mb, _, _). length (sk_rx (tm_socket mb)))")
    (auto dest!: poll_in_rx [OF sym] recv_frame_shrinks [OF sym])

declare receive_loop.simps [simp del]

definition receive_raw :: "(bool \<Rightarrow> bytes \<Rightarrow> bytes) \<Rightarrow> tims_mailbox \<Rightarrow> nat \<Rightarrow> duration
    \<Rightarrow> int \<times> bytes \<times> tims_metadata option \<times> tims_mailbox" where
  "receive_raw swap mb buffer_size timeout =
     (if \<not> tm_initialized mb \<or> \<not> is_open (tm_socket mb) then (-1, [], None, mb)
      else receive_loop swap mb buffer_size (timeout_ms timeout))"

definition has_message :: "tims_mailbox \<Rightarrow> bool \<times> tims_mailbox" where
  "has_message mb =
     (if \<not> tm_initialized mb \<or> \<not> is_open (tm_socket mb) then (False, mb)
      else case poll_in (tm_socket mb) 0 of (p, s) \<Rightarrow> (p > 0, mb\<lparr>tm_socket := s\<rparr>))"

end
