(* ===== verification/Tims_Props.thy ===== *)
theory Tims_Props
  imports Tims_Backend
begin

text \<open>
  Properties of the TiMS client: what goes out on a send, what a receive delivers and consumes,
  the registration handshake with the router, and a message's way from one client through the
  router to another.
\<close>

section \<open>Sockets that work\<close>

text \<open>A socket on which no system call fails, and every \<open>poll\<close> reports data.\<close>

definition live :: "tcp_socket \<Rightarrow> bool" where
  "live s \<longleftrightarrow> can_recv s \<and> can_send s \<and> (\<forall>i t. 0 < sk_poll_k s i t)"

lemma live_open: "live s \<Longrightarrow> is_open s"
  by (simp add: live_def can_recv_def)

lemma live_poll:
  assumes "live s"
  obtains s0 p where "poll_in s t = (p, s0)" and "0 < p" and "live s0" and "sk_rx s0 = sk_rx s"
    and "sk_tx s0 = sk_tx s"
  using assms by (auto simp: poll_in_def live_def can_recv_def can_send_def is_open_def shift_def)

lemma live_recv:
  assumes "live s" and "length d = len" and "sk_rx s = d @ r"
  obtains s' where "recv_all s len = (True, d, s')" and "live s'" and "sk_rx s' = r"
    and "sk_tx s' = sk_tx s"
proof -
  from assms obtain s' where s': "recv_all s len = (True, d, s')" "can_recv s'" "sk_rx s' = r"
    using recv_all_can_recv [of s d len r] by (auto simp: live_def)
  with recv_all_frame [OF s'(1)] assms(1) have "live s'"
    by (simp add: live_def can_send_def is_open_def)
  with s' recv_all_frame(2) [OF s'(1)] that show ?thesis by blast
qed

lemma live_send:
  assumes "live s"
  obtains s' where "send_all s d = (True, s')" and "live s'" and "sk_rx s' = sk_rx s"
    and "sk_tx s' = sk_tx s @ d"
proof -
  from assms have "can_send s" by (simp add: live_def)
  then obtain s' where s': "send_all s d = (True, s')" "can_send s'" "sk_tx s' = sk_tx s @ d"
    by (rule send_all_can_send)
  with send_all_frame [OF s'(1)] assms have "live s'" "sk_rx s' = sk_rx s"
    by (simp_all add: live_def can_recv_def is_open_def)
  with s' that show ?thesis by blast
qed

section \<open>Sending\<close>

definition data_frame :: "tims_mailbox \<Rightarrow> bytes \<Rightarrow> u32 \<Rightarrow> frame_header" where
  "data_frame mb d dest = make_frame 0 dest (cfg_mailbox_id (tm_config mb)) (tims_priority mb)
     (ucast (tm_sequence_number mb)) (of_nat (length d))"

text \<open>
  A successful \<open>send_raw\<close> puts exactly one frame on the stream, header then data, with the
  mailbox's id, priority and running sequence number; it was a non-empty message within the
  configured size. A refused message puts nothing on the stream and uses no sequence number.
\<close>

lemma send_raw_result:
  "case send_raw mb data dest of (res, mb') \<Rightarrow>
     (res = SUCCESS \<longrightarrow> (\<exists>d. data = Some d \<and> d \<noteq> [] \<and> length d \<le> cfg_max_msg_size (tm_config mb) \<and>
        sk_tx (tm_socket mb') = sk_tx (tm_socket mb) @ frame_bytes (data_frame mb d dest) @ d \<and>
        tm_sequence_number mb' = tm_sequence_number mb + 1 \<and>
        tm_messages_sent mb' = tm_messages_sent mb + 1)) \<and>
     (res \<in> {ERROR_NOT_INIT, ERROR_INVALID_MSG} \<longrightarrow> mb' = mb)"
  by (auto simp: send_raw_def data_frame_def Let_def dest!: tcp_writer.all_written
      split: option.splits prod.splits if_splits)

definition ex_tims :: tims_mailbox where
  "ex_tims = (new_tims_mailbox (default_ipc_config\<lparr>cfg_mailbox_id := 0x0202\<rparr>))\<lparr>tm_socket := ex_socket,
     tm_initialized := True\<rparr>"

section \<open>Receiving\<close>

text \<open>Frames a client handles itself: status requests are answered, empty frames are skipped.\<close>

definition control_frame :: "frame_header \<Rightarrow> bool" where
  "control_frame f \<longleftrightarrow> fh_type f = MSG_ROUTER_GET_STATUS \<or> fh_msglen f \<le> 16"

definition status_reply :: "tims_mailbox \<Rightarrow> frame_header \<Rightarrow> bytes" where
  "status_reply mb f = (if fh_type f = MSG_ROUTER_GET_STATUS
     then frame_bytes (make_frame MSG_OK (fh_src f) (cfg_mailbox_id (tm_config mb)) 0 0 0) else [])"

lemma receive_loop_control:
  assumes "live (tm_socket mb)" and "control_frame f" and "sk_rx (tm_socket mb) = frame_bytes f @ r"
  shows "\<exists>s. receive_loop swap mb n ms = receive_loop swap (mb\<lparr>tm_socket := s\<rparr>) n ms \<and> live s \<and>
    sk_rx s = r \<and> sk_tx s = sk_tx (tm_socket mb) @ status_reply mb f"
proof -
  from assms(1) obtain s0 p where p: "poll_in (tm_socket mb) ms = (p, s0)" "0 < p" "live s0"
    "sk_rx s0 = sk_rx (tm_socket mb)" "sk_tx s0 = sk_tx (tm_socket mb)" by (rule live_poll)
  with assms(3) obtain s1 where s1: "recv_all s0 16 = (True, frame_bytes f, s1)" "live s1"
    "sk_rx s1 = r" "sk_tx s1 = sk_tx (tm_socket mb)"
    using live_recv [of s0 "frame_bytes f" 16 r] by auto
  obtain s2 where s2: "send_all s1 (frame_bytes (make_frame MSG_OK (fh_src f)
      (cfg_mailbox_id (tm_config mb)) 0 0 0)) = (True, s2)" "live s2" "sk_rx s2 = r"
    "sk_tx s2 = sk_tx s1 @ frame_bytes (make_frame MSG_OK (fh_src f) (cfg_mailbox_id (tm_config mb)) 0 0 0)"
    using live_send [OF s1(2)] s1(3) by metis
  show ?thesis
  proof (cases "fh_type f = MSG_ROUTER_GET_STATUS")
    case True
    with p s1 s2 show ?thesis
      by (intro exI [of _ s2])
        (simp add: receive_loop.simps [of swap mb] frame_layout.dec_enc status_reply_def)
  next
    case False
    with p s1 assms(2) show ?thesis
      by (intro exI [of _ s1]) (simp add: receive_loop.simps [of swap mb] frame_layout.dec_enc
          status_reply_def control_frame_def)
  qed
qed

lemma receive_loop_controls:
  assumes "live (tm_socket mb)" and "\<forall>f \<in> set fs. control_frame f"
    and "sk_rx (tm_socket mb) = concat (map frame_bytes fs) @ r"
  shows "\<exists>s. receive_loop swap mb n ms = receive_loop swap (mb\<lparr>tm_socket := s\<rparr>) n ms \<and> live s \<and>
    sk_rx s = r \<and> sk_tx s = sk_tx (tm_socket mb) @ concat (map (status_reply mb) fs)"
  using assms
proof (induction fs arbitrary: mb)
  case Nil
  then show ?case by (intro exI [of _ "tm_socket mb"]) simp
next
  case (Cons f fs)
  then obtain s where s: "receive_loop swap mb n ms = receive_loop swap (mb\<lparr>tm_socket := s\<rparr>) n ms"
    "live s" "sk_rx s = concat (map frame_bytes fs) @ r" "sk_tx s = sk_tx (tm_socket mb) @ status_reply mb f"
    using receive_loop_control [of mb f _ swap n ms] by auto
  have "status_reply (mb\<lparr>tm_socket := s\<rparr>) = status_reply mb"
    by (intro ext) (simp add: status_reply_def)
  with Cons.IH [of "mb\<lparr>tm_socket := s\<rparr>"] Cons.prems(2) s show ?case by simp
qed

text \<open>A frame with a body that a receive delivers, as the senders in this code base build it.\<close>

definition data_frame_ok :: "frame_header \<Rightarrow> bytes \<Rightarrow> bool" where
  "data_frame_ok f body \<longleftrightarrow> fh_type f \<noteq> MSG_ROUTER_GET_STATUS \<and> body \<noteq> [] \<and> length body + 16 < 2 ^ 32 \<and>
     fh_msglen f = 16 + of_nat (length body) \<and> fh_flags f AND FRAME_LE_FLAG \<noteq> 0"

lemma data_frame_len:
  assumes "data_frame_ok f body"
  shows "unat (fh_msglen f - 16) = length body" "\<not> fh_msglen f \<le> 16"
proof -
  have "unat (of_nat (length body) :: u32) = length body"
    using assms by (simp add: data_frame_ok_def unat_of_nat)
  then show "unat (fh_msglen f - 16) = length body" using assms by (simp add: data_frame_ok_def)
  have "unat (fh_msglen f) = 16 + length body"
    using assms by (simp add: data_frame_ok_def unat_word_ariths unat_of_nat)
  then show "\<not> fh_msglen f \<le> 16"
    using assms by (simp add: data_frame_ok_def word_le_nat_alt)
qed

lemma swap_header_le:
  "(\<And>b. swap True b = b) \<Longrightarrow> flags AND FRAME_LE_FLAG \<noteq> 0 \<Longrightarrow> swap_header swap flags body = body"
  by (simp add: swap_header_def)

lemma receive_loop_data:
  assumes "live (tm_socket mb)" and "data_frame_ok f body"
    and "sk_rx (tm_socket mb) = frame_bytes f @ body @ r" and "\<And>b. swap True b = b"
  shows "\<exists>s. live s \<and> sk_tx s = sk_tx (tm_socket mb) \<and>
    sk_rx s = (if length body \<le> n then r else body @ r) \<and> receive_loop swap mb n ms =
      (if length body \<le> n
       then (int (length body), body, Some (frame_metadata f),
         mb\<lparr>tm_socket := s, tm_messages_received := tm_messages_received mb + 1\<rparr>)
       else (- EMSGSIZE, [], None, mb\<lparr>tm_socket := s\<rparr>))"
proof -
  from assms(1) obtain s0 p where p: "poll_in (tm_socket mb) ms = (p, s0)" "0 < p" "live s0"
    "sk_rx s0 = sk_rx (tm_socket mb)" "sk_tx s0 = sk_tx (tm_socket mb)" by (rule live_poll)
  with assms(3) obtain s1 where s1: "recv_all s0 16 = (True, frame_bytes f, s1)" "live s1"
    "sk_rx s1 = body @ r" "sk_tx s1 = sk_tx (tm_socket mb)"
    using live_recv [of s0 "frame_bytes f" 16 "body @ r"] by auto
  then obtain s2 where s2: "recv_all s1 (length body) = (True, body, s2)" "live s2"
    "sk_rx s2 = r" "sk_tx s2 = sk_tx (tm_socket mb)"
    using live_recv [of s1 body "length body" r] by auto
  show ?thesis
    using p s1 s2 data_frame_len [OF assms(2)] assms(2,4)
    by (intro exI [of _ "if length body \<le> n then s2 else s1"])
      (simp add: receive_loop.simps [of swap mb] frame_layout.dec_enc data_frame_ok_def swap_header_le)
qed

text \<open>
  On a working connection \<open>receive_raw\<close> delivers the next message whole and unchanged:
  empty frames in front of it are skipped, status requests in front of it are each answered with
  one \<open>MSG_OK\<close> frame, exactly the message's frame is taken off the stream, the metadata are those
  of its header, and the counter advances. The byte-order conversion leaves data from a
  little-endian sender alone.
\<close>

lemma receive_raw_delivers:
  assumes "tm_initialized mb" and "live (tm_socket mb)" and "\<And>b. swap True b = b"
    and "\<forall>f \<in> set fs. control_frame f" and "data_frame_ok f body" and "length body \<le> n"
    and "sk_rx (tm_socket mb) = concat (map frame_bytes fs) @ frame_bytes f @ body @ rest"
  shows "\<exists>s. receive_raw swap mb n timeout = (int (length body), body, Some (frame_metadata f),
      mb\<lparr>tm_socket := s, tm_messages_received := tm_messages_received mb + 1\<rparr>) \<and> live s \<and>
    sk_rx s = rest \<and> sk_tx s = sk_tx (tm_socket mb) @ concat (map (status_reply mb) fs)"
proof -
  obtain s where s: "receive_loop swap mb n (timeout_ms timeout)
      = receive_loop swap (mb\<lparr>tm_socket := s\<rparr>) n (timeout_ms timeout)"
    "live s" "sk_rx s = frame_bytes f @ body @ rest"
    "sk_tx s = sk_tx (tm_socket mb) @ concat (map (status_reply mb) fs)"
    using receive_loop_controls [OF assms(2,4,7)] by blast
  with receive_loop_data [of "mb\<lparr>tm_socket := s\<rparr>" f body rest swap n "timeout_ms timeout"] assms(1,3,5,6)
  show ?thesis by (auto simp: receive_raw_def live_open [OF assms(2)])
qed

lemma ex_socket_live [simp]: "live ex_socket" "live (ex_socket\<lparr>sk_rx := bs\<rparr>)"
  by (simp_all add: live_def can_recv_def can_send_def is_open_def ex_socket_def)

text \<open>
  A message larger than the caller's buffer is reported as \<open>-EMSGSIZE\<close> with its header
  consumed and its body still on the stream, so the next receive starts inside that body.
\<close>

lemma receive_too_large:
  assumes "tm_initialized mb" and "live (tm_socket mb)" and "\<And>b. swap True b = b"
    and "data_frame_ok f body" and "n < length body"
    and "sk_rx (tm_socket mb) = frame_bytes f @ body @ rest"
  shows "\<exists>s. receive_raw swap mb n timeout = (- EMSGSIZE, [], None, mb\<lparr>tm_socket := s\<rparr>) \<and>
    live s \<and> sk_rx s = body @ rest"
  using receive_loop_data [OF assms(2,4,6), of swap n "timeout_ms timeout"] assms(1,3,5)
  by (auto simp: receive_raw_def live_open [OF assms(2)])

text \<open>A client that calls \<open>receive_raw\<close> again and again.\<close>

fun receive_n :: "(bool \<Rightarrow> bytes \<Rightarrow> bytes) \<Rightarrow> tims_mailbox \<Rightarrow> nat \<Rightarrow> duration \<Rightarrow> nat
    \<Rightarrow> bytes list \<times> tims_mailbox" where
  "receive_n swap mb n timeout 0 = ([], mb)"
| "receive_n swap mb n timeout (Suc k) =
     (case receive_raw swap mb n timeout of (_, body, _, mb1) \<Rightarrow>
        case receive_n swap mb1 n timeout k of (bodies, mb2) \<Rightarrow> (body # bodies, mb2))"

text \<open>
  Messages are received in the order they were put on the stream, each exactly once and
  unchanged: \<open>k\<close> receives take exactly the first \<open>k\<close> messages and leave the rest of the stream.
\<close>

lemma receive_n_stream:
  assumes "tm_initialized mb" and "live (tm_socket mb)" and "\<And>b. swap True b = b"
    and "\<forall>(f, body) \<in> set ms. data_frame_ok f body \<and> length body \<le> n"
    and "sk_rx (tm_socket mb) = concat (map (\<lambda>(f, body). frame_bytes f @ body) ms) @ rest"
  shows "\<exists>mb'. receive_n swap mb n timeout (length ms) = (map snd ms, mb') \<and>
    sk_rx (tm_socket mb') = rest"
  using assms(1,2,4,5)
proof (induction ms arbitrary: mb)
  case Nil
  then show ?case by simp
next
  case (Cons x ms)
  obtain f body where x: "x = (f, body)" by fastforce
  with Cons.prems obtain s where s: "live s" "sk_rx s = concat (map (\<lambda>(f, body). frame_bytes f @ body) ms) @ rest"
    "receive_loop swap mb n (timeout_ms timeout) = (int (length body), body, Some (frame_metadata f),
       mb\<lparr>tm_socket := s, tm_messages_received := tm_messages_received mb + 1\<rparr>)"
    using receive_loop_data [of mb f body _ swap n "timeout_ms timeout"] assms(3) by auto
  have "receive_raw swap mb n timeout = receive_loop swap mb n (timeout_ms timeout)"
    using Cons.prems(1,2) by (simp add: receive_raw_def live_open)
  moreover obtain mb' where "receive_n swap
      (mb\<lparr>tm_socket := s, tm_messages_received := tm_messages_received mb + 1\<rparr>) n timeout (length ms)
      = (map snd ms, mb')" "sk_rx (tm_socket mb') = rest"
    using Cons.IH [of "mb\<lparr>tm_socket := s, tm_messages_received := tm_messages_received mb + 1\<rparr>"]
      Cons.prems s by auto
  ultimately show ?case using s x by simp
qed

text \<open>
  The time-out given to \<open>poll\<close> is the duration rounded down to whole milliseconds, for all
  durations of up to about 24.8 days; negative durations wait for ever.
\<close>

lemma timeout_ms_exact:
  assumes "count_ns timeout < 2147483648 * 1000000"
  shows "timeout_ms timeout = (if is_negative timeout then -1 else count_ns timeout div 1000000)"
  using assms by (auto simp: timeout_ms_def is_negative_def count_ns_def sdiv_nonneg sint_sbintrunc'
      intro!: signed_take_bit_int_eq_self)

text \<open>From there on the 32-bit value wraps: 25 days become a wait without limit.\<close>

lemma timeout_ms_wraps: "timeout_ms (hours 600) < 0"
  by code_simp

section \<open>Through the router\<close>

lemma connection_iter_frame:
  assumes "live (socket_of r c)" and "c < length (rt_connections r)"
    and "sk_rx (socket_of r c) = frame_bytes f @ rest"
  shows "\<exists>s. connection_iter r c = handle_frame (set_socket r c s) c f \<and> live s \<and> sk_rx s = rest \<and>
    sk_tx s = tx r c"
proof -
  from assms(1) obtain s0 p where p: "poll_in (socket_of r c) 200 = (p, s0)" "0 < p" "live s0"
    "sk_rx s0 = sk_rx (socket_of r c)" "sk_tx s0 = tx r c" by (rule live_poll)
  with assms(3) obtain s1 where "recv_all s0 16 = (True, frame_bytes f, s1)" "live s1"
    "sk_rx s1 = rest" "sk_tx s1 = tx r c"
    using live_recv [of s0 "frame_bytes f" 16 rest] by auto
  with p show ?thesis by (auto simp: connection_iter_def frame_layout.dec_enc)
qed

lemma set_socket_twice [simp]: "set_socket (set_socket r c s) c s' = set_socket r c s'"
  by (cases "c < length (rt_connections r)") (simp_all add: set_socket_def list_update_beyond)

lemma set_socket_max [simp]: "rt_max_msg_size (set_socket r c s) = rt_max_msg_size r"
  by (simp add: set_socket_def)

lemma connection_iter_data:
  assumes "live (socket_of r c)" and "c < length (rt_connections r)"
    and "sk_rx (socket_of r c) = frame_bytes f @ body @ rest"
    and "fh_msglen f = 16 + of_nat (length body)" and "length body + 16 < 2 ^ 32"
    and "length body \<le> rt_max_msg_size r"
  shows "\<exists>s. connection_iter r c = dispatch_frame (set_socket r c s) c f body \<and> live s \<and>
    sk_rx s = rest \<and> sk_tx s = tx r c"
proof -
  obtain s where s: "connection_iter r c = handle_frame (set_socket r c s) c f" "live s"
    "sk_rx s = body @ rest" "sk_tx s = tx r c"
    using connection_iter_frame [OF assms(1-3)] by blast
  have "unat (of_nat (length body) :: u32) = length body" "unat (fh_msglen f) = 16 + length body"
    using assms(4,5) by (simp_all add: unat_of_nat unat_word_ariths)
  then have l: "unat (frame_body_len f) = length body" "frame_body_len f = 0 \<longleftrightarrow> body = []"
    using assms(4) by (auto simp: frame_body_len_def word_less_nat_alt unat_eq_zero)
  obtain s1 where s1: "recv_all s (length body) = (True, body, s1)" "live s1" "sk_rx s1 = rest"
    "sk_tx s1 = tx r c"
    using live_recv [OF s(2) refl s(3)] s(4) by metis
  show ?thesis
  proof (cases "body = []")
    case True
    with s l assms(6) show ?thesis by (intro exI [of _ s]) (simp add: handle_frame_def)
  next
    case False
    with s s1 l assms(2,6) show ?thesis
      by (intro exI [of _ s1]) (simp add: handle_frame_def socket_of_set_socket)
  qed
qed

lemma send_raw_success:
  assumes "send_raw a (Some d) dest = (SUCCESS, a')"
  shows "d \<noteq> []" "sk_tx (tm_socket a') = sk_tx (tm_socket a) @ frame_bytes (data_frame a d dest) @ d"
  using assms by (auto simp: send_raw_def data_frame_def Let_def dest!: tcp_writer.all_written
      split: option.splits prod.splits if_splits)

lemma data_frame_data_ok:
  "d \<noteq> [] \<Longrightarrow> length d + 16 < 2 ^ 32 \<Longrightarrow> data_frame_ok (data_frame a d dest) d"
  by (simp add: data_frame_ok_def data_frame_def make_frame_def msg_type_defs FRAME_LE_FLAG_def)

lemma data_frame_routed [simp]:
  "fh_type (data_frame a d dest) \<notin> set router_types" "fh_dest (data_frame a d dest) = dest"
  "fh_msglen (data_frame a d dest) = 16 + of_nat (length d)"
  by (simp_all add: data_frame_def make_frame_def router_types_def msg_type_defs)

text \<open>
  End to end: when client \<open>a\<close> sends successfully to a mailbox that the router has for
  client \<open>b\<close>, and the bytes \<open>w\<close> that \<open>a\<close> wrote arrive at the router, one round of \<open>a\<close>'s connection
  puts the same bytes \<open>w\<close> on \<open>b\<close>'s connection, and when they arrive there \<open>b\<close>'s next receive
  returns exactly the data sent, with \<open>a\<close>'s mailbox id, priority and sequence number.
\<close>

lemma delivery_chain:
  assumes "send_raw a (Some d) dest = (SUCCESS, a')"
    and "sk_tx (tm_socket a') = sk_tx (tm_socket a) @ w" and "length d + 16 < 2 ^ 32"
    and "live (socket_of r c)" and "c < length (rt_connections r)" and "sk_rx (socket_of r c) = w"
    and "length d \<le> rt_max_msg_size r"
    and "registry_find (rt_registry r) dest = Some e" and "e < length (rt_connections r)"
    and "live (socket_of r e)"
    and "tm_initialized b" and "live (tm_socket b)" and "sk_rx (tm_socket b) = w"
    and "length d \<le> n" and "\<And>bs. swap True bs = bs"
  shows "tx (connection_iter r c) e = tx r e @ w \<and>
    (\<exists>b'. receive_raw swap b n timeout = (int (length d), d, Some
      \<lparr>md_src = cfg_mailbox_id (tm_config a), md_dest = dest,
       md_seq_nr = ucast (ucast (tm_sequence_number a) :: u8),
       md_priority = tims_priority a, md_flags = FRAME_LE_FLAG\<rparr>, b') \<and> sk_rx (tm_socket b') = [])"
proof -
  let ?f = "data_frame a d dest"
  have w: "w = frame_bytes ?f @ d" and d: "d \<noteq> []"
    using send_raw_success [OF assms(1)] assms(2) by simp_all
  obtain s where s: "connection_iter r c = dispatch_frame (set_socket r c s) c ?f d" "live s"
    "sk_tx s = tx r c"
    using connection_iter_data [OF assms(4,5), of ?f d "[]"] assms(3,6,7) w by auto
  have le: "can_send (socket_of (set_socket r c s) e)" "tx (set_socket r c s) e = tx r e"
    using assms(9,10) s by (auto simp: socket_of_set_socket live_def)
  then obtain s' where s': "both_written send_all (socket_of (set_socket r c s) e) (frame_bytes ?f) d
      = (True, s')" by (meson both_send_can_send)
  have "dispatch_frame (set_socket r c s) c ?f d = set_socket (set_socket r c s) e s'"
    using assms(8) s' by (simp add: dispatch_data route_data_def forward_def set_socket_def)
  with s(1) tcp_writer.both_all_written [OF s'] le(2) assms(9) w
  have "tx (connection_iter r c) e = tx r e @ w"
    by (simp add: socket_of_set_socket)
  moreover
  obtain sb where "receive_raw swap b n timeout = (int (length d), d, Some (frame_metadata ?f),
      b\<lparr>tm_socket := sb, tm_messages_received := tm_messages_received b + 1\<rparr>)" "sk_rx sb = []"
    using receive_loop_data [OF assms(12) data_frame_data_ok [OF d assms(3), of a dest], of "[]" swap n
        "timeout_ms timeout"] assms(11,13-15) w
    by (auto simp: receive_raw_def live_open [OF assms(12)])
  ultimately show ?thesis
    by (simp add: frame_metadata_def data_frame_def make_frame_def)
qed

lemma live_can_send: "live s \<Longrightarrow> can_send s"
  by (simp add: live_def)

lemma all_can_send_set_socket: "all_can_send r \<Longrightarrow> can_send s \<Longrightarrow> all_can_send (set_socket r c s)"
  by (auto simp: all_can_send_def socket_of_set_socket)

text \<open>The router's side of the handshake.\<close>

lemma router_handshake:
  assumes "live (socket_of r c)" and "all_can_send r" and "c < length (rt_connections r)"
    and "\<not> is_peer r c" and "sk_rx (socket_of r c) = watchdog_frame mb @ reg_msg mb"
    and "4 \<le> rt_max_msg_size r" and "rt_registry r (cfg_mailbox_id (tm_config mb)) = None"
  shows "rt_registry (connection_iter (connection_iter r c) c) = (rt_registry r)(cfg_mailbox_id (tm_config mb) \<mapsto> c)"
    and "tx (connection_iter (connection_iter r c) c) c
      = tx r c @ frame_bytes (make_frame MSG_OK (cfg_mailbox_id (tm_config mb)) 0 0 0 0)"
proof -
  let ?m = "cfg_mailbox_id (tm_config mb)"
  let ?wd = "make_frame MSG_ROUTER_DISABLE_WATCHDOG 0 ?m (tims_priority mb) 0 0"
  let ?reg = "make_frame MSG_ROUTER_MBX_INIT_WITH_REPLY 0 ?m (tims_priority mb) 0 4"
  let ?body = "mbx_init_bytes \<lparr>mip_mbx = ?m\<rparr>"
  obtain s where s: "connection_iter r c = dispatch_frame (set_socket r c s) c ?wd []" "live s"
    "sk_rx s = reg_msg mb" "sk_tx s = tx r c"
    using connection_iter_data [OF assms(1,3), of ?wd "[]" "reg_msg mb"] assms(5)
    by (auto simp: watchdog_frame_def make_frame_def)
  define r1 where "r1 = set_watchdog_off (set_socket r c s) c"
  have r1: "connection_iter r c = r1"
    using s(1) by (simp add: r1_def dispatch_frame_def make_frame_def msg_type_defs)
  have f: "socket_of r1 c = s" "length (rt_connections r1) = length (rt_connections r)"
      "rt_registry r1 = rt_registry r" "rt_max_msg_size r1 = rt_max_msg_size r" "\<not> is_peer r1 c"
    using assms(3,4) by (simp_all add: r1_def set_watchdog_off_def set_socket_def)
  have "socket_of r1 d = socket_of (set_socket r c s) d" for d
    by (cases "d = c"; cases "c < length (rt_connections r)")
      (simp_all add: r1_def set_watchdog_off_def list_update_beyond)
  with all_can_send_set_socket [OF assms(2) live_can_send [OF s(2)], of c]
  have h: "all_can_send r1" by (simp add: all_can_send_def f(2))
  obtain s2 where s2: "connection_iter r1 c = dispatch_frame (set_socket r1 c s2) c ?reg ?body" "live s2"
    "sk_tx s2 = sk_tx s"
    using connection_iter_data [of r1 c ?reg ?body "[]"] s(2,3) f assms(3,6)
    by (auto simp: reg_msg_def make_frame_def)
  have m: "mip_mbx (read_mbx_init ?body) = ?m" by simp
  have "all_can_send (set_socket r1 c s2)"
    using all_can_send_set_socket [OF h live_can_send [OF s2(2)]] .
  with dispatch_registration [of ?reg ?body ?m "set_socket r1 c s2" c] s s2 f assms(3,7) m
  show "rt_registry (connection_iter (connection_iter r c) c) = (rt_registry r)(?m \<mapsto> c)"
    and "tx (connection_iter (connection_iter r c) c) c
      = tx r c @ frame_bytes (make_frame MSG_OK ?m 0 0 0 0)"
    by (auto simp: r1 make_frame_def set_socket_def)
qed

text \<open>The client's side.\<close>

lemma initialize_success:
  assumes "\<not> tm_initialized mb" and "ca_socket ans \<ge> 0" and "ca_inet_pton ans = 1" and "ca_connect ans \<ge> 0"
    and "live ((ca_stream ans)\<lparr>sk_fd := ca_socket ans\<rparr>)"
    and "sk_rx (ca_stream ans) = frame_bytes f" and "fh_type f = MSG_OK"
  shows "\<exists>mb'. initialize mb ans = (SUCCESS, mb') \<and> tm_initialized mb' \<and>
      sk_tx (tm_socket mb') = sk_tx (ca_stream ans) @ watchdog_frame mb @ reg_msg mb"
proof -
  let ?s = "(ca_stream ans)\<lparr>sk_fd := ca_socket ans\<rparr>"
  have c: "connect (tm_socket mb) ans = (True, ?s)"
    using assms(2-4) by (simp add: connect_def)
  obtain s1 where s1: "send_all ?s (watchdog_frame mb) = (True, s1)" "live s1"
    "sk_rx s1 = frame_bytes f" "sk_tx s1 = sk_tx (ca_stream ans) @ watchdog_frame mb"
    using live_send [OF assms(5), of "watchdog_frame mb"] assms(6) by auto
  obtain s2 where s2: "send_all s1 (reg_msg mb) = (True, s2)" "live s2"
    "sk_rx s2 = frame_bytes f" "sk_tx s2 = sk_tx s1 @ reg_msg mb"
    using live_send [OF s1(2), of "reg_msg mb"] s1(3) by auto
  obtain s3 where "recv_all s2 16 = (True, frame_bytes f, s3)" "sk_tx s3 = sk_tx s2"
    using live_recv [of s2 "frame_bytes f" 16 "[]"] s2 by auto
  with c s1 s2 assms(1,7) show ?thesis
    by (simp add: initialize_def frame_layout.dec_enc)
qed

text \<open>
  C30. The registration handshake: what \<open>initialize\<close> sends on a fresh connection, processed by
  two rounds of the router's thread for it, registers the mailbox for that connection whenever
  the id is free, and the router's answer is one frame that makes \<open>initialize\<close> succeed.
\<close>

theorem handshake_registers:
  assumes "live (socket_of r c)" and "all_can_send r" and "c < length (rt_connections r)"
    and "\<not> is_peer r c" and "sk_rx (socket_of r c) = watchdog_frame mb @ reg_msg mb"
    and "4 \<le> rt_max_msg_size r" and "rt_registry r (cfg_mailbox_id (tm_config mb)) = None"
    and "\<not> tm_initialized mb" and "ca_socket ans \<ge> 0" and "ca_inet_pton ans = 1" and "ca_connect ans \<ge> 0"
    and "live ((ca_stream ans)\<lparr>sk_fd := ca_socket ans\<rparr>)"
    and "tx (connection_iter (connection_iter r c) c) c = tx r c @ reply"
    and "sk_rx (ca_stream ans) = reply"
  shows "registry_find (rt_registry (connection_iter (connection_iter r c) c))
      (cfg_mailbox_id (tm_config mb)) = Some c \<and>
    (\<exists>mb'. initialize mb ans = (SUCCESS, mb') \<and> tm_initialized mb' \<and>
      sk_tx (tm_socket mb') = sk_tx (ca_stream ans) @ watchdog_frame mb @ reg_msg mb)"
proof -
  let ?f = "make_frame MSG_OK (cfg_mailbox_id (tm_config mb)) 0 0 0 0"
  have "reply = frame_bytes ?f"
    using router_handshake(2) [OF assms(1-7)] assms(13) by simp
  with initialize_success [OF assms(8-12), of ?f] assms(14)
    router_handshake(1) [OF assms(1-7)] show ?thesis
    by (simp add: registry_find_def make_frame_def)
qed

definition ex_router0 :: router where
  "ex_router0 = (new_router 4096)\<lparr>rt_connections := [ex_connection False]\<rparr>"

definition ex_new :: tims_mailbox where
  "ex_new = new_tims_mailbox (default_ipc_config\<lparr>cfg_mailbox_id := 0x0303\<rparr>)"

definition ex_answer :: connect_answer where
  "ex_answer = \<lparr>ca_socket = 4, ca_inet_pton = 1, ca_connect = 0, ca_stream = ex_socket
     \<lparr>sk_rx := frame_bytes (make_frame MSG_OK 0x0303 0 0 0 0)\<rparr>\<rparr>"

definition ex_served :: router where
  "ex_served = set_socket ex_router0 0 (ex_socket\<lparr>sk_rx := watchdog_frame ex_new @ reg_msg ex_new\<rparr>)"

lemma ex_served_reply:
  "tx (connection_iter (connection_iter ex_served 0) 0) 0 = tx ex_served 0 @ sk_rx (ca_stream ex_answer)"
  by code_simp

theorem handshake_registers_witness:
  "(\<exists>mb'. initialize ex_new ex_answer = (SUCCESS, mb') \<and> tm_initialized mb') \<and>
   registry_find (rt_registry (connection_iter (connection_iter ex_served 0) 0)) 0x0303 = Some 0"
proof -
  have "cfg_mailbox_id (tm_config ex_new) = 0x0303"
    by (simp add: ex_new_def new_tims_mailbox_def)
  moreover have "live (socket_of ex_served 0)" "all_can_send ex_served"
    by (simp_all add: ex_served_def ex_router0_def all_can_send_def set_socket_def new_router_def
        ex_connection_def live_can_send)
  moreover have "live ((ca_stream ex_answer)\<lparr>sk_fd := ca_socket ex_answer\<rparr>)"
    by (simp add: live_def can_recv_def can_send_def is_open_def ex_answer_def ex_socket_def)
  ultimately show ?thesis
    using handshake_registers [OF _ _ _ _ _ _ _ _ _ _ _ _ ex_served_reply, of ex_new ex_answer]
    by (auto simp: ex_served_def ex_router0_def set_socket_def new_router_def ex_connection_def
        ex_new_def new_tims_mailbox_def ex_answer_def)
qed

end
