(* ===== verification/Evl_Registry.thy ===== *)
theory Evl_Registry
  imports Prelude
begin

text \<open>
  The process-local mailbox directory of \<open>ipc/evl/evl_backend.hpp\<close>: an open-addressing hash
  table of 512 slots with Knuth's multiplicative hash, linear probing and tombstones (an entry
  that keeps its id and loses its pointer). An id of 0 marks an empty slot.
\<close>

definition kRegistryCapacity :: nat where "kRegistryCapacity = 512"

record 'm registry_entry =
  re_id :: u32
  re_ptr :: "'m option"

type_synonym 'm registry_table = "'m registry_entry list"

definition empty_table :: "'m registry_table" where
  "empty_table = replicate kRegistryCapacity \<lparr>re_id = 0, re_ptr = None\<rparr>"

definition registry_hash :: "u32 \<Rightarrow> u32" where
  "registry_hash mid = drop_bit (32 - 9) (mid * 2654435761)"

text \<open>The slots the three loops visit, in order: \<open>(h + i) & (kRegistryCapacity - 1)\<close>.\<close>

definition probe_seq :: "u32 \<Rightarrow> nat list" where
  "probe_seq mid = map (\<lambda>i. unat ((registry_hash mid + of_nat i) AND (of_nat kRegistryCapacity - 1)))
     [0..<kRegistryCapacity]"

fun insert_loop :: "'m registry_table \<Rightarrow> u32 \<Rightarrow> 'm \<Rightarrow> nat list \<Rightarrow> 'm registry_table" where
  "insert_loop tbl mid ptr [] = tbl"
| "insert_loop tbl mid ptr (slot # slots) =
     (if re_id (tbl ! slot) = 0 \<or> re_id (tbl ! slot) = mid
      then tbl[slot := \<lparr>re_id = mid, re_ptr = Some ptr\<rparr>]
      else insert_loop tbl mid ptr slots)"

definition registry_insert :: "'m registry_table \<Rightarrow> u32 \<Rightarrow> 'm \<Rightarrow> 'm registry_table" where
  "registry_insert tbl mid ptr = insert_loop tbl mid ptr (probe_seq mid)"

fun remove_loop :: "'m registry_table \<Rightarrow> u32 \<Rightarrow> nat list \<Rightarrow> 'm registry_table" where
  "remove_loop tbl mid [] = tbl"
| "remove_loop tbl mid (slot # slots) =
     (if re_id (tbl ! slot) = 0 then tbl
      else if re_id (tbl ! slot) = mid then tbl[slot := (tbl ! slot)\<lparr>re_ptr := None\<rparr>]
      else remove_loop tbl mid slots)"

definition registry_remove :: "'m registry_table \<Rightarrow> u32 \<Rightarrow> 'm registry_table" where
  "registry_remove tbl mid = remove_loop tbl mid (probe_seq mid)"

fun find_loop :: "'m registry_table \<Rightarrow> u32 \<Rightarrow> nat list \<Rightarrow> 'm option" where
  "find_loop tbl mid [] = None"
| "find_loop tbl mid (slot # slots) =
     (if re_id (tbl ! slot) = 0 then None
      else if re_id (tbl ! slot) = mid then re_ptr (tbl ! slot)
      else find_loop tbl mid slots)"

definition registry_find :: "'m registry_table \<Rightarrow> u32 \<Rightarrow> 'm option" where
  "registry_find tbl mid = find_loop tbl mid (probe_seq mid)"

section \<open>The probe sequence\<close>

lemma registry_hash_bound: "unat (registry_hash mid) < 512"
proof -
  have "unat (drop_bit 23 (mid * 2654435761)) = unat (mid * 2654435761) div 2 ^ 23"
    by (simp add: drop_bit_eq_div unat_div)
  moreover have "unat (mid * 2654435761) < 2 ^ 32"
    using unsigned_less [of "mid * 2654435761"] by simp
  ultimately show ?thesis by (simp add: registry_hash_def div_less_iff_less_mult)
qed

lemma probe_slot:
  assumes "i < 512"
  shows "unat ((registry_hash mid + of_nat i) AND 511) = (unat (registry_hash mid) + i) mod 512"
proof -
  have "unat (registry_hash mid + of_nat i) = unat (registry_hash mid) + i"
    using assms registry_hash_bound [of mid] by (simp add: unat_word_ariths unat_of_nat)
  moreover have "x AND 511 = take_bit 9 x" for x :: u32
    by (simp add: take_bit_eq_mask mask_eq_exp_minus_1)
  moreover have "unat (take_bit 9 x) = unat x mod 512" for x :: u32
    by (simp add: take_bit_eq_mod unat_mod)
  ultimately show ?thesis by simp
qed

lemma set_probe_seq: "set (probe_seq mid) = {..<512}"
proof -
  define h where "h = unat (registry_hash mid)"
  have h: "h < 512" using registry_hash_bound by (simp add: h_def)
  have "set (probe_seq mid) = (\<lambda>i. (h + i) mod 512) ` {..<512}"
    unfolding probe_seq_def kRegistryCapacity_def set_map set_upt atLeast0LessThan h_def
    by (rule image_cong) (simp_all add: probe_slot)
  also have "\<dots> = {..<512}"
  proof
    show "{..<512} \<subseteq> (\<lambda>i. (h + i) mod 512) ` {..<512}"
    proof
      fix s :: nat assume "s \<in> {..<512}"
      then have "(h + (s + 512 - h) mod 512) mod 512 = s"
        using h by (simp add: mod_add_right_eq)
      then show "s \<in> (\<lambda>i. (h + i) mod 512) ` {..<512}"
        by (intro image_eqI [of _ _ "(s + 512 - h) mod 512"]) simp_all
    qed
  qed auto
  finally show ?thesis .
qed

section \<open>Where a probe stops\<close>

text \<open>The first slot of the sequence that is empty or holds the id.\<close>

fun locate :: "'m registry_table \<Rightarrow> u32 \<Rightarrow> nat list \<Rightarrow> nat option" where
  "locate tbl mid [] = None"
| "locate tbl mid (slot # slots) =
     (if re_id (tbl ! slot) = 0 \<or> re_id (tbl ! slot) = mid then Some slot else locate tbl mid slots)"

abbreviation locate_id :: "'m registry_table \<Rightarrow> u32 \<Rightarrow> nat option" where
  "locate_id tbl mid \<equiv> locate tbl mid (probe_seq mid)"

lemma insert_locate: "registry_insert tbl mid p =
    (case locate_id tbl mid of None \<Rightarrow> tbl | Some s \<Rightarrow> tbl[s := \<lparr>re_id = mid, re_ptr = Some p\<rparr>])"
proof -
  have "insert_loop tbl mid p ss =
    (case locate tbl mid ss of None \<Rightarrow> tbl | Some s \<Rightarrow> tbl[s := \<lparr>re_id = mid, re_ptr = Some p\<rparr>])" for ss
    by (induction ss) auto
  then show ?thesis by (simp add: registry_insert_def)
qed

lemma remove_locate: "registry_remove tbl mid = (case locate_id tbl mid of None \<Rightarrow> tbl
    | Some s \<Rightarrow> if re_id (tbl ! s) = 0 then tbl else tbl[s := (tbl ! s)\<lparr>re_ptr := None\<rparr>])"
proof -
  have "remove_loop tbl mid ss = (case locate tbl mid ss of None \<Rightarrow> tbl
    | Some s \<Rightarrow> if re_id (tbl ! s) = 0 then tbl else tbl[s := (tbl ! s)\<lparr>re_ptr := None\<rparr>])" for ss
    by (induction ss) auto
  then show ?thesis by (simp add: registry_remove_def)
qed

lemma find_locate: "registry_find tbl mid = (case locate_id tbl mid of None \<Rightarrow> None
    | Some s \<Rightarrow> if re_id (tbl ! s) = 0 then None else re_ptr (tbl ! s))"
proof -
  have "find_loop tbl mid ss = (case locate tbl mid ss of None \<Rightarrow> None
    | Some s \<Rightarrow> if re_id (tbl ! s) = 0 then None else re_ptr (tbl ! s))" for ss
    by (induction ss) auto
  then show ?thesis by (simp add: registry_find_def)
qed

lemma locate_SomeD:
  "locate tbl mid ss = Some s \<Longrightarrow> s \<in> set ss \<and> (re_id (tbl ! s) = 0 \<or> re_id (tbl ! s) = mid)"
  by (induction ss) (auto split: if_splits)

lemma locate_NoneD: "locate tbl mid ss = None \<Longrightarrow> s \<in> set ss \<Longrightarrow> re_id (tbl ! s) \<noteq> 0 \<and> re_id (tbl ! s) \<noteq> mid"
  by (induction ss) (auto split: if_splits)

lemma locate_update_other:
  assumes "locate tbl k ss = Some t" and "re_id (tbl ! t) = k" and "t \<noteq> s"
    and "re_id x \<noteq> 0" and "re_id x \<noteq> k" and "s < length tbl"
  shows "locate (tbl[s := x]) k ss = Some t"
  using assms by (induction ss) (auto simp: nth_list_update split: if_splits)

lemma locate_update_same:
  assumes "locate tbl k ss = Some s" and "s < length tbl" and "re_id x = k"
  shows "locate (tbl[s := x]) k ss = Some s"
  using assms by (induction ss) (auto simp: nth_list_update split: if_splits)

lemma locate_update_ptr:
  assumes "s < length tbl" and "re_id x = re_id (tbl ! s)"
  shows "locate (tbl[s := x]) k ss = locate tbl k ss"
  using assms by (induction ss) (auto simp: nth_list_update)

section \<open>Well-formed tables\<close>

text \<open>Every id in the table is where a probe for it stops.\<close>

definition table_ok :: "'m registry_table \<Rightarrow> bool" where
  "table_ok tbl \<longleftrightarrow> length tbl = 512 \<and>
     (\<forall>s < 512. re_id (tbl ! s) \<noteq> 0 \<longrightarrow> locate_id tbl (re_id (tbl ! s)) = Some s)"

text \<open>There is an empty slot, or a slot for the id.\<close>

definition room :: "'m registry_table \<Rightarrow> u32 \<Rightarrow> bool" where
  "room tbl mid \<longleftrightarrow> (\<exists>s < 512. re_id (tbl ! s) = 0 \<or> re_id (tbl ! s) = mid)"

lemma table_ok_empty: "table_ok empty_table"
  by (simp add: table_ok_def empty_table_def kRegistryCapacity_def)

lemma room_locate: "room tbl mid \<longleftrightarrow> (\<exists>s. locate_id tbl mid = Some s)"
  using locate_SomeD [of tbl mid "probe_seq mid"] locate_NoneD [of tbl mid "probe_seq mid"]
  by (cases "locate_id tbl mid") (auto simp: room_def set_probe_seq)

lemma locate_id_SomeD: "locate_id tbl mid = Some s \<Longrightarrow> s < 512 \<and> (re_id (tbl ! s) = 0 \<or> re_id (tbl ! s) = mid)"
  using locate_SomeD [of tbl mid "probe_seq mid" s] by (simp add: set_probe_seq)

lemma find_iff:
  assumes "table_ok tbl" and "mid \<noteq> 0"
  shows "registry_find tbl mid = Some p \<longleftrightarrow> (\<exists>s < 512. re_id (tbl ! s) = mid \<and> re_ptr (tbl ! s) = Some p)"
  using assms locate_id_SomeD [of tbl mid]
  by (fastforce simp: find_locate table_ok_def split: option.splits if_splits)

lemma table_ok_insert:
  assumes "table_ok tbl" and "mid \<noteq> 0"
  shows "table_ok (registry_insert tbl mid p)"
proof (cases "locate_id tbl mid")
  case None
  with assms show ?thesis by (simp add: insert_locate)
next
  case (Some s)
  note s = locate_id_SomeD [OF Some]
  have len: "length tbl = 512" using assms by (simp add: table_ok_def)
  let ?x = "\<lparr>re_id = mid, re_ptr = Some p\<rparr>"
  have "locate_id (tbl[s := ?x]) (re_id (tbl[s := ?x] ! t)) = Some t"
    if t: "t < 512" "re_id (tbl[s := ?x] ! t) \<noteq> 0" for t
  proof (cases "t = s")
    case True
    then show ?thesis using locate_update_same [OF Some, of ?x] s len by simp
  next
    case False
    with t assms have "locate_id tbl (re_id (tbl ! t)) = Some t" by (simp add: table_ok_def)
    moreover have "re_id (tbl ! t) \<noteq> mid" using calculation Some False by auto
    ultimately show ?thesis using False assms(2) s len locate_update_other [of tbl "re_id (tbl ! t)"] by simp
  qed
  with Some len show ?thesis by (simp add: insert_locate table_ok_def)
qed

lemma table_ok_remove:
  assumes "table_ok tbl"
  shows "table_ok (registry_remove tbl mid)"
proof (cases "locate_id tbl mid")
  case None
  with assms show ?thesis by (simp add: remove_locate)
next
  case (Some s)
  note s = locate_id_SomeD [OF Some]
  have len: "length tbl = 512" using assms by (simp add: table_ok_def)
  let ?x = "(tbl ! s)\<lparr>re_ptr := None\<rparr>"
  have "locate_id (tbl[s := ?x]) k = locate_id tbl k" for k
    using locate_update_ptr [of s tbl ?x k] s len by simp
  moreover have "re_id (tbl[s := ?x] ! t) = re_id (tbl ! t)" for t
    using s len by (cases "t = s") simp_all
  ultimately show ?thesis using Some assms by (simp add: remove_locate table_ok_def)
qed

lemma find_eqI:
  assumes "\<And>q. f = Some q \<longleftrightarrow> g = Some q"
  shows "f = g"
  using assms by (metis not_None_eq)

lemma find_insert:
  assumes "table_ok tbl" and "mid \<noteq> 0" and "k \<noteq> 0" and "room tbl mid"
  shows "registry_find (registry_insert tbl mid p) k = (if k = mid then Some p else registry_find tbl k)"
proof -
  obtain s where s: "locate_id tbl mid = Some s" using assms(4) by (auto simp: room_locate)
  let ?x = "\<lparr>re_id = mid, re_ptr = Some p\<rparr>"
  have ins: "registry_insert tbl mid p = tbl[s := ?x]" using s by (simp add: insert_locate)
  have at: "tbl[s := ?x] ! t = (if t = s then ?x else tbl ! t)" for t
    using locate_id_SomeD [OF s] assms(1) by (simp add: table_ok_def)
  have ok: "table_ok (tbl[s := ?x])" using table_ok_insert [OF assms(1,2), of p] ins by simp
  show ?thesis
  proof (cases "k = mid")
    case True
    have "registry_find (tbl[s := ?x]) mid = Some p"
      using locate_id_SomeD [OF s] unfolding find_iff [OF ok assms(2)] at by auto
    with True ins show ?thesis by simp
  next
    case False
    have "registry_find (tbl[s := ?x]) k = registry_find tbl k"
    proof (rule find_eqI)
      fix q
      have "re_id (tbl[s := ?x] ! t) = k \<and> re_ptr (tbl[s := ?x] ! t) = Some q \<longleftrightarrow>
          re_id (tbl ! t) = k \<and> re_ptr (tbl ! t) = Some q" for t
        using False locate_id_SomeD [OF s] assms(3) unfolding at by auto
      then show "registry_find (tbl[s := ?x]) k = Some q \<longleftrightarrow> registry_find tbl k = Some q"
        by (simp add: find_iff [OF ok assms(3)] find_iff [OF assms(1,3)])
    qed
    with False ins show ?thesis by simp
  qed
qed

lemma find_remove:
  assumes "table_ok tbl" and "k \<noteq> 0"
  shows "registry_find (registry_remove tbl mid) k = (if k = mid then None else registry_find tbl k)"
proof (cases "\<exists>s. locate_id tbl mid = Some s \<and> re_id (tbl ! s) \<noteq> 0")
  case False
  then have "registry_remove tbl mid = tbl" by (auto simp: remove_locate split: option.splits)
  moreover have "registry_find tbl mid = None" using False by (auto simp: find_locate split: option.splits)
  ultimately show ?thesis by simp
next
  case True
  then obtain s where s: "locate_id tbl mid = Some s" "re_id (tbl ! s) = mid" "s < 512" "mid \<noteq> 0"
    using locate_id_SomeD [of tbl mid] by fastforce
  let ?x = "(tbl ! s)\<lparr>re_ptr := None\<rparr>"
  have rem: "registry_remove tbl mid = tbl[s := ?x]" using s by (simp add: remove_locate)
  have at: "tbl[s := ?x] ! t = (if t = s then ?x else tbl ! t)" for t
    using s(3) assms(1) by (simp add: table_ok_def)
  have ok: "table_ok (tbl[s := ?x])" using table_ok_remove [OF assms(1), of mid] rem by simp
  have uniq: "t = s" if "t < 512" "re_id (tbl ! t) = mid" for t
    using assms(1) s(1,4) that by (auto simp: table_ok_def)
  have "registry_find (tbl[s := ?x]) k = (if k = mid then None else registry_find tbl k)"
  proof (rule find_eqI)
    fix q
    have "t < 512 \<and> re_id (tbl[s := ?x] ! t) = k \<and> re_ptr (tbl[s := ?x] ! t) = Some q \<longleftrightarrow>
        t < 512 \<and> k \<noteq> mid \<and> re_id (tbl ! t) = k \<and> re_ptr (tbl ! t) = Some q" for t
      using s(2) uniq unfolding at by auto
    then show "registry_find (tbl[s := ?x]) k = Some q \<longleftrightarrow>
        (if k = mid then None else registry_find tbl k) = Some q"
      by (simp add: find_iff [OF ok assms(2)] find_iff [OF assms])
  qed
  with rem show ?thesis by simp
qed


section \<open>The directory contract\<close>

text \<open>
  What the senders rely on: after an insert the id is found, nothing else changes, a removed id
  is no longer found. The contract holds for tables that are well-formed and ids that are not 0,
  as long as there is room.
\<close>

locale directory =
  fixes ok :: "'t \<Rightarrow> bool" and fits :: "'t \<Rightarrow> u32 \<Rightarrow> bool" and valid_id :: "u32 \<Rightarrow> bool"
    and put :: "'t \<Rightarrow> u32 \<Rightarrow> 'm \<Rightarrow> 't" and del :: "'t \<Rightarrow> u32 \<Rightarrow> 't" and get :: "'t \<Rightarrow> u32 \<Rightarrow> 'm option"
    and empty_dir :: 't
  assumes ok_empty: "ok empty_dir" and get_empty: "valid_id k \<Longrightarrow> get empty_dir k = None"
    and ok_put: "ok t \<Longrightarrow> valid_id i \<Longrightarrow> ok (put t i p)" and ok_del: "ok t \<Longrightarrow> ok (del t i)"
    and get_put: "ok t \<Longrightarrow> valid_id i \<Longrightarrow> valid_id k \<Longrightarrow> fits t i \<Longrightarrow>
      get (put t i p) k = (if k = i then Some p else get t k)"
    and get_del: "ok t \<Longrightarrow> valid_id k \<Longrightarrow> get (del t i) k = (if k = i then None else get t k)"
    and fits_again: "ok t \<Longrightarrow> valid_id i \<Longrightarrow> get t i = Some p \<Longrightarrow> fits t i"
begin

lemma put_del_other:
  "ok t \<Longrightarrow> valid_id i \<Longrightarrow> valid_id k \<Longrightarrow> fits t i \<Longrightarrow> k \<noteq> i \<Longrightarrow> get (del (put t i p) i) k = get t k"
  by (simp add: get_del get_put ok_put)

lemma put_again:
  "ok t \<Longrightarrow> valid_id i \<Longrightarrow> fits t i \<Longrightarrow> get (put (put t i p) i q) i = Some q"
  by (metis fits_again get_put ok_put)

end

interpretation evl_dir: directory table_ok room "\<lambda>i. i \<noteq> 0" registry_insert registry_remove
  registry_find empty_table
proof unfold_locales
  fix k :: u32 assume "k \<noteq> 0"
  then show "registry_find empty_table k = None"
    by (intro find_eqI) (simp add: find_iff [OF table_ok_empty],
        simp add: empty_table_def kRegistryCapacity_def)
next
  fix t :: "'a registry_table" and i p
  assume "table_ok t" "i \<noteq> 0" "registry_find t i = Some p"
  then show "room t i" by (auto simp: find_iff room_def)
qed (simp_all add: table_ok_empty table_ok_insert table_ok_remove find_insert find_remove)

text \<open>The directory a process has built up: inserts and removes in any order.\<close>

datatype 'm dir_op = Insert u32 'm | Remove u32

fun run_ops :: "'m dir_op list \<Rightarrow> 'm registry_table" where
  "run_ops [] = empty_table"
| "run_ops (Insert i p # ops) = registry_insert (run_ops ops) i p"
| "run_ops (Remove i # ops) = registry_remove (run_ops ops) i"

fun spec_ops :: "'m dir_op list \<Rightarrow> u32 \<rightharpoonup> 'm" where
  "spec_ops [] = Map.empty"
| "spec_ops (Insert i p # ops) = (spec_ops ops)(i \<mapsto> p)"
| "spec_ops (Remove i # ops) = (spec_ops ops)(i := None)"

fun op_id :: "'m dir_op \<Rightarrow> u32" where
  "op_id (Insert i p) = i"
| "op_id (Remove i) = i"

fun inserted :: "'m dir_op list \<Rightarrow> u32 set" where
  "inserted [] = {}"
| "inserted (Insert i p # ops) = insert i (inserted ops)"
| "inserted (Remove i # ops) = inserted ops"

lemma finite_inserted: "finite (inserted ops)"
  by (induction ops rule: inserted.induct) simp_all

lemma ids_insert:
  "re_id ` set (registry_insert tbl i p) \<subseteq> insert i (re_id ` set tbl)"
  by (auto simp: insert_locate split: option.splits dest!: set_update_subset_insert [THEN subsetD])

lemma set_update_keeps: "y \<in> set xs \<Longrightarrow> y \<noteq> xs ! s \<Longrightarrow> y \<in> set (xs[s := x])"
  by (metis in_set_conv_nth length_list_update nth_list_update_neq)

lemma ids_kept:
  assumes "table_ok tbl"
  shows "re_id ` set tbl - {0} \<subseteq> re_id ` set (registry_insert tbl i p)"
    and "room tbl i \<Longrightarrow> i \<in> re_id ` set (registry_insert tbl i p)"
    and "re_id ` set (registry_remove tbl i) = re_id ` set tbl"
proof -
  have len: "length tbl = 512" using assms by (simp add: table_ok_def)
  show 2: "i \<in> re_id ` set (registry_insert tbl i p)" if "room tbl i"
    using that locate_id_SomeD [of tbl i] len
    by (auto simp: insert_locate room_locate intro!: image_eqI [OF _ set_update_memI])
  show "re_id ` set tbl - {0} \<subseteq> re_id ` set (registry_insert tbl i p)"
  proof
    fix k assume k: "k \<in> re_id ` set tbl - {0}"
    show "k \<in> re_id ` set (registry_insert tbl i p)"
    proof (cases "locate_id tbl i")
      case None
      with k show ?thesis by (simp add: insert_locate)
    next
      case (Some s)
      have "k \<in> set (map re_id tbl)" using k by simp
      moreover have "map re_id tbl ! s \<in> {0, i}"
        using locate_id_SomeD [OF Some] len by auto
      ultimately have "k = i \<or> k \<in> set ((map re_id tbl)[s := i])"
        using k set_update_keeps [of k "map re_id tbl" s i] by fastforce
      moreover have "room tbl i" using Some by (simp add: room_locate)
      ultimately show ?thesis
        using 2 Some set_map [of re_id "registry_insert tbl i p"]
        by (auto simp: insert_locate map_update simp del: set_map)
    qed
  qed
  have "map re_id (registry_remove tbl i) = map re_id tbl"
    by (simp add: remove_locate map_update list_update_id split: option.splits)
      (metis (mono_tags) len list_update_id locate_id_SomeD nth_map)
  then show "re_id ` set (registry_remove tbl i) = re_id ` set tbl"
    by (metis set_map)
qed

lemma run_ops_ok:
  assumes "\<forall>op \<in> set ops. op_id op \<noteq> 0"
  shows "table_ok (run_ops ops) \<and> re_id ` set (run_ops ops) \<subseteq> insert 0 (inserted ops)"
  using assms
proof (induction ops rule: run_ops.induct)
  case 1
  then show ?case by (auto simp: table_ok_empty) (simp add: empty_table_def)
next
  case (2 i p ops)
  then show ?case using ids_insert [of "run_ops ops" i p] by (fastforce simp: table_ok_insert)
next
  case (3 i ops)
  then show ?case using ids_kept(3) [of "run_ops ops" i] by (simp add: table_ok_remove)
qed

text \<open>The slots of a well-formed table hold pairwise different ids.\<close>

lemma table_ids_inj:
  assumes "table_ok tbl" and "\<forall>s < 512. re_id (tbl ! s) \<noteq> 0"
  shows "card (re_id ` set tbl) = 512"
proof -
  have "distinct (map re_id tbl)"
    using assms by (auto simp: distinct_conv_nth table_ok_def) (metis option.inject)
  then have "card (set (map re_id tbl)) = length tbl"
    using distinct_card [of "map re_id tbl"] by simp
  then show ?thesis using assms(1) by (simp add: table_ok_def)
qed

lemma run_ops_room:
  assumes "\<forall>op \<in> set ops. op_id op \<noteq> 0" and "card (inserted ops) < 512"
  shows "room (run_ops ops) i"
proof (rule ccontr)
  assume "\<not> room (run_ops ops) i"
  then have nz: "\<forall>s < 512. re_id (run_ops ops ! s) \<noteq> 0" by (auto simp: room_def)
  note ok = run_ops_ok [OF assms(1)]
  then have "length (run_ops ops) = 512" by (simp add: table_ok_def)
  with nz have "0 \<notin> re_id ` set (run_ops ops)" by (auto simp: in_set_conv_nth)
  with ok have "re_id ` set (run_ops ops) \<subseteq> inserted ops" by auto
  then have "card (re_id ` set (run_ops ops)) \<le> card (inserted ops)"
    by (rule card_mono [OF finite_inserted])
  with table_ids_inj [OF _ nz] ok assms(2) show False by simp
qed

lemma zero_not_inserted: "\<forall>op \<in> set ops. op_id op \<noteq> 0 \<Longrightarrow> 0 \<notin> inserted ops"
  by (induction ops rule: inserted.induct) auto

lemma run_ops_spec:
  assumes "\<forall>op \<in> set ops. op_id op \<noteq> 0" and "card (inserted ops) \<le> 512" and "k \<noteq> 0"
  shows "registry_find (run_ops ops) k = spec_ops ops k \<and> inserted ops \<subseteq> re_id ` set (run_ops ops)"
  using assms(1,2)
proof (induction ops rule: run_ops.induct)
  case 1
  then show ?case using evl_dir.get_empty assms(3) by simp
next
  case (2 i p ops)
  let ?t = "run_ops ops"
  have c: "card (inserted ops) < 512 \<or> i \<in> inserted ops" "card (inserted ops) \<le> 512"
    using 2(3) finite_inserted [of ops] by (cases "i \<in> inserted ops"; simp add: insert_absorb)+
  with 2 have IH: "registry_find ?t k = spec_ops ops k" "inserted ops \<subseteq> re_id ` set ?t" by simp_all
  have ok: "table_ok ?t" using run_ops_ok [of ops] 2(2) by simp
  have r: "room ?t i"
  proof (cases "i \<in> inserted ops")
    case True
    with IH(2) ok show ?thesis by (force simp: room_def table_ok_def in_set_conv_nth)
  next
    case False
    with c run_ops_room [of ops i] 2(2) show ?thesis by simp
  qed
  have nz: "0 \<notin> inserted ops" using 2(2) by (simp add: zero_not_inserted)
  with IH(2) have "inserted ops \<subseteq> re_id ` set ?t - {0}" by (simp add: subset_Diff_insert)
  then have "inserted ops \<subseteq> re_id ` set (registry_insert ?t i p)"
    using ids_kept(1) [OF ok] by (rule subset_trans)
  with r IH ok 2(2) assms(3) ids_kept(2) [OF ok r] show ?case by (simp add: evl_dir.get_put)
next
  case (3 i ops)
  then have ok: "table_ok (run_ops ops)" using run_ops_ok [of ops] by simp
  with 3 show ?case using assms(3) ids_kept(3) [OF ok, of i] by (simp add: evl_dir.get_del)
qed

text \<open>
  C33. Whatever sequence of inserts and removes a process has performed, a lookup answers as
  a plain map would, as long as no more than 512 different ids were ever inserted and id 0 is
  not used: collisions, probing and tombstones are invisible.
\<close>

theorem registry_is_map:
  assumes "\<forall>op \<in> set ops. op_id op \<noteq> 0" and "card (inserted ops) \<le> 512" and "k \<noteq> 0"
  shows "registry_find (run_ops ops) k = spec_ops ops k"
  using run_ops_spec [OF assms] by simp

theorem registry_is_map_witness:
  "registry_find (run_ops [Remove 7, Insert 9 False, Insert 7 True]) 9 = Some False"
proof -
  have "card (inserted [Remove 7, Insert 9 False, Insert 7 True]) \<le> 512"
    by (simp add: card_insert_if)
  with registry_is_map [of "[Remove 7, Insert 9 False, Insert 7 True]" 9] show ?thesis by simp
qed

text \<open>
  Tombstones are never reclaimed: once all 512 slots carry an id, an insert of any other
  id leaves the table as it is, without a report, and that id is not found.
\<close>

lemma registry_exhausted:
  assumes "\<not> room tbl mid" and "mid \<noteq> 0"
  shows "registry_insert tbl mid p = tbl \<and> registry_find (registry_insert tbl mid p) mid = None"
  using assms by (auto simp: room_locate insert_locate find_locate split: option.splits)

definition ex_full :: "nat registry_table" where
  "ex_full = map (\<lambda>i. \<lparr>re_id = of_nat (Suc i), re_ptr = None\<rparr>) [0..<512]"

lemma ex_full_no_room: "\<not> room ex_full 1000"
proof -
  have "word_of_nat (Suc s) \<noteq> (0 :: u32) \<and> word_of_nat (Suc s) \<noteq> (1000 :: u32)" if "s < 512" for s
    using that by (simp add: word_unat_eq_iff unat_of_nat del: of_nat_Suc)
  then show ?thesis unfolding room_def ex_full_def by (auto simp del: upt_rec_numeral of_nat_Suc)
qed

text \<open>Id 0 doubles as the mark of an empty slot, so a mailbox with that id is never found.\<close>

lemma registry_find_zero: "registry_find tbl 0 = None"
  by (auto simp: find_locate dest: locate_id_SomeD split: option.splits)

end
