(* ===== verification/Evl_Ring.thy ===== *)
theory Evl_Ring
  imports Protocol "HOL-Library.Multiset"
begin

text \<open>
  The message ring of an EVL mailbox, \<open>ipc/evl/evl_backend.hpp\<close>: slots with a priority, an
  in-use mark, a source and a size, and one array of \<open>capacity * slot_size\<close> payload bytes, in
  the heap or in a shared memory region. Posting takes a free slot or evicts the message of
  lowest priority; receiving takes the message of highest priority. The operations run under
  the ring's mutex, so each is one atomic step. A memory access outside the arrays, undefined
  in C++, is the outcome \<open>None\<close>.
\<close>

section \<open>Slots\<close>

record slot_meta =
  sm_priority :: i8
  sm_in_use :: bool
  sm_src :: u32
  sm_size :: u32

record ring =
  rg_capacity :: nat
  rg_slot_size :: nat
  rg_meta :: "slot_meta list"
  rg_data :: bytes

definition free_slot :: slot_meta where
  "free_slot = \<lparr>sm_priority = 0, sm_in_use = False, sm_src = 0, sm_size = 0\<rparr>"

text \<open>
  Allocation. The heap arrays are value-initialised; a shared memory region keeps what it held
  before (\<open>found\<close>: the region's slots and payload seen through the new layout), since it is
  opened with \<open>O_CREAT\<close> and only the layout header is written.
\<close>

definition allocate_heap :: "nat \<Rightarrow> nat \<Rightarrow> ring" where
  "allocate_heap slots slot_size = \<lparr>rg_capacity = slots, rg_slot_size = slot_size,
     rg_meta = replicate slots free_slot, rg_data = replicate (slots * slot_size) 0\<rparr>"

definition allocate_shm :: "slot_meta list \<times> bytes \<Rightarrow> nat \<Rightarrow> nat \<Rightarrow> ring" where
  "allocate_shm found slots slot_size = \<lparr>rg_capacity = slots, rg_slot_size = slot_size,
     rg_meta = fst found, rg_data = snd found\<rparr>"

definition find_free_slot :: "ring \<Rightarrow> nat option" where
  "find_free_slot r = List.find (\<lambda>i. \<not> sm_in_use (rg_meta r ! i)) [0..<rg_capacity r]"

definition has_in_use_slot :: "ring \<Rightarrow> bool" where
  "has_in_use_slot r = list_ex (\<lambda>i. sm_in_use (rg_meta r ! i)) [0..<rg_capacity r]"

definition find_highest_priority_slot :: "ring \<Rightarrow> nat option" where
  "find_highest_priority_slot r = fst (foldl (\<lambda>(best, prio) i.
     if sm_in_use (rg_meta r ! i) \<and> sint (sm_priority (rg_meta r ! i)) > prio
     then (Some i, sint (sm_priority (rg_meta r ! i))) else (best, prio)) (None, -128) [0..<rg_capacity r])"

definition lowest_priority_slot :: "ring \<Rightarrow> nat option \<times> int" where
  "lowest_priority_slot r = foldl (\<lambda>(worst, prio) i.
     if sm_in_use (rg_meta r ! i) \<and> sint (sm_priority (rg_meta r ! i)) < prio
     then (Some i, sint (sm_priority (rg_meta r ! i))) else (worst, prio)) (None, 127) [0..<rg_capacity r]"

definition release_slot :: "ring \<Rightarrow> nat \<Rightarrow> ring" where
  "release_slot r i = r\<lparr>rg_meta := (rg_meta r)[i := (rg_meta r ! i)\<lparr>sm_in_use := False\<rparr>]\<rparr>"

definition evict_lowest :: "ring \<Rightarrow> i8 \<Rightarrow> nat option \<times> ring" where
  "evict_lowest r prio_new =
     (case lowest_priority_slot r of (worst, prio) \<Rightarrow>
        case worst of None \<Rightarrow> (None, r)
        | Some w \<Rightarrow> if sint prio_new \<ge> prio then (Some w, release_slot r w) else (None, r))"

text \<open>The free slot, or the one made free: the first lines of both \<open>post\<close> and \<open>post_to_remote\<close>.\<close>

definition claim_slot :: "ring \<Rightarrow> i8 \<Rightarrow> nat option \<times> ring" where
  "claim_slot r priority =
     (case find_free_slot r of Some i \<Rightarrow> (Some i, r) | None \<Rightarrow> evict_lowest r priority)"

text \<open>\<open>memcpy\<close> into slot \<open>i\<close> and the new slot record.\<close>

definition fill_slot :: "ring \<Rightarrow> nat \<Rightarrow> bytes \<Rightarrow> i8 \<Rightarrow> u32 \<Rightarrow> ring option" where
  "fill_slot r i data priority src =
     (if i * rg_slot_size r + length data \<le> length (rg_data r)
      then Some (r\<lparr>rg_data := overwrite (i * rg_slot_size r) data (rg_data r),
             rg_meta := (rg_meta r)[i := \<lparr>sm_priority = priority, sm_in_use = True, sm_src = src,
               sm_size = of_nat (length data)\<rparr>]\<rparr>)
      else None)"

definition post :: "ring \<Rightarrow> bytes \<Rightarrow> i8 \<Rightarrow> u32 \<Rightarrow> (bool \<times> ring) option" where
  "post r data priority src =
     (case claim_slot r priority of
        (None, r1) \<Rightarrow> Some (False, r1)
      | (Some i, r1) \<Rightarrow> map_option (Pair True) (fill_slot r1 i data priority src))"

text \<open>Posting into another process's ring copies at most a slot's worth of bytes.\<close>

definition post_to_remote :: "ring \<Rightarrow> bytes \<Rightarrow> i8 \<Rightarrow> u32 \<Rightarrow> (bool \<times> ring) option" where
  "post_to_remote r data priority src = post r (take (rg_slot_size r) data) priority src"

text \<open>The receiver's part under the lock, once a slot is in use.\<close>

definition receive_slot :: "ring \<Rightarrow> nat \<Rightarrow> (int \<times> bytes \<times> slot_meta \<times> ring) option" where
  "receive_slot r buffer_size =
     (case find_highest_priority_slot r of None \<Rightarrow> None
      | Some i \<Rightarrow>
          let sm = rg_meta r ! i; sz = unat (sm_size sm)
          in if sz > buffer_size then Some (- EMSGSIZE, [], sm, r)
             else Some (int sz, take sz (drop (i * rg_slot_size r) (rg_data r)), sm, release_slot r i))"

section \<open>What the loops find\<close>

lemma find_free_slot_Some:
  "find_free_slot r = Some i \<Longrightarrow> i < rg_capacity r \<and> \<not> sm_in_use (rg_meta r ! i)"
  by (auto simp: find_free_slot_def find_Some_iff)

lemma find_free_slot_None:
  "find_free_slot r = None \<longleftrightarrow> (\<forall>i < rg_capacity r. sm_in_use (rg_meta r ! i))"
  by (auto simp: find_free_slot_def find_None_iff)

lemma has_in_use_slot_iff: "has_in_use_slot r \<longleftrightarrow> (\<exists>i < rg_capacity r. sm_in_use (rg_meta r ! i))"
  by (auto simp: has_in_use_slot_def list_ex_iff)

abbreviation prio_at :: "ring \<Rightarrow> nat \<Rightarrow> int" where
  "prio_at r i \<equiv> sint (sm_priority (rg_meta r ! i))"

lemma pick_max:
  assumes "foldl (\<lambda>(best, prio) i. if P i \<and> k i > prio then (Some i, k i) else (best, prio))
    (None, lo) [0..<n] = (best, prio)"
  shows "(case best of None \<Rightarrow> prio = lo | Some i \<Rightarrow> i < n \<and> P i \<and> lo < k i \<and> prio = k i)
    \<and> lo \<le> prio \<and> (\<forall>j < n. P j \<longrightarrow> k j \<le> (prio::int))"
  using assms
proof (induction n arbitrary: best prio)
  case (Suc n)
  obtain b p where bp: "foldl (\<lambda>(best, prio) i. if P i \<and> k i > prio then (Some i, k i) else (best, prio))
    (None, lo) [0..<n] = (b, p)" by fastforce
  from Suc.IH [OF bp] Suc.prems bp show ?case
    by (fastforce simp: less_Suc_eq split: option.splits if_splits)
qed simp

lemma pick_min:
  assumes "foldl (\<lambda>(worst, prio) i. if P i \<and> k i < prio then (Some i, k i) else (worst, prio))
    (None, hi) [0..<n] = (worst, prio)"
  shows "(case worst of None \<Rightarrow> prio = hi | Some i \<Rightarrow> i < n \<and> P i \<and> k i < hi \<and> prio = k i)
    \<and> prio \<le> hi \<and> (\<forall>j < n. P j \<longrightarrow> (prio::int) \<le> k j)"
  using assms
proof (induction n arbitrary: worst prio)
  case (Suc n)
  obtain b p where bp: "foldl (\<lambda>(worst, prio) i. if P i \<and> k i < prio then (Some i, k i) else (worst, prio))
    (None, hi) [0..<n] = (b, p)" by fastforce
  from Suc.IH [OF bp] Suc.prems bp show ?case
    by (fastforce simp: less_Suc_eq split: option.splits if_splits)
qed simp

lemma i8_bounds: "-128 \<le> sint (p::i8)" "sint (p::i8) \<le> 127"
  using sint_greater_eq [of p] sint_less [of p] by simp_all

lemma find_highest_Some:
  assumes "find_highest_priority_slot r = Some i"
  shows "i < rg_capacity r" "sm_in_use (rg_meta r ! i)"
    "j < rg_capacity r \<Longrightarrow> sm_in_use (rg_meta r ! j) \<Longrightarrow> prio_at r j \<le> prio_at r i"
proof -
  let ?f = "\<lambda>(best, prio) i. if sm_in_use (rg_meta r ! i) \<and> prio_at r i > prio
    then (Some i, prio_at r i) else (best, prio)"
  obtain p where "foldl ?f (None, -128) [0..<rg_capacity r] = (Some i, p)"
    using assms by (auto simp: find_highest_priority_slot_def prod_eq_iff)
  from pick_max [OF this] show "i < rg_capacity r" "sm_in_use (rg_meta r ! i)"
    "j < rg_capacity r \<Longrightarrow> sm_in_use (rg_meta r ! j) \<Longrightarrow> prio_at r j \<le> prio_at r i" by auto
qed


lemma find_highest_None:
  assumes "find_highest_priority_slot r = None" and "j < rg_capacity r" and "sm_in_use (rg_meta r ! j)"
  shows "prio_at r j = -128"
proof -
  let ?f = "\<lambda>(best, prio) i. if sm_in_use (rg_meta r ! i) \<and> prio_at r i > prio
    then (Some i, prio_at r i) else (best, prio)"
  obtain p where "foldl ?f (None, -128) [0..<rg_capacity r] = (None, p)"
    using assms by (auto simp: find_highest_priority_slot_def prod_eq_iff)
  from pick_max [OF this] assms(2,3) i8_bounds(1) [of "sm_priority (rg_meta r ! j)"]
  show ?thesis by force
qed

lemma lowest_priority_slot_props:
  assumes "lowest_priority_slot r = (worst, prio)"
  shows "worst = Some i \<Longrightarrow> i < rg_capacity r \<and> sm_in_use (rg_meta r ! i) \<and> prio_at r i < 127 \<and> prio = prio_at r i"
    and "j < rg_capacity r \<Longrightarrow> sm_in_use (rg_meta r ! j) \<Longrightarrow> prio \<le> prio_at r j"
    and "worst = None \<Longrightarrow> prio = 127"
  using pick_min [OF assms [unfolded lowest_priority_slot_def]] by auto

section \<open>The messages in a ring\<close>

type_synonym ring_msg = "i8 \<times> u32 \<times> bytes"

abbreviation msg_prio :: "ring_msg \<Rightarrow> int" where "msg_prio m \<equiv> sint (fst m)"

definition slot_msg :: "ring \<Rightarrow> nat \<Rightarrow> ring_msg" where
  "slot_msg r i = (sm_priority (rg_meta r ! i), sm_src (rg_meta r ! i),
     take (unat (sm_size (rg_meta r ! i))) (drop (i * rg_slot_size r) (rg_data r)))"

definition slot_bag :: "ring \<Rightarrow> nat \<Rightarrow> ring_msg multiset" where
  "slot_bag r i = (if sm_in_use (rg_meta r ! i) then {#slot_msg r i#} else {#})"

definition contents :: "ring \<Rightarrow> ring_msg multiset" where
  "contents r = (\<Sum>i<rg_capacity r. slot_bag r i)"

definition ring_ok :: "ring \<Rightarrow> bool" where
  "ring_ok r \<longleftrightarrow> length (rg_meta r) = rg_capacity r \<and> length (rg_data r) = rg_capacity r * rg_slot_size r
     \<and> rg_slot_size r < 2 ^ 32
     \<and> (\<forall>i < rg_capacity r. sm_in_use (rg_meta r ! i) \<longrightarrow> unat (sm_size (rg_meta r ! i)) \<le> rg_slot_size r)"

lemma slot_msg_length:
  assumes "ring_ok r" and "i < rg_capacity r" and "sm_in_use (rg_meta r ! i)"
  shows "length (snd (snd (slot_msg r i))) = unat (sm_size (rg_meta r ! i))"
proof -
  have "Suc i * rg_slot_size r \<le> rg_capacity r * rg_slot_size r"
    using assms(2) by (intro mult_right_mono) simp_all
  moreover have "unat (sm_size (rg_meta r ! i)) \<le> rg_slot_size r"
    "length (rg_data r) = rg_capacity r * rg_slot_size r"
    using assms by (auto simp: ring_ok_def)
  ultimately show ?thesis by (simp add: slot_msg_def)
qed

lemma in_contents:
  "m \<in># contents r \<longleftrightarrow> (\<exists>i < rg_capacity r. sm_in_use (rg_meta r ! i) \<and> m = slot_msg r i)"
  by (auto simp: contents_def slot_bag_def set_mset_sum split: if_splits)

lemma size_contents:
  "size (contents r) = card {i. i < rg_capacity r \<and> sm_in_use (rg_meta r ! i)}"
proof -
  have "size (contents r) = (\<Sum>i<rg_capacity r. if sm_in_use (rg_meta r ! i) then 1 else 0)"
    unfolding contents_def size_multiset_sum by (rule sum.cong) (simp_all add: slot_bag_def)
  also have "\<dots> = card {i. i < rg_capacity r \<and> sm_in_use (rg_meta r ! i)}"
    by (simp add: sum.If_cases Int_def)
  finally show ?thesis .
qed

lemma full_iff: "find_free_slot r = None \<longleftrightarrow> size (contents r) = rg_capacity r"
proof -
  let ?U = "{i. i < rg_capacity r \<and> sm_in_use (rg_meta r ! i)}"
  have "?U \<subseteq> {..<rg_capacity r}" by auto
  then have "card ?U = rg_capacity r \<longleftrightarrow> ?U = {..<rg_capacity r}"
    by (metis card_lessThan card_subset_eq finite_lessThan)
  then show ?thesis by (auto simp: size_contents find_free_slot_None)
qed

lemma size_contents_le: "size (contents r) \<le> rg_capacity r"
proof -
  have "card {i. i < rg_capacity r \<and> sm_in_use (rg_meta r ! i)} \<le> card {..<rg_capacity r}"
    by (rule card_mono) auto
  then show ?thesis by (simp add: size_contents)
qed

text \<open>Changing one slot changes the bag at that slot only.\<close>

lemma contents_upd:
  assumes "i < rg_capacity r" and "rg_capacity r' = rg_capacity r"
    and "\<And>j. j < rg_capacity r \<Longrightarrow> j \<noteq> i \<Longrightarrow> slot_bag r' j = slot_bag r j"
  shows "contents r' + slot_bag r i = contents r + slot_bag r' i"
proof -
  have split: "contents s = slot_bag s i + (\<Sum>j\<in>{..<rg_capacity s} - {i}. slot_bag s j)"
    if "i < rg_capacity s" for s
    unfolding contents_def using that by (simp add: sum.remove)
  have "(\<Sum>j\<in>{..<rg_capacity r'} - {i}. slot_bag r' j) = (\<Sum>j\<in>{..<rg_capacity r} - {i}. slot_bag r j)"
    using assms by (intro sum.cong) auto
  with split [of r] split [of r'] assms(1,2) show ?thesis by (simp add: ac_simps)
qed

lemma release_slot_contents:
  assumes "ring_ok r" and "i < rg_capacity r" and "sm_in_use (rg_meta r ! i)"
  shows "ring_ok (release_slot r i)" "contents (release_slot r i) = contents r - {#slot_msg r i#}"
    "\<not> sm_in_use (rg_meta (release_slot r i) ! i)"
proof -
  have len: "length (rg_meta r) = rg_capacity r" using assms by (simp add: ring_ok_def)
  show "ring_ok (release_slot r i)"
    using assms by (auto simp: ring_ok_def release_slot_def nth_list_update)
  show "\<not> sm_in_use (rg_meta (release_slot r i) ! i)"
    using assms(2) len by (simp add: release_slot_def)
  have "slot_bag (release_slot r i) j = slot_bag r j" if "j \<noteq> i" for j
    using that by (simp add: slot_bag_def release_slot_def slot_msg_def)
  with contents_upd [of i r "release_slot r i"] assms len
  have "contents (release_slot r i) + slot_bag r i = contents r + {#}"
    by (simp add: release_slot_def slot_bag_def)
  with assms(3) show "contents (release_slot r i) = contents r - {#slot_msg r i#}"
    by (simp add: slot_bag_def) (metis add_mset_add_single add_mset_remove_trivial)
qed

lemma fill_slot_contents:
  assumes "ring_ok r" and "i < rg_capacity r" and "\<not> sm_in_use (rg_meta r ! i)"
    and "length d \<le> rg_slot_size r"
  shows "\<exists>r'. fill_slot r i d p src = Some r' \<and> ring_ok r' \<and> contents r' = contents r + {#(p, src, d)#}
    \<and> rg_capacity r' = rg_capacity r \<and> rg_slot_size r' = rg_slot_size r"
proof -
  have len: "length (rg_meta r) = rg_capacity r" "length (rg_data r) = rg_capacity r * rg_slot_size r"
    using assms by (simp_all add: ring_ok_def)
  have "(i + 1) * rg_slot_size r \<le> rg_capacity r * rg_slot_size r"
    using assms(2) by (intro mult_right_mono) simp_all
  then have fit: "i * rg_slot_size r + length d \<le> length (rg_data r)"
    using assms(4) len by simp
  define r' where "r' = r\<lparr>rg_data := overwrite (i * rg_slot_size r) d (rg_data r),
    rg_meta := (rg_meta r)[i := \<lparr>sm_priority = p, sm_in_use = True, sm_src = src,
      sm_size = of_nat (length d)\<rparr>]\<rparr>"
  have sz: "unat (of_nat (length d) :: u32) = length d"
    using assms(1,4) by (simp add: ring_ok_def unat_of_nat)
  have ok: "ring_ok r'"
    using assms(1,2,4) fit sz by (auto simp: ring_ok_def r'_def nth_list_update)
  have other: "slot_bag r' j = slot_bag r j" if j: "j < rg_capacity r" "j \<noteq> i" for j
  proof (cases "sm_in_use (rg_meta r ! j)")
    case True
    let ?n = "unat (sm_size (rg_meta r ! j))"
    have "?n \<le> rg_slot_size r" using True j assms(1) by (simp add: ring_ok_def)
    moreover have "(Suc i) * rg_slot_size r \<le> j * rg_slot_size r \<or> (Suc j) * rg_slot_size r \<le> i * rg_slot_size r"
      using j by (cases "i < j") (simp_all only: mult_le_mono1 Suc_leI linorder_not_less le_neq_implies_less simp_thms)
    ultimately have "take ?n (drop (j * rg_slot_size r) (overwrite (i * rg_slot_size r) d (rg_data r)))
        = take ?n (drop (j * rg_slot_size r) (rg_data r))"
      using assms(4) fit by (intro overwrite_read_other) auto
    with j show ?thesis by (simp add: slot_bag_def slot_msg_def r'_def)
  next
    case False
    with j show ?thesis by (simp add: slot_bag_def r'_def)
  qed
  have "slot_msg r' i = (p, src, d)"
    using assms(2) len fit sz by (simp add: slot_msg_def r'_def)
  then have here: "slot_bag r' i = {#(p, src, d)#}"
    using assms(2) len by (simp add: slot_bag_def r'_def)
  have "contents r' = contents r + {#(p, src, d)#}"
    using contents_upd [OF assms(2) _ other] here assms(3) by (simp add: slot_bag_def r'_def)
  with ok fit show ?thesis by (auto simp: fill_slot_def r'_def)
qed


section \<open>Posting and receiving\<close>

text \<open>What a full ring evicts for a new message, if anything.\<close>

definition evictable :: "ring_msg multiset \<Rightarrow> i8 \<Rightarrow> bool" where
  "evictable B p \<longleftrightarrow> (\<exists>m \<in># B. msg_prio m < 127 \<and> msg_prio m \<le> sint p)"

lemma evict_lowest_props:
  assumes "ring_ok r"
  shows "evictable (contents r) p \<Longrightarrow> \<exists>w. evict_lowest r p = (Some w, release_slot r w) \<and> w < rg_capacity r \<and>
      sm_in_use (rg_meta r ! w) \<and> (\<forall>m \<in># contents r. prio_at r w \<le> msg_prio m) \<and> prio_at r w \<le> sint p"
    and "\<not> evictable (contents r) p \<Longrightarrow> evict_lowest r p = (None, r)"
proof -
  obtain worst prio where wp: "lowest_priority_slot r = (worst, prio)" by fastforce
  note l = lowest_priority_slot_props [OF wp]
  have low: "\<forall>m \<in># contents r. prio \<le> msg_prio m"
    using l(2) by (auto simp: in_contents slot_msg_def)
  show "\<exists>w. evict_lowest r p = (Some w, release_slot r w) \<and> w < rg_capacity r \<and>
      sm_in_use (rg_meta r ! w) \<and> (\<forall>m \<in># contents r. prio_at r w \<le> msg_prio m) \<and> prio_at r w \<le> sint p"
    if "evictable (contents r) p"
  proof -
    from that low have "prio < 127" "prio \<le> sint p" by (force simp: evictable_def)+
    with l wp low show ?thesis by (cases worst) (auto simp: evict_lowest_def)
  qed
  show "evict_lowest r p = (None, r)" if "\<not> evictable (contents r) p"
  proof (cases worst)
    case (Some w)
    with l(1) have "slot_msg r w \<in># contents r" "prio = msg_prio (slot_msg r w)" "prio < 127"
      by (auto simp: in_contents slot_msg_def)
    with that have "\<not> prio \<le> sint p" by (auto simp: evictable_def)
    with Some wp show ?thesis by (simp add: evict_lowest_def)
  qed (simp add: evict_lowest_def wp)
qed

lemma post_free:
  assumes "ring_ok r" and "length d \<le> rg_slot_size r" and "size (contents r) < rg_capacity r"
  shows "\<exists>r'. post r d p src = Some (True, r') \<and> ring_ok r' \<and> contents r' = contents r + {#(p, src, d)#}
    \<and> rg_capacity r' = rg_capacity r \<and> rg_slot_size r' = rg_slot_size r"
proof -
  obtain i where "find_free_slot r = Some i"
    using assms(3) full_iff [of r] by (cases "find_free_slot r") simp_all
  with fill_slot_contents [OF assms(1) _ _ assms(2), of i p src] find_free_slot_Some [of r i]
  show ?thesis by (auto simp: post_def claim_slot_def)
qed

lemma post_evicts:
  assumes "ring_ok r" and "length d \<le> rg_slot_size r" and "size (contents r) = rg_capacity r"
    and "evictable (contents r) p"
  shows "\<exists>r' m. post r d p src = Some (True, r') \<and> ring_ok r' \<and> m \<in># contents r \<and>
    (\<forall>m' \<in># contents r. msg_prio m \<le> msg_prio m') \<and> msg_prio m \<le> sint p \<and>
    contents r' = contents r - {#m#} + {#(p, src, d)#}
    \<and> rg_capacity r' = rg_capacity r \<and> rg_slot_size r' = rg_slot_size r"
proof -
  obtain w where w: "evict_lowest r p = (Some w, release_slot r w)" "w < rg_capacity r"
    "sm_in_use (rg_meta r ! w)" "\<forall>m \<in># contents r. prio_at r w \<le> msg_prio m" "prio_at r w \<le> sint p"
    using evict_lowest_props(1) [OF assms(1,4)] by blast
  note rel = release_slot_contents [OF assms(1) w(2,3)]
  have dims: "rg_capacity (release_slot r w) = rg_capacity r" "rg_slot_size (release_slot r w) = rg_slot_size r"
    by (simp_all add: release_slot_def)
  obtain r' where r': "fill_slot (release_slot r w) w d p src = Some r'" "ring_ok r'"
    "contents r' = contents r - {#slot_msg r w#} + {#(p, src, d)#}"
    "rg_capacity r' = rg_capacity r" "rg_slot_size r' = rg_slot_size r"
    using fill_slot_contents [OF rel(1) _ rel(3), of d p src] assms(2) w(2) rel(2) dims by auto
  have "find_free_slot r = None" using assms(3) by (simp add: full_iff)
  then have "post r d p src = Some (True, r')" using w(1) r'(1) by (simp add: post_def claim_slot_def)
  moreover have "slot_msg r w \<in># contents r" using w(2,3) by (auto simp: in_contents)
  ultimately show ?thesis using w(4,5) r' by (auto simp: slot_msg_def intro!: exI [of _ "slot_msg r w"])
qed

lemma post_refused:
  assumes "ring_ok r" and "size (contents r) = rg_capacity r" and "\<not> evictable (contents r) p"
  shows "post r d p src = Some (False, r)"
proof -
  have "find_free_slot r = None" using assms(2) by (simp add: full_iff)
  with evict_lowest_props(2) [OF assms(1,3)] show ?thesis by (simp add: post_def claim_slot_def)
qed

lemma receive_slot_gets:
  assumes "ring_ok r" and "receive_slot r n = Some (ret, bs, sm, r')" and "0 \<le> ret"
  shows "\<exists>m. m \<in># contents r \<and> (\<forall>m' \<in># contents r. msg_prio m' \<le> msg_prio m) \<and>
    contents r' = contents r - {#m#} \<and> ring_ok r' \<and> m = (sm_priority sm, sm_src sm, bs) \<and>
    ret = int (length bs) \<and> length bs \<le> n"
proof -
  obtain i where i: "find_highest_priority_slot r = Some i"
    using assms(2) by (auto simp: receive_slot_def split: option.splits)
  note h = find_highest_Some [OF i]
  note slot_msg_length [OF assms(1) h(1,2)]
  with assms(2,3) i have e: "sm = rg_meta r ! i" "ret = int (length bs)" "length bs \<le> n"
    "(sm_priority sm, sm_src sm, bs) = slot_msg r i" "r' = release_slot r i"
    by (auto simp: receive_slot_def Let_def EMSGSIZE_def slot_msg_def split: if_splits)
  have "slot_msg r i \<in># contents r" using h(1,2) by (auto simp: in_contents)
  moreover have "\<forall>m' \<in># contents r. msg_prio m' \<le> msg_prio (slot_msg r i)"
    using h(3) by (auto simp: in_contents slot_msg_def)
  ultimately show ?thesis
    using e release_slot_contents [OF assms(1) h(1,2)] by (intro exI [of _ "slot_msg r i"]) simp
qed

lemma receive_slot_defined:
  assumes "\<exists>m \<in># contents r. msg_prio m \<noteq> -128"
  shows "receive_slot r n \<noteq> None"
  using assms find_highest_None [of r]
  by (cases "find_highest_priority_slot r")
    (auto simp: receive_slot_def Let_def in_contents slot_msg_def)

section \<open>The priority mailbox contract\<close>

text \<open>
  What senders and the receiver rely on: a bounded bag of messages that gives out messages of
  highest priority first and, when full, gives up a message of lowest priority only for one
  that is at least as urgent.
\<close>

locale priority_mailbox =
  fixes inv :: "'r \<Rightarrow> bool" and fits :: "'r \<Rightarrow> bytes \<Rightarrow> bool" and bag :: "'r \<Rightarrow> ring_msg multiset"
    and bound :: "'r \<Rightarrow> nat" and put :: "'r \<Rightarrow> bytes \<Rightarrow> i8 \<Rightarrow> u32 \<Rightarrow> (bool \<times> 'r) option"
  assumes bounded: "size (bag r) \<le> bound r"
    and put_free: "inv r \<Longrightarrow> fits r d \<Longrightarrow> size (bag r) < bound r \<Longrightarrow>
      \<exists>r'. put r d p src = Some (True, r') \<and> inv r' \<and> bag r' = bag r + {#(p, src, d)#}"
    and put_evict: "inv r \<Longrightarrow> fits r d \<Longrightarrow> size (bag r) = bound r \<Longrightarrow> evictable (bag r) p \<Longrightarrow>
      \<exists>r' m. put r d p src = Some (True, r') \<and> inv r' \<and> m \<in># bag r \<and>
        (\<forall>m' \<in># bag r. msg_prio m \<le> msg_prio m') \<and> msg_prio m \<le> sint p \<and>
        bag r' = bag r - {#m#} + {#(p, src, d)#}"
    and put_refuse: "inv r \<Longrightarrow> size (bag r) = bound r \<Longrightarrow> \<not> evictable (bag r) p \<Longrightarrow>
      put r d p src = Some (False, r)"
begin

lemma put_defined:
  assumes "inv r" and "fits r d"
  shows "\<exists>ok r'. put r d p src = Some (ok, r') \<and> inv r'"
proof -
  consider "size (bag r) < bound r" | "size (bag r) = bound r" "evictable (bag r) p"
    | "size (bag r) = bound r" "\<not> evictable (bag r) p"
    using bounded [of r] by (cases "size (bag r) < bound r"; cases "evictable (bag r) p") auto
  then show ?thesis
    using put_free [OF assms, of p src] put_evict [OF assms, of p src] put_refuse [OF assms(1), of p d src]
      assms(1) by cases blast+
qed

lemma put_keeps_higher:
  assumes "inv r" and "fits r d" and "put r d p src = Some (ok, r')" and "sint p < msg_prio m"
  shows "count (bag r) m \<le> count (bag r') m"
proof (cases "size (bag r) < bound r")
  case True
  with put_free [OF assms(1,2) True, of p src] assms(3) show ?thesis by auto
next
  case False
  then have full: "size (bag r) = bound r" using bounded [of r] by simp
  show ?thesis
  proof (cases "evictable (bag r) p")
    case True
    with put_evict [OF assms(1,2) full, of p src] assms(3,4) show ?thesis by force
  next
    case False
    with put_refuse [OF assms(1) full, of p d src] assms(3) show ?thesis by simp
  qed
qed

lemma put_success_delivers:
  assumes "inv r" and "fits r d" and "put r d p src = Some (True, r')"
  shows "(p, src, d) \<in># bag r'"
  using assms put_free [OF assms(1,2), of p src] put_evict [OF assms(1,2), of p src]
    put_refuse [OF assms(1), of p d src] bounded [of r]
  by (cases "size (bag r) < bound r"; cases "evictable (bag r) p") auto

end

interpretation ring_box: priority_mailbox ring_ok "\<lambda>r d. length d \<le> rg_slot_size r" contents rg_capacity post
proof unfold_locales
  fix r :: ring and d :: bytes and p :: i8 and src :: u32
  assume a: "ring_ok r" "length d \<le> rg_slot_size r"
  show "\<exists>r'. post r d p src = Some (True, r') \<and> ring_ok r' \<and> contents r' = contents r + {#(p, src, d)#}"
    if "size (contents r) < rg_capacity r" using post_free [OF a that] by blast
  show "\<exists>r' m. post r d p src = Some (True, r') \<and> ring_ok r' \<and> m \<in># contents r \<and>
      (\<forall>m' \<in># contents r. msg_prio m \<le> msg_prio m') \<and> msg_prio m \<le> sint p \<and>
      contents r' = contents r - {#m#} + {#(p, src, d)#}"
    if "size (contents r) = rg_capacity r" "evictable (contents r) p"
    using post_evicts [OF a that, of src] by blast
qed (simp_all add: size_contents_le post_refused)


section \<open>Properties\<close>

definition ex_ring :: ring where
  "ex_ring = \<lparr>rg_capacity = 2, rg_slot_size = 4,
     rg_meta = [\<lparr>sm_priority = 5, sm_in_use = True, sm_src = 1, sm_size = 2\<rparr>,
       \<lparr>sm_priority = 3, sm_in_use = True, sm_src = 2, sm_size = 1\<rparr>],
     rg_data = [10, 11, 0, 0, 20, 0, 0, 0]\<rparr>"

lemma less_2_cases_nat: "i < 2 \<Longrightarrow> i = 0 \<or> i = (1::nat)"
  by auto

lemma ex_ring_ok: "ring_ok ex_ring"
  by (auto simp: ring_ok_def ex_ring_def dest!: less_2_cases_nat)

lemma ex_ring_contents: "contents ex_ring = {#(5, 1, [10, 11]), (3, 2, [20])#}"
  by (simp add: contents_def ex_ring_def slot_bag_def slot_msg_def lessThan_nat_numeral)

text \<open>
  C31. Posting a message that fits a slot: with room it is added and nothing else changes; in a
  full ring it replaces one message of lowest priority provided that one is not more urgent than
  the new message (and not of the top priority 127); otherwise it is refused and the ring is as
  it was. The operation is always defined and keeps the ring well-formed.
\<close>

theorem post_conserves:
  assumes "ring_ok r" and "length d \<le> rg_slot_size r"
  shows "\<exists>ok r'. post r d p src = Some (ok, r') \<and> ring_ok r' \<and>
    (if size (contents r) < rg_capacity r then ok \<and> contents r' = contents r + {#(p, src, d)#}
     else if evictable (contents r) p
     then ok \<and> (\<exists>m \<in># contents r. (\<forall>m' \<in># contents r. msg_prio m \<le> msg_prio m') \<and> msg_prio m \<le> sint p \<and>
       contents r' = contents r - {#m#} + {#(p, src, d)#})
     else \<not> ok \<and> r' = r)"
proof -
  consider (free) "size (contents r) < rg_capacity r"
    | (evict) "size (contents r) = rg_capacity r" "evictable (contents r) p"
    | (refuse) "size (contents r) = rg_capacity r" "\<not> evictable (contents r) p"
    using size_contents_le [of r] by fastforce
  then show ?thesis
  proof cases
    case free
    with ring_box.put_free [OF assms free, of p src] show ?thesis by auto
  next
    case evict
    then obtain r' m where "post r d p src = Some (True, r')" "ring_ok r'" "m \<in># contents r"
      "\<forall>m' \<in># contents r. msg_prio m \<le> msg_prio m'" "msg_prio m \<le> sint p"
      "contents r' = contents r - {#m#} + {#(p, src, d)#}"
      using ring_box.put_evict [OF assms evict, of src] by metis
    with evict show ?thesis by (intro exI [of _ True] exI [of _ r']) (simp, blast)
  next
    case refuse
    with ring_box.put_refuse [OF assms(1) refuse, of d src] assms(1) show ?thesis
      by (intro exI [of _ False] exI [of _ r]) simp
  qed
qed

theorem post_conserves_witness:
  "\<exists>ok r'. post ex_ring [7] 4 9 = Some (ok, r') \<and> ok \<and> ring_ok r' \<and> (4, 9, [7]) \<in># contents r'"
proof -
  have e: "evictable (contents ex_ring) 4"
    by (simp add: ex_ring_contents evictable_def)
  have "length [7::8 word] \<le> rg_slot_size ex_ring" "\<not> size (contents ex_ring) < rg_capacity ex_ring"
    by (simp_all add: ex_ring_contents) (simp_all add: ex_ring_def)
  with post_conserves [OF ex_ring_ok, of "[7]" 4 9] e show ?thesis by auto
qed

text \<open>
  C32. A receive hands out a message of the highest priority in the ring, unchanged and with the
  source that posted it, and removes exactly that message.
\<close>

theorem receive_highest_first:
  assumes "ring_ok r" and "receive_slot r n = Some (ret, bs, sm, r')" and "0 \<le> ret"
  shows "(sm_priority sm, sm_src sm, bs) \<in># contents r \<and>
    (\<forall>m \<in># contents r. msg_prio m \<le> sint (sm_priority sm)) \<and>
    contents r' = contents r - {#(sm_priority sm, sm_src sm, bs)#} \<and> ring_ok r' \<and>
    ret = int (length bs) \<and> length bs \<le> n"
  using receive_slot_gets [OF assms] by auto

theorem receive_highest_first_witness:
  "\<exists>sm r'. receive_slot ex_ring 8 = Some (2, [10, 11], sm, r') \<and> contents r' = {#(3, 2, [20])#}"
proof -
  obtain ret bs sm r' where r: "receive_slot ex_ring 8 = Some (ret, bs, sm, r')" "ret = 2" "bs = [10, 11]"
    "sm_priority sm = 5" "sm_src sm = 1"
  proof
    show "receive_slot ex_ring 8 = Some (2, [10, 11], rg_meta ex_ring ! 0, release_slot ex_ring 0)"
      by code_simp
  qed (simp_all add: ex_ring_def)
  with receive_highest_first [OF ex_ring_ok r(1)] show ?thesis by (simp add: ex_ring_contents)
qed

text \<open>
  No message is ever lost to a less urgent one: whatever is posted, accepted or not, every
  message in the ring that is more urgent than the new one is still there.
\<close>

lemma post_keeps_more_urgent:
  assumes "ring_ok r" and "length d \<le> rg_slot_size r" and "post r d p src = Some (ok, r')"
    and "sint p < msg_prio m"
  shows "count (contents r) m \<le> count (contents r') m"
  by (rule ring_box.put_keeps_higher [OF assms])

text \<open>
  A message too large for the receiver's buffer is reported and stays where it is: the ring
  is unchanged, so the same message is met again by every further receive with that buffer.
\<close>

lemma receive_too_big_blocks:
  assumes "receive_slot r n = Some (ret, bs, sm, r')" and "n < unat (sm_size sm)"
  shows "ret = - EMSGSIZE \<and> r' = r \<and> receive_slot r' n = receive_slot r n"
  using assms by (auto simp: receive_slot_def Let_def split: option.splits if_splits)

text \<open>
  The receiver always finds a message to take when one of them has a priority above the
  lowest value -128. A ring that holds only messages of priority -128 counts as non-empty while
  the search finds no slot, and the receiver then reads slot -1.
\<close>

lemma receive_defined_iff:
  "receive_slot r n \<noteq> None \<longleftrightarrow> (\<exists>m \<in># contents r. msg_prio m \<noteq> -128)"
proof
  assume "receive_slot r n \<noteq> None"
  then obtain i where i: "find_highest_priority_slot r = Some i"
    by (auto simp: receive_slot_def split: option.splits)
  let ?f = "\<lambda>(best, prio) i. if sm_in_use (rg_meta r ! i) \<and> prio_at r i > prio
    then (Some i, prio_at r i) else (best, prio)"
  obtain p where "foldl ?f (None, -128) [0..<rg_capacity r] = (Some i, p)"
    using i by (auto simp: find_highest_priority_slot_def prod_eq_iff)
  from pick_max [OF this] show "\<exists>m \<in># contents r. msg_prio m \<noteq> -128"
    by (intro bexI [of _ "slot_msg r i"]) (auto simp: in_contents slot_msg_def)
qed (rule receive_slot_defined)

definition post_ok :: "ring \<Rightarrow> bytes \<Rightarrow> i8 \<Rightarrow> u32 \<Rightarrow> ring" where
  "post_ok r d p src = snd (the (post r d p src))"

text \<open>Instances of what the code does at its edges: an unreceivable message, ...\<close>

lemma lowest_priority_unreceivable:
  "let r = post_ok (allocate_heap 2 4) [1] (-128) 7 in has_in_use_slot r \<and> receive_slot r 8 = None"
  by code_simp

text \<open>... a message longer than the target's slots that overwrites its neighbour, ...\<close>

lemma long_post_overwrites_neighbour:
  "let r = post_ok (post_ok (allocate_heap 2 2) [1] 5 7) [4] 6 7;
       r1 = release_slot r 0; r2 = post_ok r1 [1, 2, 9] 5 7
   in fst (snd (the (receive_slot r1 8))) = [4] \<and> fst (snd (the (receive_slot r2 8))) = [9]"
  by code_simp

text \<open>... and two messages of equal priority received in the reverse order of posting.\<close>

lemma equal_priority_overtakes:
  "let r = post_ok (post_ok (allocate_heap 2 1) [1] 0 7) [2] 0 7;
       r' = snd (snd (snd (the (receive_slot r 8))))
   in fst (snd (the (receive_slot (post_ok r' [3] 0 7) 8))) = [3]"
  by code_simp

end
