(* ===== verification/Evl_Remote.thy ===== *)
theory Evl_Remote
  imports Evl_Ring
begin

text \<open>
  The cache of handles to other processes' rings, \<open>ipc/evl/evl_backend.hpp\<close>: a fixed number of
  handles, opened on first use and replaced in least-recently-used order. A mapped shared memory
  object is named by a number, since an object lives on for whoever has it mapped even after its
  name is unlinked. What the kernel answers while a handle is opened is a parameter.
\<close>

record remote_handle =
  rh_dest_id :: u32
  rh_shm :: nat
  rh_valid :: bool
  rh_last_used :: u64

definition empty_handle :: remote_handle where
  "empty_handle = \<lparr>rh_dest_id = 0, rh_shm = 0, rh_valid = False, rh_last_used = 0\<rparr>"

record remote_cache =
  rc_handles :: "remote_handle list"
  rc_lru_counter :: u64

definition new_cache :: "u32 \<Rightarrow> remote_cache" where
  "new_cache max_remote_handles = \<lparr>rc_handles =
     replicate (if max_remote_handles > 0 then unat max_remote_handles else 16) empty_handle,
     rc_lru_counter = 0\<rparr>"

record open_answer =
  oa_switched :: bool
  oa_shm_open :: "nat option"
  oa_pread :: int
  oa_mmap :: bool
  oa_mutex :: int
  oa_event :: int

text \<open>\<open>open_remote\<close>: the opened handle, or failure with everything closed again.\<close>

definition open_remote :: "open_answer \<Rightarrow> u32 \<Rightarrow> remote_handle \<Rightarrow> remote_handle option" where
  "open_remote ans dest h =
     (if \<not> oa_switched ans then None
      else case oa_shm_open ans of None \<Rightarrow> None
      | Some shm \<Rightarrow>
          if oa_pread ans \<noteq> 16 \<or> \<not> oa_mmap ans \<or> oa_mutex ans < 0 \<or> oa_event ans < 0 then None
          else Some (h\<lparr>rh_dest_id := dest, rh_shm := shm, rh_valid := True\<rparr>))"

definition close_remote :: "remote_handle \<Rightarrow> remote_handle" where
  "close_remote h = (if \<not> rh_valid h then h else empty_handle)"

definition close_all_remotes :: "remote_cache \<Rightarrow> remote_cache" where
  "close_all_remotes c = c\<lparr>rc_handles := map close_remote (rc_handles c)\<rparr>"

definition find_handle :: "(remote_handle \<Rightarrow> bool) \<Rightarrow> remote_cache \<Rightarrow> nat option" where
  "find_handle P c = List.find (\<lambda>i. P (rc_handles c ! i)) [0..<length (rc_handles c)]"

text \<open>The handle with the smallest time of last use, the first of them.\<close>

definition lru_slot :: "remote_cache \<Rightarrow> nat" where
  "lru_slot c = foldl (\<lambda>lru i. if rh_last_used (rc_handles c ! i) < rh_last_used (rc_handles c ! lru)
     then i else lru) 0 [0..<length (rc_handles c)]"

definition touch :: "remote_cache \<Rightarrow> nat \<Rightarrow> remote_handle \<Rightarrow> remote_cache" where
  "touch c i h = c\<lparr>rc_handles := (rc_handles c)[i := h\<lparr>rh_last_used := rc_lru_counter c + 1\<rparr>],
     rc_lru_counter := rc_lru_counter c + 1\<rparr>"

definition get_or_open_remote :: "open_answer \<Rightarrow> remote_cache \<Rightarrow> u32 \<Rightarrow> nat option \<times> remote_cache" where
  "get_or_open_remote ans c dest =
     (case find_handle (\<lambda>h. rh_valid h \<and> rh_dest_id h = dest) c of
        Some i \<Rightarrow> (Some i, touch c i (rc_handles c ! i))
      | None \<Rightarrow>
          (case find_handle (\<lambda>h. \<not> rh_valid h) c of
             Some i \<Rightarrow> (case open_remote ans dest (rc_handles c ! i) of
                 None \<Rightarrow> (None, c) | Some h \<Rightarrow> (Some i, touch c i h))
           | None \<Rightarrow>
               (let i = lru_slot c; h0 = close_remote (rc_handles c ! i);
                    c1 = c\<lparr>rc_handles := (rc_handles c)[i := h0]\<rparr>
                in case open_remote ans dest h0 of
                     None \<Rightarrow> (None, c1) | Some h \<Rightarrow> (Some i, touch c1 i h))))"

section \<open>Invariant\<close>

abbreviation handle :: "remote_cache \<Rightarrow> nat \<Rightarrow> remote_handle" where
  "handle c i \<equiv> rc_handles c ! i"

definition cached :: "remote_cache \<Rightarrow> u32 \<Rightarrow> nat \<Rightarrow> bool" where
  "cached c d shm \<longleftrightarrow> (\<exists>i < length (rc_handles c). rh_valid (handle c i) \<and> rh_dest_id (handle c i) = d \<and>
     rh_shm (handle c i) = shm)"

definition cache_ok :: "remote_cache \<Rightarrow> bool" where
  "cache_ok c \<longleftrightarrow> rc_handles c \<noteq> [] \<and>
     (\<forall>i < length (rc_handles c). \<forall>j < length (rc_handles c). rh_valid (handle c i) \<longrightarrow> rh_valid (handle c j) \<longrightarrow>
        rh_dest_id (handle c i) = rh_dest_id (handle c j) \<longrightarrow> i = j) \<and>
     (\<forall>i < length (rc_handles c). rh_last_used (handle c i) \<le> rc_lru_counter c)"

lemma find_handle_Some:
  "find_handle P c = Some i \<Longrightarrow> i < length (rc_handles c) \<and> P (handle c i)"
  by (auto simp: find_handle_def find_Some_iff)

lemma find_handle_None:
  "find_handle P c = None \<longleftrightarrow> (\<forall>i < length (rc_handles c). \<not> P (handle c i))"
  by (auto simp: find_handle_def find_None_iff)

lemma lru_slot_min:
  assumes "rc_handles c \<noteq> []"
  shows "lru_slot c < length (rc_handles c)"
    and "j < length (rc_handles c) \<Longrightarrow> rh_last_used (handle c (lru_slot c)) \<le> rh_last_used (handle c j)"
proof -
  let ?f = "\<lambda>lru i. if rh_last_used (handle c i) < rh_last_used (handle c lru) then i else lru"
  have "n \<le> length (rc_handles c) \<Longrightarrow> foldl ?f 0 [0..<n] < length (rc_handles c) \<and>
      (\<forall>j < n. rh_last_used (handle c (foldl ?f 0 [0..<n])) \<le> rh_last_used (handle c j))" for n
  proof (induction n)
    case (Suc n)
    then show ?case by (auto simp: less_Suc_eq)
  qed (use assms in simp)
  from this [of "length (rc_handles c)"]
  show "lru_slot c < length (rc_handles c)"
    and "j < length (rc_handles c) \<Longrightarrow> rh_last_used (handle c (lru_slot c)) \<le> rh_last_used (handle c j)"
    by (simp_all add: lru_slot_def)
qed

lemma open_remote_Some:
  "open_remote ans dest h = Some h' \<Longrightarrow> rh_valid h' \<and> rh_dest_id h' = dest \<and> oa_shm_open ans = Some (rh_shm h')
    \<and> rh_last_used h' = rh_last_used h"
  by (auto simp: open_remote_def split: if_splits option.splits)

text \<open>Recording a use keeps the cache in order, as long as the 64-bit counter does not wrap.\<close>

lemma touch_ok:
  assumes "cache_ok c" and "i < length (rc_handles c)" and "unat (rc_lru_counter c) + 1 < 2 ^ 64"
    and "rh_valid h" 
    and "\<forall>j < length (rc_handles c). j \<noteq> i \<longrightarrow> rh_valid (handle c j) \<longrightarrow> rh_dest_id (handle c j) \<noteq> rh_dest_id h"
  shows "cache_ok (touch c i h)"
proof -
  have less: "rc_lru_counter c < rc_lru_counter c + 1"
    using assms(3) by (simp add: word_less_nat_alt unat_word_ariths)
  then have "\<forall>j < length (rc_handles c). rh_last_used (handle c j) \<le> rc_lru_counter c + 1"
    using assms(1) by (meson cache_ok_def less_imp_le order_trans)
  with assms show ?thesis
    by (auto simp: cache_ok_def touch_def nth_list_update)
qed


lemma touch_cached:
  assumes "i < length (rc_handles c)"
  shows "cached (touch c i h) d shm \<longleftrightarrow> (rh_valid h \<and> rh_dest_id h = d \<and> rh_shm h = shm) \<or>
    (\<exists>j < length (rc_handles c). j \<noteq> i \<and> rh_valid (handle c j) \<and> rh_dest_id (handle c j) = d \<and> rh_shm (handle c j) = shm)"
  using assms by (auto simp: cached_def touch_def nth_list_update)

lemma touch_at [simp]:
  "length (rc_handles (touch c i h)) = length (rc_handles c)" "rc_lru_counter (touch c i h) = rc_lru_counter c + 1"
  "i < length (rc_handles c) \<Longrightarrow> handle (touch c i h) i = h\<lparr>rh_last_used := rc_lru_counter c + 1\<rparr>"
  by (simp_all add: touch_def)

lemma evict_ok:
  assumes "cache_ok c" and "i < length (rc_handles c)"
  shows "cache_ok (c\<lparr>rc_handles := (rc_handles c)[i := close_remote (handle c i)]\<rparr>)"
  using assms by (auto simp: cache_ok_def close_remote_def empty_handle_def nth_list_update)

lemma get_or_open_cases:
  assumes "cache_ok c" and "get_or_open_remote ans c dest = (res, c')"
  obtains (hit) i where "res = Some i" "i < length (rc_handles c)" "rh_valid (handle c i)"
      "rh_dest_id (handle c i) = dest" "c' = touch c i (handle c i)"
    | (fail) "res = None" "c' = c" 
      "\<forall>j < length (rc_handles c). rh_valid (handle c j) \<longrightarrow> rh_dest_id (handle c j) \<noteq> dest"
    | (fresh) i h where "res = Some i" "i < length (rc_handles c)" "\<not> rh_valid (handle c i)"
      "open_remote ans dest (handle c i) = Some h" "c' = touch c i h"
      "\<forall>j < length (rc_handles c). rh_valid (handle c j) \<longrightarrow> rh_dest_id (handle c j) \<noteq> dest"
    | (evict_fail) "res = None" "\<forall>j < length (rc_handles c). rh_valid (handle c j)"
      "\<forall>j < length (rc_handles c). rh_valid (handle c j) \<longrightarrow> rh_dest_id (handle c j) \<noteq> dest"
      "c' = c\<lparr>rc_handles := (rc_handles c)[lru_slot c := close_remote (handle c (lru_slot c))]\<rparr>"
    | (evict) h where "res = Some (lru_slot c)" "\<forall>j < length (rc_handles c). rh_valid (handle c j)"
      "\<forall>j < length (rc_handles c). rh_valid (handle c j) \<longrightarrow> rh_dest_id (handle c j) \<noteq> dest"
      "open_remote ans dest (close_remote (handle c (lru_slot c))) = Some h"
      "c' = touch (c\<lparr>rc_handles := (rc_handles c)[lru_slot c := close_remote (handle c (lru_slot c))]\<rparr>) (lru_slot c) h"
proof (cases "find_handle (\<lambda>h. rh_valid h \<and> rh_dest_id h = dest) c")
    case (Some i)
    with assms(2) find_handle_Some [OF Some] hit [of i] show ?thesis
      by (auto simp: get_or_open_remote_def)
  next
    case miss: None
    then have m: "\<forall>j < length (rc_handles c). rh_valid (handle c j) \<longrightarrow> rh_dest_id (handle c j) \<noteq> dest"
      by (auto simp: find_handle_None)
    show ?thesis
    proof (cases "find_handle (\<lambda>h. \<not> rh_valid h) c")
      case (Some i)
      note i = find_handle_Some [OF Some]
      show ?thesis
      proof (cases "open_remote ans dest (handle c i)")
        case None
        with miss Some assms(2) have "res = None" "c' = c" by (simp_all add: get_or_open_remote_def)
        then show ?thesis using m by (rule fail)
      next
        case (Some h)
        with miss \<open>find_handle (\<lambda>h. \<not> rh_valid h) c = Some i\<close> assms(2)
        have "res = Some i" "c' = touch c i h" by (simp_all add: get_or_open_remote_def)
        with Some i m fresh [of i h] show ?thesis by blast
      qed
    next
      case None
      then have "\<forall>j < length (rc_handles c). rh_valid (handle c j)" by (auto simp: find_handle_None)
      note v = this
      let ?h = "close_remote (handle c (lru_slot c))"
      show ?thesis
      proof (cases "open_remote ans dest ?h")
        case None
        with miss \<open>find_handle (\<lambda>h. \<not> rh_valid h) c = None\<close> assms(2) have "res = None"
          "c' = c\<lparr>rc_handles := (rc_handles c)[lru_slot c := ?h]\<rparr>"
          by (simp_all add: get_or_open_remote_def Let_def)
        with v m evict_fail show ?thesis by blast
      next
        case (Some h)
        with miss \<open>find_handle (\<lambda>h. \<not> rh_valid h) c = None\<close> assms(2) have "res = Some (lru_slot c)"
          "c' = touch (c\<lparr>rc_handles := (rc_handles c)[lru_slot c := ?h]\<rparr>) (lru_slot c) h"
          by (simp_all add: get_or_open_remote_def Let_def)
        with Some v m evict [of h] show ?thesis by blast
      qed
    qed
qed

lemma replaced_cached:
  assumes "rc_handles c' = (rc_handles c)[l := h]" and "cached c d shm"
  shows "cached c' d shm \<or> rh_dest_id (handle c l) = d"
proof -
  from assms(2) obtain i where "i < length (rc_handles c)" "rh_valid (handle c i)" "rh_dest_id (handle c i) = d"
    "rh_shm (handle c i) = shm" by (auto simp: cached_def)
  with assms(1) show ?thesis by (cases "i = l") (auto simp: cached_def intro!: exI [of _ i])
qed

text \<open>
  The handle cache: the number of handles never grows, no destination is held twice, and a
  handle that is returned is valid, belongs to the destination asked for and now counts as most
  recently used. Every other destination stays cached with its mapping, unless the cache was full
  and this was the handle that had been unused for longest. A hit opens nothing.
\<close>

lemma get_or_open_lru:
  assumes "cache_ok c" and "unat (rc_lru_counter c) + 1 < 2 ^ 64"
    and "get_or_open_remote ans c dest = (res, c')"
  shows "cache_ok c' \<and> length (rc_handles c') = length (rc_handles c) \<and>
    (case res of Some i \<Rightarrow> i < length (rc_handles c') \<and> rh_valid (handle c' i) \<and> rh_dest_id (handle c' i) = dest \<and>
       rh_last_used (handle c' i) = rc_lru_counter c' \<and>
       (cached c dest (rh_shm (handle c' i)) \<or> oa_shm_open ans = Some (rh_shm (handle c' i)))
     | None \<Rightarrow> (\<forall>shm. \<not> cached c dest shm)) \<and>
    (\<forall>d shm. d \<noteq> dest \<and> cached c d shm \<longrightarrow> cached c' d shm \<or>
       (\<forall>j < length (rc_handles c). rh_valid (handle c j)) \<and> rh_dest_id (handle c (lru_slot c)) = d)"
proof -
  have n: "rc_handles c \<noteq> []" using assms(1) by (simp add: cache_ok_def)
  note lru = lru_slot_min(1) [OF n]
  show ?thesis
    using assms(1,3)
  proof (cases rule: get_or_open_cases)
    case (hit i)
    moreover have "cache_ok c'"
      unfolding hit(5) using hit assms(1,2) by (intro touch_ok) (auto simp: cache_ok_def)
    moreover have "cached c' = cached c"
      using hit by (intro ext) (auto simp: touch_cached, auto simp: cached_def)
    moreover have "cached c dest (rh_shm (handle c i))" using hit by (auto simp: cached_def)
    ultimately show ?thesis by (simp add: touch_at)
  next
    case fail
    with assms(1) show ?thesis by (auto simp: cached_def)
  next
    case (fresh i h)
    note o = open_remote_Some [OF fresh(4)]
    have "cache_ok c'"
      unfolding fresh(5) using fresh o assms(1,2) by (intro touch_ok) auto
    moreover have "cached c d shm \<longrightarrow> cached c' d shm" for d shm
      using fresh by (auto simp: touch_cached) (auto simp: cached_def)
    ultimately show ?thesis using fresh o by (simp add: cached_def)
  next
    case evict_fail
    then have "cached c d shm \<Longrightarrow> cached c' d shm \<or> rh_dest_id (handle c (lru_slot c)) = d" for d shm
      using replaced_cached [of c' c "lru_slot c"] by simp
    with evict_ok [OF assms(1) lru] evict_fail show ?thesis by (auto simp: cached_def)
  next
    case (evict h)
    note o = open_remote_Some [OF evict(4)]
    have "cache_ok c'"
      unfolding evict(5) using evict o evict_ok [OF assms(1) lru] assms(2) lru
      by (intro touch_ok) (auto simp: nth_list_update)
    moreover have "cached c d shm \<Longrightarrow> cached c' d shm \<or> rh_dest_id (handle c (lru_slot c)) = d" for d shm
      using evict(5) replaced_cached [of c' c "lru_slot c"] by (simp add: touch_def)
    ultimately show ?thesis using evict o lru by (auto simp: cached_def)
  qed
qed

definition ex_open :: open_answer where
  "ex_open = \<lparr>oa_switched = True, oa_shm_open = Some 9, oa_pread = 16, oa_mmap = True, oa_mutex = 0, oa_event = 0\<rparr>"

lemma new_cache_ok: "cache_ok (new_cache n)"
proof -
  have "0 < n \<Longrightarrow> 0 < unat n" by (simp add: word_less_nat_alt)
  then show ?thesis by (auto simp: cache_ok_def new_cache_def empty_handle_def)
qed

end
