(* ===== verification/Evl_Network.thy ===== *)
theory Evl_Network
  imports Protocol Clock Wire_Message
begin

text \<open>
  Network mode of the EVL mailbox, \<open>ipc/evl/evl_backend.hpp\<close>: the port of a mailbox, the route
  table by system id, and sending and receiving datagrams on the out-of-band socket. The
  answers of the kernel and \<open>inet_pton\<close> are parameters.
\<close>

definition kOobBasePort :: u16 where "kOobBasePort = 42000"
definition kMaxRoutes :: nat where "kMaxRoutes = 8"

record net_route =
  nr_system_id :: u8
  nr_ip :: string

record net_config =
  nc_local_system_id :: u8
  nc_routes :: "net_route list"
  nc_route_count :: nat

text \<open>A sum of 32-bit numbers narrowed to 16 bits.\<close>

definition port_for :: "u32 \<Rightarrow> u16" where
  "port_for mailbox_id = ucast (ucast kOobBasePort + (mailbox_id AND 0x7FFF))"

definition system_id_of :: "u32 \<Rightarrow> u8" where
  "system_id_of mailbox_id = ucast (drop_bit 24 mailbox_id AND 0xFF)"

record net_route_entry =
  ne_system_id :: u8
  ne_ip_addr :: u32
  ne_valid :: bool

definition no_route :: net_route_entry where
  "no_route = \<lparr>ne_system_id = 0, ne_ip_addr = 0, ne_valid = False\<rparr>"

text \<open>The loop of \<open>create_oob_socket\<close> over the configured routes.\<close>

definition build_routes :: "(string \<Rightarrow> u32 option) \<Rightarrow> net_config \<Rightarrow> net_route_entry list" where
  "build_routes inet_pton cfg = foldl (\<lambda>tab i.
     case inet_pton (nr_ip (nc_routes cfg ! i)) of None \<Rightarrow> tab
     | Some addr \<Rightarrow> tab[i := \<lparr>ne_system_id = nr_system_id (nc_routes cfg ! i), ne_ip_addr = addr,
         ne_valid = True\<rparr>])
     (replicate kMaxRoutes no_route) [0..<min (nc_route_count cfg) kMaxRoutes]"

text \<open>
  \<open>create_oob_socket\<close>: the new descriptor and the route table, or failure; \<open>fd\<close> and \<open>bound\<close> are
  the results of \<open>socket\<close> and \<open>bind\<close>.
\<close>

definition create_oob_socket :: "(string \<Rightarrow> u32 option) \<Rightarrow> net_config \<Rightarrow> int \<Rightarrow> int
    \<Rightarrow> (int \<times> net_route_entry list) option" where
  "create_oob_socket inet_pton cfg fd bound =
     (if fd < 0 then None else if bound < 0 then None else Some (fd, build_routes inet_pton cfg))"

definition find_route :: "net_route_entry list \<Rightarrow> u8 \<Rightarrow> net_route_entry option" where
  "find_route tab dest_sys = List.find (\<lambda>r. ne_valid r \<and> ne_system_id r = dest_sys) tab"

text \<open>A datagram handed to the kernel: destination address, port, payload.\<close>

type_synonym datagram = "u32 \<times> u16 \<times> bytes"

definition send_oob_udp :: "net_route_entry list \<Rightarrow> bytes \<Rightarrow> u32 \<Rightarrow> int \<Rightarrow> ipc_result \<times> datagram option" where
  "send_oob_udp tab data dest sent =
     (case find_route tab (system_id_of dest) of None \<Rightarrow> (ERROR_SEND, None)
      | Some route \<Rightarrow> if sent < 0 then (ERROR_SEND, None)
          else (SUCCESS, Some (ne_ip_addr route, port_for dest, data)))"

record evl_metadata =
  em_src :: u32
  em_dest :: u32
  em_seq_nr :: u32
  em_priority :: u8
  em_flags :: u8

definition zero_header :: wire_header where
  "zero_header = \<lparr>wh_msg_type = 0, wh_msg_size = 0, wh_timestamp = 0, wh_seq_number = 0, wh_dest = 0,
     wh_src = 0, wh_flags = 0\<rparr>"

definition header_of :: "bytes \<Rightarrow> wire_header" where
  "header_of bs = (if length bs \<ge> sizeof_wire_header then read_wire_header bs else zero_header)"

definition header_metadata :: "bytes \<Rightarrow> evl_metadata" where
  "header_metadata bs = \<lparr>em_src = wh_src (header_of bs), em_dest = wh_dest (header_of bs),
     em_seq_nr = wh_seq_number (header_of bs), em_priority = 0, em_flags = ucast (wh_flags (header_of bs))\<rparr>"

text \<open>The relative time-out of \<open>oob_recvmsg\<close>: none for a negative duration.\<close>

definition recv_timeout :: "duration \<Rightarrow> timespec option" where
  "recv_timeout timeout = (if is_negative timeout then None else Some (to_timespec timeout))"

text \<open>
  \<open>receive_oob_udp\<close>: the kernel either fails or delivers the next datagram, of which the first
  \<open>buffer_size\<close> bytes are stored.
\<close>

definition receive_oob_udp :: "nat \<Rightarrow> duration \<Rightarrow> (timespec option \<Rightarrow> int + bytes)
    \<Rightarrow> int \<times> bytes \<times> evl_metadata option" where
  "receive_oob_udp buffer_size timeout oob_recvmsg =
     (case oob_recvmsg (recv_timeout timeout) of
        Inl err \<Rightarrow> (min err 0, [], None)
      | Inr dgram \<Rightarrow> (let bs = take buffer_size dgram
          in if bs = [] then (0, [], None) else (int (length bs), bs, Some (header_metadata bs))))"

section \<open>Ports\<close>

lemma and_7FFF: "(m AND 0x7FFF) = take_bit 15 (m :: u32)"
  by (simp add: take_bit_eq_mask mask_eq_exp_minus_1)

lemma unat_port_for: "unat (port_for m) = (42000 + unat (m AND 0x7FFF)) mod 65536"
proof -
  have "unat (m AND 0x7FFF) < 32768"
    by (simp add: and_7FFF unsigned_take_bit_eq take_bit_eq_mod unat_mod)
  then show ?thesis
    by (simp add: port_for_def kOobBasePort_def unsigned_ucast_eq take_bit_eq_mod unat_word_ariths)
qed


section \<open>Routes\<close>

lemma build_routes_length [simp]: "length (build_routes p cfg) = 8"
proof -
  have "length (foldl (\<lambda>tab i. case f i of None \<Rightarrow> tab | Some a \<Rightarrow> tab[i := g i a]) tab is) = length tab"
    for f :: "nat \<Rightarrow> u32 option" and g and tab :: "net_route_entry list" and "is"
    by (induction "is" arbitrary: tab) (simp_all split: option.splits)
  then show ?thesis by (simp add: build_routes_def kMaxRoutes_def)
qed

lemma build_routes_nth:
  assumes "i < 8"
  shows "build_routes p cfg ! i = (if i < nc_route_count cfg then
    (case p (nr_ip (nc_routes cfg ! i)) of None \<Rightarrow> no_route
     | Some addr \<Rightarrow> \<lparr>ne_system_id = nr_system_id (nc_routes cfg ! i), ne_ip_addr = addr, ne_valid = True\<rparr>)
    else no_route)"
proof -
  let ?g = "\<lambda>i addr. \<lparr>ne_system_id = nr_system_id (nc_routes cfg ! i), ne_ip_addr = addr, ne_valid = True\<rparr>"
  let ?step = "\<lambda>tab i. case p (nr_ip (nc_routes cfg ! i)) of None \<Rightarrow> tab | Some addr \<Rightarrow> tab[i := ?g i addr]"
  have len: "length (foldl ?step tab is) = length tab" for tab "is"
    by (induction "is" arbitrary: tab) (simp_all split: option.splits)
  have "foldl ?step (replicate 8 no_route) [0..<n] ! i = (if i < n then
      (case p (nr_ip (nc_routes cfg ! i)) of None \<Rightarrow> no_route | Some addr \<Rightarrow> ?g i addr) else no_route)"
    if "n \<le> 8" for n
    using that
  proof (induction n)
    case 0
    then show ?case using assms by simp
  next
    case (Suc n)
    then show ?case using assms len [of "replicate 8 no_route" "[0..<n]"]
      by (cases "n = i") (auto split: option.splits)
  qed
  from this [of "min (nc_route_count cfg) 8"] assms show ?thesis
    by (simp add: build_routes_def kMaxRoutes_def)
qed

text \<open>
  A datagram leaves exactly when a usable route for the destination's system id is
  configured among the first eight, and it carries the data unchanged to the address of the
  first such route and the destination mailbox's port.
\<close>

lemma send_oob_udp_route:
  assumes "0 \<le> sent" and "nc_route_count cfg \<le> length (nc_routes cfg)"
  shows "case send_oob_udp (build_routes p cfg) d dest sent of
      (SUCCESS, Some (addr, port, d')) \<Rightarrow> port = port_for dest \<and> d' = d \<and>
        (\<exists>i < min (nc_route_count cfg) 8. nr_system_id (nc_routes cfg ! i) = system_id_of dest \<and>
           p (nr_ip (nc_routes cfg ! i)) = Some addr \<and>
           (\<forall>j < i. nr_system_id (nc_routes cfg ! j) = system_id_of dest \<longrightarrow> p (nr_ip (nc_routes cfg ! j)) = None))
    | (res, out) \<Rightarrow> res = ERROR_SEND \<and> out = None \<and>
        (\<forall>i < min (nc_route_count cfg) 8. nr_system_id (nc_routes cfg ! i) = system_id_of dest \<longrightarrow>
           p (nr_ip (nc_routes cfg ! i)) = None)"
proof -
  let ?t = "build_routes p cfg" and ?s = "system_id_of dest"
  have nth: "ne_valid (?t ! i) \<and> ne_system_id (?t ! i) = ?s \<longleftrightarrow> i < nc_route_count cfg \<and>
      nr_system_id (nc_routes cfg ! i) = ?s \<and> p (nr_ip (nc_routes cfg ! i)) \<noteq> None" if "i < 8" for i
    using that by (auto simp: build_routes_nth no_route_def split: option.splits)
  show ?thesis
  proof (cases "find_route ?t ?s")
    case None
    then have "\<not> (ne_valid (?t ! i) \<and> ne_system_id (?t ! i) = ?s)" if "i < 8" for i
      using that by (auto simp: find_route_def find_None_iff in_set_conv_nth)
    with nth None show ?thesis by (fastforce simp: send_oob_udp_def)
  next
    case (Some route)
    then obtain i where i: "i < 8" "route = ?t ! i" "ne_valid (?t ! i) \<and> ne_system_id (?t ! i) = ?s"
      "\<forall>j < i. \<not> (ne_valid (?t ! j) \<and> ne_system_id (?t ! j) = ?s)"
      by (auto simp: find_route_def find_Some_iff)
    with nth [of i] have r: "i < nc_route_count cfg" "nr_system_id (nc_routes cfg ! i) = ?s"
      "p (nr_ip (nc_routes cfg ! i)) = Some (ne_ip_addr route)"
      by (auto simp: build_routes_nth no_route_def split: option.splits)
    have "\<forall>j < i. nr_system_id (nc_routes cfg ! j) = ?s \<longrightarrow> p (nr_ip (nc_routes cfg ! j)) = None"
      using i(1,4) nth r(1) by (meson less_trans)
    with Some r i(1) assms(1) show ?thesis by (auto simp: send_oob_udp_def intro!: exI [of _ i])
  qed
qed

definition ex_net :: net_config where
  "ex_net = \<lparr>nc_local_system_id = 1, nc_routes = [\<lparr>nr_system_id = 2, nr_ip = ''10.10.10.11''\<rparr>], nc_route_count = 1\<rparr>"

end
