(* ===== verification/Evl_Mailbox.thy ===== *)
theory Evl_Mailbox
  imports Evl_Registry Evl_Remote Evl_Network
begin

text \<open>
  The EVL mailbox, class \<open>EvlMailbox\<close> of \<open>ipc/evl/evl_backend.hpp\<close>, built for the EVL platform:
  life cycle, sending and receiving in its three modes. A \<open>world\<close> is one host: the mailbox
  objects by address, the process each lives in and that process's directory, the shared memory
  objects and their names, and what went out on the network and to the router's cross buffers.
  The kernel's answers are arguments. \<open>Undefined\<close> marks an access outside the ring's memory,
  \<open>Blocked\<close> a receiver that is still waiting.
\<close>

text \<open>
  The names of a mailbox's objects. \<open>w_names\<close> below is indexed by the id alone, which is the same
  because different ids have different names.
\<close>

definition evl_name :: "string \<Rightarrow> u32 \<Rightarrow> string" where
  "evl_name prefix mid = prefix @ decimal mid"

definition shm_name :: "u32 \<Rightarrow> string" where
  "shm_name mid = evl_name ''/corerat_mbx_'' mid"

lemma shm_name_inject: "shm_name a = shm_name b \<longleftrightarrow> a = b"
  by (simp add: shm_name_def evl_name_def)

datatype evl_mode = Local | Public | Network

record evl_mailbox =
  eb_config :: ipc_config
  eb_mode :: evl_mode
  eb_process :: nat
  eb_created :: bool
  eb_sent :: u64
  eb_received :: u64
  eb_ring :: ring
  eb_shm :: "nat option"
  eb_cache :: remote_cache
  eb_net :: net_config
  eb_routes :: "net_route_entry list"
  eb_oob_sock :: int
  eb_xbuf_fd :: int
  eb_poll_fd :: int
  eb_poll_setup_done :: bool

record world =
  w_registry :: "nat \<Rightarrow> nat registry_table"
  w_box :: "nat \<Rightarrow> evl_mailbox"
  w_names :: "u32 \<rightharpoonup> nat"
  w_shm :: "nat \<Rightarrow> ring"
  w_net :: "datagram list"
  w_xbuf_out :: "nat \<Rightarrow> bytes"

definition no_ring :: ring where
  "no_ring = \<lparr>rg_capacity = 0, rg_slot_size = 0, rg_meta = [], rg_data = []\<rparr>"

definition new_evl_mailbox :: "ipc_config \<Rightarrow> evl_mode \<Rightarrow> net_config \<Rightarrow> nat \<Rightarrow> evl_mailbox" where
  "new_evl_mailbox config mode net_config process = \<lparr>eb_config = config, eb_mode = mode,
     eb_process = process, eb_created = False, eb_sent = 0, eb_received = 0, eb_ring = no_ring,
     eb_shm = None, eb_cache = new_cache (cfg_max_remote_handles config), eb_net = net_config,
     eb_routes = replicate kMaxRoutes no_route, eb_oob_sock = -1, eb_xbuf_fd = -1, eb_poll_fd = -1,
     eb_poll_setup_done = False\<rparr>"

abbreviation box_id :: "world \<Rightarrow> nat \<Rightarrow> u32" where
  "box_id w a \<equiv> cfg_mailbox_id (eb_config (w_box w a))"

abbreviation directory_of :: "world \<Rightarrow> nat \<Rightarrow> nat registry_table" where
  "directory_of w a \<equiv> w_registry w (eb_process (w_box w a))"

definition upd_box :: "nat \<Rightarrow> (evl_mailbox \<Rightarrow> evl_mailbox) \<Rightarrow> world \<Rightarrow> world" where
  "upd_box a f w = w\<lparr>w_box := (w_box w)(a := f (w_box w a))\<rparr>"

text \<open>The ring behind \<open>slot_meta_at\<close> and \<open>slot_ptr\<close>: the mapped region or the heap arrays.\<close>

definition ring_of :: "world \<Rightarrow> nat \<Rightarrow> ring" where
  "ring_of w a = (case (eb_mode (w_box w a), eb_shm (w_box w a)) of
     (Public, Some shm) \<Rightarrow> w_shm w shm | _ \<Rightarrow> eb_ring (w_box w a))"

definition set_ring :: "nat \<Rightarrow> ring \<Rightarrow> world \<Rightarrow> world" where
  "set_ring a r w = (case (eb_mode (w_box w a), eb_shm (w_box w a)) of
     (Public, Some shm) \<Rightarrow> w\<lparr>w_shm := (w_shm w)(shm := r)\<rparr>
   | _ \<Rightarrow> upd_box a (\<lambda>b. b\<lparr>eb_ring := r\<rparr>) w)"

section \<open>Life cycle\<close>

text \<open>
  Kernel answers during \<open>initialize\<close>. \<open>ia_new_shm\<close> is the object created when the name is not
  taken; \<open>ia_relayout\<close> is what an existing region of another layout looks like through the new one.
\<close>

record init_answer =
  ia_socket :: int
  ia_bind :: int
  ia_inet_pton :: "string \<Rightarrow> u32 option"
  ia_shm_open :: int
  ia_ftruncate :: int
  ia_mmap :: bool
  ia_new_shm :: nat
  ia_relayout :: "slot_meta list \<times> bytes"
  ia_mutex :: int
  ia_event :: int
  ia_xbuf :: int
  ia_poll :: int

definition kSlots :: nat where "kSlots = 10"

text \<open>What \<open>mmap\<close> shows of the region: zeros when new, else its old contents.\<close>

definition shm_found :: "init_answer \<Rightarrow> world \<Rightarrow> u32 \<Rightarrow> nat \<Rightarrow> slot_meta list \<times> bytes" where
  "shm_found ans w mid slot_size =
     (case w_names w mid of None \<Rightarrow> (replicate kSlots free_slot, replicate (kSlots * slot_size) 0)
      | Some shm \<Rightarrow> if rg_capacity (w_shm w shm) = kSlots \<and> rg_slot_size (w_shm w shm) = slot_size
          then (rg_meta (w_shm w shm), rg_data (w_shm w shm)) else ia_relayout ans)"

definition shm_object :: "init_answer \<Rightarrow> world \<Rightarrow> u32 \<Rightarrow> nat" where
  "shm_object ans w mid = (case w_names w mid of None \<Rightarrow> ia_new_shm ans | Some shm \<Rightarrow> shm)"

text \<open>Opening the name creates it, also when the steps after that fail.\<close>

definition open_name :: "init_answer \<Rightarrow> u32 \<Rightarrow> world \<Rightarrow> world" where
  "open_name ans mid w = (case w_names w mid of Some _ \<Rightarrow> w
     | None \<Rightarrow> w\<lparr>w_names := (w_names w)(mid \<mapsto> ia_new_shm ans), w_shm := (w_shm w)(ia_new_shm ans := no_ring)\<rparr>)"

definition allocate_ring :: "init_answer \<Rightarrow> nat \<Rightarrow> world \<Rightarrow> bool \<times> world" where
  "allocate_ring ans a w =
     (let mid = box_id w a; slot_size = unat (of_nat (cfg_max_msg_size (eb_config (w_box w a))) :: u32)
      in if eb_mode (w_box w a) = Public then
           if ia_shm_open ans < 0 then (False, w)
           else let w1 = open_name ans mid w; shm = shm_object ans w mid
                in if ia_ftruncate ans < 0 \<or> \<not> ia_mmap ans then (False, w1)
                   else (True, upd_box a (\<lambda>b. b\<lparr>eb_shm := Some shm\<rparr>)
                     (w1\<lparr>w_shm := (w_shm w1)(shm :=
                        allocate_shm (shm_found ans w mid slot_size) kSlots slot_size)\<rparr>))
         else (True, upd_box a (\<lambda>b. b\<lparr>eb_ring := allocate_heap kSlots slot_size\<rparr>) w))"

definition create_evl_objects :: "init_answer \<Rightarrow> bool" where
  "create_evl_objects ans \<longleftrightarrow> ia_mutex ans \<ge> 0 \<and> ia_event ans \<ge> 0"

definition create_xbuf :: "init_answer \<Rightarrow> nat \<Rightarrow> world \<Rightarrow> bool \<times> world" where
  "create_xbuf ans a w =
     (if ia_xbuf ans < 0 then (False, upd_box a (\<lambda>b. b\<lparr>eb_xbuf_fd := ia_xbuf ans\<rparr>) w)
      else if ia_poll ans < 0 then (False, upd_box a (\<lambda>b. b\<lparr>eb_xbuf_fd := -1, eb_poll_fd := ia_poll ans\<rparr>) w)
      else (True, upd_box a (\<lambda>b. b\<lparr>eb_xbuf_fd := ia_xbuf ans, eb_poll_fd := ia_poll ans\<rparr>) w))"

definition evl_initialize :: "init_answer \<Rightarrow> nat \<Rightarrow> world \<Rightarrow> ipc_result \<times> world" where
  "evl_initialize ans a w =
     (if eb_created (w_box w a) then (SUCCESS, w)
      else if eb_mode (w_box w a) = Network then
        (case create_oob_socket (ia_inet_pton ans) (eb_net (w_box w a)) (ia_socket ans) (ia_bind ans) of
           None \<Rightarrow> (ERROR_INIT, upd_box a (\<lambda>b. b\<lparr>eb_oob_sock := -1\<rparr>) w)
         | Some (fd, routes) \<Rightarrow>
             (SUCCESS, upd_box a (\<lambda>b. b\<lparr>eb_oob_sock := fd, eb_routes := routes, eb_created := True\<rparr>) w))
      else case allocate_ring ans a w of (allocated, w1) \<Rightarrow>
          if \<not> allocated then (ERROR_INIT, w1)
          else if \<not> create_evl_objects ans then (ERROR_INIT, w1)
          else if eb_mode (w_box w a) = Local then
            (SUCCESS, upd_box a (\<lambda>b. b\<lparr>eb_created := True\<rparr>)
               (w1\<lparr>w_registry := (w_registry w1)(eb_process (w_box w a) :=
                  registry_insert (directory_of w1 a) (box_id w a) a)\<rparr>))
          else case create_xbuf ans a w1 of (ok, w2) \<Rightarrow>
            if \<not> ok then (ERROR_INIT, w2)
            else (SUCCESS, upd_box a (\<lambda>b. b\<lparr>eb_created := True\<rparr>) w2))"

definition free_ring :: "nat \<Rightarrow> world \<Rightarrow> world" where
  "free_ring a w =
     (let w1 = (if eb_shm (w_box w a) = None then w else w\<lparr>w_names := (w_names w)(box_id w a := None)\<rparr>)
      in upd_box a (\<lambda>b. b\<lparr>eb_shm := None, eb_ring := no_ring\<rparr>) w1)"

definition evl_shutdown :: "nat \<Rightarrow> world \<Rightarrow> world" where
  "evl_shutdown a w =
     (if \<not> eb_created (w_box w a) then w
      else if eb_mode (w_box w a) = Network then upd_box a (\<lambda>b. b\<lparr>eb_oob_sock := -1, eb_created := False\<rparr>) w
      else let w1 = upd_box a (\<lambda>b. b\<lparr>eb_cache := close_all_remotes (eb_cache b)\<rparr>) w;
               w2 = (if eb_mode (w_box w a) = Local \<and> registry_find (directory_of w a) (box_id w a) = Some a
                     then w1\<lparr>w_registry := (w_registry w1)(eb_process (w_box w a) :=
                       registry_remove (directory_of w a) (box_id w a))\<rparr> else w1);
               w3 = upd_box a (\<lambda>b. b\<lparr>eb_xbuf_fd := -1, eb_poll_fd := -1, eb_poll_setup_done := False\<rparr>) w2
           in upd_box a (\<lambda>b. b\<lparr>eb_created := False\<rparr>) (free_ring a w3))"

definition evl_mailbox_destroy :: "nat \<Rightarrow> world \<Rightarrow> world" where
  "evl_mailbox_destroy a w = evl_shutdown a w"

section \<open>Sending\<close>

datatype 'a outcome = Done 'a | Blocked | Undefined

record send_answer =
  sa_open :: open_answer
  sa_xbuf_write :: int
  sa_sendmsg :: int

text \<open>A local target found in the directory: alive, and really the mailbox asked for.\<close>

definition local_target :: "world \<Rightarrow> nat \<Rightarrow> u32 \<Rightarrow> nat option" where
  "local_target w a dest =
     (case registry_find (directory_of w a) dest of None \<Rightarrow> None
      | Some t \<Rightarrow> if box_id w t = dest \<and> eb_created (w_box w t) then Some t else None)"

definition post_local :: "world \<Rightarrow> nat \<Rightarrow> nat \<Rightarrow> bytes \<Rightarrow> i8 \<Rightarrow> (bool \<times> world) option" where
  "post_local w a t data priority =
     (case post (ring_of w t) data priority (box_id w a) of None \<Rightarrow> None
      | Some (ok, r) \<Rightarrow> Some (ok, set_ring t r w))"

text \<open>Public mode: a local target, a mapped remote ring, or the router behind the cross buffer.\<close>

definition send_public :: "send_answer \<Rightarrow> world \<Rightarrow> nat \<Rightarrow> bytes \<Rightarrow> u32 \<Rightarrow> i8 \<Rightarrow> (bool \<times> world) option" where
  "send_public ans w a data dest priority =
     (case local_target w a dest of
        Some t \<Rightarrow> post_local w a t data priority
      | None \<Rightarrow>
          case get_or_open_remote (sa_open ans) (eb_cache (w_box w a)) dest of (rh, cache) \<Rightarrow>
            let w1 = upd_box a (\<lambda>b. b\<lparr>eb_cache := cache\<rparr>) w
            in case rh of
                 Some i \<Rightarrow>
                   (let shm = rh_shm (rc_handles cache ! i)
                    in case post_to_remote (w_shm w shm) data priority (box_id w a) of None \<Rightarrow> None
                       | Some (ok, r) \<Rightarrow> Some (ok, w1\<lparr>w_shm := (w_shm w1)(shm := r)\<rparr>))
               | None \<Rightarrow>
                   if eb_xbuf_fd (w_box w a) \<ge> 0
                   then Some (sa_xbuf_write ans = int (length data),
                     w1\<lparr>w_xbuf_out := (w_xbuf_out w1)(a := w_xbuf_out w1 a @
                       take (nat (sa_xbuf_write ans)) data)\<rparr>)
                   else Some (False, w1))"

definition send_local :: "world \<Rightarrow> nat \<Rightarrow> bytes \<Rightarrow> u32 \<Rightarrow> i8 \<Rightarrow> (bool \<times> world) option" where
  "send_local w a data dest priority =
     (case local_target w a dest of None \<Rightarrow> Some (False, w) | Some t \<Rightarrow> post_local w a t data priority)"

definition count_sent :: "nat \<Rightarrow> world \<Rightarrow> world" where
  "count_sent a = upd_box a (\<lambda>b. b\<lparr>eb_sent := eb_sent b + 1\<rparr>)"

definition evl_send_raw :: "send_answer \<Rightarrow> world \<Rightarrow> nat \<Rightarrow> bytes option \<Rightarrow> u32 \<Rightarrow> i8
    \<Rightarrow> (ipc_result \<times> world) outcome" where
  "evl_send_raw ans w a data dest priority =
     (case data of None \<Rightarrow> Done (ERROR_INVALID_MSG, w)
      | Some d \<Rightarrow>
          if length d = 0 \<or> length d > cfg_max_msg_size (eb_config (w_box w a)) then Done (ERROR_INVALID_MSG, w)
          else if eb_mode (w_box w a) = Network then
            (case send_oob_udp (eb_routes (w_box w a)) d dest (sa_sendmsg ans) of
               (res, Some dg) \<Rightarrow> Done (res, count_sent a (w\<lparr>w_net := w_net w @ [dg]\<rparr>))
             | (res, None) \<Rightarrow> Done (res, w))
          else case (if eb_mode (w_box w a) = Public then send_public ans w a d dest priority
                     else send_local w a d dest priority) of
              None \<Rightarrow> Undefined
            | Some (ok, w') \<Rightarrow> Done (if ok then (SUCCESS, count_sent a w') else (ERROR_SEND, w')))"

definition evl_send :: "u32 option \<Rightarrow> ('p wire_message \<Rightarrow> bytes) \<Rightarrow> send_answer \<Rightarrow> world \<Rightarrow> nat
    \<Rightarrow> 'p wire_message \<Rightarrow> u32 \<Rightarrow> (ipc_result \<times> world) outcome" where
  "evl_send ty ser ans w a message dest =
     (if \<not> eb_created (w_box w a) then Done (ERROR_NOT_INIT, w)
      else evl_send_raw ans w a (Some (fst (serialize ty ser message))) dest
        (ucast (cfg_priority (eb_config (w_box w a)))))"

section \<open>Receiving\<close>

text \<open>
  An event of the poll group: the cross buffer with the bytes \<open>oob_read\<close> then returns (none if it
  fails), or the ring's event.
\<close>

datatype poll_event = Xbuf_ready bytes | Ring_ready

fun poll_events :: "poll_event list \<Rightarrow> nat \<Rightarrow> bytes option" where
  "poll_events [] n = None"
| "poll_events (Ring_ready # es) n = None"
| "poll_events (Xbuf_ready bs # es) n = (if take n bs = [] then poll_events es n else Some (take n bs))"

text \<open>
  The condition-variable loop: each wake-up brings a return code and the ring as the other
  threads left it. \<open>None\<close> when the wake-ups are used up and no slot is in use.
\<close>

fun wait_slot :: "bool \<Rightarrow> ring \<Rightarrow> (int \<times> ring) list \<Rightarrow> (int + ring) option" where
  "wait_slot forever r [] = (if has_in_use_slot r then Some (Inr r) else None)"
| "wait_slot forever r ((ret, r') # ws) =
     (if has_in_use_slot r then Some (Inr r)
      else if ret < 0 then Some (Inl (if forever then -1 else ret))
      else wait_slot forever r' ws)"

record receive_env =
  rv_now :: timespec
  rv_poll :: "timespec option \<Rightarrow> int \<times> poll_event list"
  rv_waits :: "timespec option \<Rightarrow> (int \<times> ring) list"
  rv_recvmsg :: "timespec option \<Rightarrow> int + bytes"

definition receive_deadline :: "timespec \<Rightarrow> duration \<Rightarrow> timespec option" where
  "receive_deadline now timeout = (if is_negative timeout then None
     else Some (to_timespec (nanoseconds (tv_sec now * 1000000000 + tv_nsec now + count_ns timeout))))"

definition slot_metadata :: "world \<Rightarrow> nat \<Rightarrow> slot_meta \<Rightarrow> bytes \<Rightarrow> evl_metadata" where
  "slot_metadata w a sm bs = \<lparr>em_src = sm_src sm, em_dest = box_id w a,
     em_seq_nr = wh_seq_number (header_of bs), em_priority = sm_priority sm, em_flags = ucast (wh_flags (header_of bs))\<rparr>"

definition count_received :: "nat \<Rightarrow> world \<Rightarrow> world" where
  "count_received a = upd_box a (\<lambda>b. b\<lparr>eb_received := eb_received b + 1\<rparr>)"

text \<open>The metadata pointer is left alone by short messages from the cross buffer.\<close>

definition xbuf_metadata :: "bytes \<Rightarrow> evl_metadata option" where
  "xbuf_metadata bs = (if length bs \<ge> sizeof_wire_header then Some (header_metadata bs) else None)"

definition receive_ring :: "receive_env \<Rightarrow> nat \<Rightarrow> nat \<Rightarrow> duration \<Rightarrow> world
    \<Rightarrow> (int \<times> bytes \<times> evl_metadata option \<times> world) outcome" where
  "receive_ring env a buffer_size timeout w =
     (case wait_slot (is_negative timeout) (ring_of w a) (rv_waits env (receive_deadline (rv_now env) timeout)) of
        None \<Rightarrow> Blocked
      | Some (Inl ret) \<Rightarrow> Done (ret, [], None, w)
      | Some (Inr r) \<Rightarrow>
          case receive_slot r buffer_size of None \<Rightarrow> Undefined
          | Some (ret, bs, sm, r') \<Rightarrow>
              if ret < 0 then Done (ret, [], None, set_ring a r' w)
              else Done (ret, bs, Some (slot_metadata w a sm bs), count_received a (set_ring a r' w)))"

definition receive_impl :: "receive_env \<Rightarrow> nat \<Rightarrow> nat \<Rightarrow> duration \<Rightarrow> world
    \<Rightarrow> (int \<times> bytes \<times> evl_metadata option \<times> world) outcome" where
  "receive_impl env a buffer_size timeout w =
     (if \<not> eb_created (w_box w a) then Done (-1, [], None, w)
      else if eb_mode (w_box w a) = Network then
        (case receive_oob_udp buffer_size timeout (rv_recvmsg env) of
           (ret, bs, meta) \<Rightarrow> Done (ret, bs, meta, if ret > 0 then count_received a w else w))
      else let w1 = (if eb_mode (w_box w a) = Public \<and> eb_xbuf_fd (w_box w a) \<ge> 0
                     then upd_box a (\<lambda>b. b\<lparr>eb_poll_setup_done := True\<rparr>) w else w)
           in if eb_mode (w_box w1 a) = Public \<and> eb_poll_fd (w_box w1 a) \<ge> 0 \<and> eb_poll_setup_done (w_box w1 a)
              then case rv_poll env (receive_deadline (rv_now env) timeout) of (n, events) \<Rightarrow>
                if n \<le> 0 then Done (if n = 0 \<or> n = - ETIMEDOUT then - ETIMEDOUT else n, [], None, w1)
                else case poll_events events buffer_size of
                    Some bs \<Rightarrow> Done (int (length bs), bs, xbuf_metadata bs, count_received a w1)
                  | None \<Rightarrow> receive_ring env a buffer_size timeout w1
              else receive_ring env a buffer_size timeout w1)"


section \<open>Sending within a process\<close>

lemma upd_box_at [simp]:
  "w_box (upd_box a f w) b = (if b = a then f (w_box w a) else w_box w b)"
  "w_registry (upd_box a f w) = w_registry w" "w_names (upd_box a f w) = w_names w"
  "w_shm (upd_box a f w) = w_shm w" "w_net (upd_box a f w) = w_net w" "w_xbuf_out (upd_box a f w) = w_xbuf_out w"
  by (simp_all add: upd_box_def)

lemma ring_of_heap: "eb_mode (w_box w a) = Local \<Longrightarrow> ring_of w a = eb_ring (w_box w a)"
  by (simp add: ring_of_def)

lemma ring_of_count [simp]: "ring_of (count_sent a w) b = ring_of w b"
  "ring_of (count_received a w) b = ring_of w b"
  by (simp_all add: ring_of_def count_sent_def count_received_def split: option.splits evl_mode.splits)

lemma ring_of_set_ring [simp]: "ring_of (set_ring a r w) a = r"
  by (cases "eb_mode (w_box w a)"; cases "eb_shm (w_box w a)") (simp_all add: ring_of_def set_ring_def)

text \<open>Two mailboxes share a ring only if both have the same region mapped.\<close>

lemma ring_of_set_other:
  assumes "b \<noteq> a" and "eb_mode (w_box w a) = Public \<Longrightarrow> eb_mode (w_box w b) = Public \<Longrightarrow>
    eb_shm (w_box w a) = None \<or> eb_shm (w_box w a) \<noteq> eb_shm (w_box w b)"
  shows "ring_of (set_ring a r w) b = ring_of w b"
  using assms by (cases "eb_mode (w_box w a)"; cases "eb_shm (w_box w a)")
    (auto simp: ring_of_def set_ring_def split: evl_mode.splits option.splits)

lemma local_target_SomeD:
  "local_target w a dest = Some t \<Longrightarrow> box_id w t = dest \<and> eb_created (w_box w t)"
  by (auto simp: local_target_def split: option.splits if_splits)

text \<open>
  Local mode: a send reaches its target or says that it did not. It succeeds only if the
  process's directory holds a live mailbox with exactly the destination's id; then the message
  is in that mailbox's ring, with the sender's id and priority, and no other local mailbox's ring
  changes. If there is no such mailbox the result is \<open>ERROR_SEND\<close> and nothing changes. Target
  slots at least as large as the message are assumed, which the code does not check.
\<close>

lemma local_send_delivers:
  assumes "eb_mode (w_box w a) = Local" and "d \<noteq> []" and "length d \<le> cfg_max_msg_size (eb_config (w_box w a))"
    and "\<And>t. local_target w a dest = Some t \<Longrightarrow> ring_ok (ring_of w t) \<and> length d \<le> rg_slot_size (ring_of w t)"
  shows "case local_target w a dest of
      None \<Rightarrow> evl_send_raw ans w a (Some d) dest p = Done (ERROR_SEND, w)
    | Some t \<Rightarrow> \<exists>res w'. evl_send_raw ans w a (Some d) dest p = Done (res, w') \<and> ring_ok (ring_of w' t) \<and>
        (res = SUCCESS \<and> (p, box_id w a, d) \<in># contents (ring_of w' t) \<or>
         res = ERROR_SEND \<and> contents (ring_of w' t) = contents (ring_of w t)) \<and>
        (\<forall>b. b \<noteq> t \<and> eb_mode (w_box w b) = Local \<longrightarrow> ring_of w' b = ring_of w b)"
proof (cases "local_target w a dest")
  case None
  with assms(1-3) show ?thesis by (simp add: evl_send_raw_def send_local_def)
next
  case (Some t)
  let ?r = "ring_of w t" and ?src = "box_id w a"
  from assms(4) [OF Some] have ok: "ring_ok ?r" "length d \<le> rg_slot_size ?r" by simp_all
  then obtain res r' where post: "post ?r d p ?src = Some (res, r')" "ring_ok r'"
    using ring_box.put_defined by blast
  have in_bag: "res \<Longrightarrow> (p, ?src, d) \<in># contents r'"
    using post ring_box.put_success_delivers [OF ok] by auto
  have refused: "\<not> res \<Longrightarrow> r' = ?r"
    using post ring_box.put_refuse [OF ok(1), of p d ?src] ring_box.put_free [OF ok, of p ?src]
      ring_box.put_evict [OF ok, of p ?src] size_contents_le [of ?r]
    by (cases "size (contents ?r) < rg_capacity ?r"; cases "evictable (contents ?r) p") auto
  define w' where "w' = (if res then count_sent a (set_ring t r' w) else set_ring t r' w)"
  have "evl_send_raw ans w a (Some d) dest p = Done (if res then SUCCESS else ERROR_SEND, w')"
    using assms(1-3) Some post(1) by (simp add: evl_send_raw_def send_local_def post_local_def w'_def)
  moreover have "ring_of w' t = r'" by (simp add: w'_def)
  moreover have "ring_of w' b = ring_of w b" if "b \<noteq> t" "eb_mode (w_box w b) = Local" for b
    using that ring_of_set_other [of b t w r'] by (simp add: w'_def)
  ultimately show ?thesis using Some in_bag refused post(2) by (cases res) auto
qed


text \<open>A process with two local mailboxes.\<close>

definition ex_box :: "u32 \<Rightarrow> evl_mailbox" where
  "ex_box mid = (new_evl_mailbox (default_ipc_config\<lparr>cfg_mailbox_id := mid, cfg_max_msg_size := 8\<rparr>) Local ex_net 0)
     \<lparr>eb_created := True, eb_ring := allocate_heap 2 8\<rparr>"

definition ex_world :: world where
  "ex_world = \<lparr>w_registry = (\<lambda>_. registry_insert empty_table 0x0202 1),
     w_box = (\<lambda>i. if i = 0 then ex_box 0x0101 else ex_box 0x0202), w_names = Map.empty,
     w_shm = (\<lambda>_. no_ring), w_net = [], w_xbuf_out = (\<lambda>_. [])\<rparr>"

lemma heap_ok: "slot_size < 2 ^ 32 \<Longrightarrow> ring_ok (allocate_heap slots slot_size)"
  by (simp add: ring_ok_def allocate_heap_def free_slot_def)

lemma heap_empty: "contents (allocate_heap slots slot_size) = {#}"
  by (simp add: contents_def slot_bag_def allocate_heap_def free_slot_def)

lemma empty_room: "room empty_table i"
  by (auto simp: room_def empty_table_def kRegistryCapacity_def intro!: exI [of _ 0])

lemma ex_world_target: "local_target ex_world 0 0x0202 = Some 1"
proof -
  have "registry_find (registry_insert empty_table 0x0202 (1::nat)) 0x0202 = Some 1"
    using evl_dir.get_put [OF table_ok_empty _ _ empty_room, of "0x0202" "0x0202" "1::nat"] by auto
  then show ?thesis
    by (simp add: local_target_def ex_world_def ex_box_def new_evl_mailbox_def default_ipc_config_def)
qed

definition ex_sa :: send_answer where
  "ex_sa = \<lparr>sa_open = ex_open, sa_xbuf_write = 0, sa_sendmsg = 0\<rparr>"

lemma ex_world_facts:
  "eb_mode (w_box ex_world 0) = Local" "cfg_max_msg_size (eb_config (w_box ex_world 0)) = 8"
  "ring_of ex_world 1 = allocate_heap 2 8"
  by (simp_all add: ex_world_def ex_box_def new_evl_mailbox_def default_ipc_config_def ring_of_def)

section \<open>Registration of local mailboxes\<close>

text \<open>
  A local mailbox can be found in its process's directory from a successful \<open>initialize\<close>
  until \<open>shutdown\<close>, starts with an empty ring of ten slots, and neither call changes the entry of
  any other mailbox. This needs an id other than 0 and room in the directory, which \<open>initialize\<close>
  does not check.
\<close>

lemma local_registration:
  assumes "eb_mode (w_box w a) = Local" and "\<not> eb_created (w_box w a)" and "create_evl_objects ans"
    and "table_ok (directory_of w a)" and "room (directory_of w a) (box_id w a)" and "box_id w a \<noteq> 0"
  shows "\<exists>w1. evl_initialize ans a w = (SUCCESS, w1) \<and>
    registry_find (directory_of w1 a) (box_id w a) = Some a \<and>
    ring_ok (ring_of w1 a) \<and> contents (ring_of w1 a) = {#} \<and> rg_capacity (ring_of w1 a) = 10 \<and>
    registry_find (directory_of (evl_shutdown a w1) a) (box_id w a) = None \<and>
    (\<forall>k. k \<noteq> 0 \<and> k \<noteq> box_id w a \<longrightarrow>
      registry_find (directory_of w1 a) k = registry_find (directory_of w a) k \<and>
      registry_find (directory_of (evl_shutdown a w1) a) k = registry_find (directory_of w a) k)"
proof -
  let ?s = "unat (of_nat (cfg_max_msg_size (eb_config (w_box w a))) :: u32)"
  let ?t = "registry_insert (directory_of w a) (box_id w a) a"
  define w1 where "w1 = snd (evl_initialize ans a w)"
  have i: "evl_initialize ans a w = (SUCCESS, w1)" "directory_of w1 a = ?t" "w_box w1 a = (w_box w a)
      \<lparr>eb_ring := allocate_heap kSlots ?s, eb_created := True\<rparr>"
    using assms(1-3) by (simp_all add: w1_def evl_initialize_def allocate_ring_def Let_def)
  have f: "registry_find ?t k = (if k = box_id w a then Some a else registry_find (directory_of w a) k)" if "k \<noteq> 0" for k
    using evl_dir.get_put [OF assms(4,6) that assms(5)] .
  have ok: "table_ok ?t" using evl_dir.ok_put [OF assms(4,6)] .
  have sd: "directory_of (evl_shutdown a w1) a = registry_remove ?t (box_id w a)"
    using i assms(1) f [OF assms(6)] by (simp add: evl_shutdown_def free_ring_def Let_def)
  have g: "registry_find (registry_remove ?t (box_id w a)) k = (if k = box_id w a then None else registry_find ?t k)"
    if "k \<noteq> 0" for k using evl_dir.get_del [OF ok that] .
  have "?s < 2 ^ 32" using unsigned_less [of "of_nat (cfg_max_msg_size (eb_config (w_box w a))) :: u32"] by simp
  then have "ring_ok (ring_of w1 a)" "contents (ring_of w1 a) = {#}" "rg_capacity (ring_of w1 a) = 10"
    using i(3) assms(1) by (simp_all add: ring_of_def heap_ok heap_empty) (simp add: allocate_heap_def kSlots_def)
  with i f g assms(6) show ?thesis by (intro exI [of _ w1]) (simp add: sd)
qed

definition ex_init :: init_answer where
  "ex_init = \<lparr>ia_socket = 3, ia_bind = 0, ia_inet_pton = (\<lambda>_. None), ia_shm_open = 4, ia_ftruncate = 0,
     ia_mmap = True, ia_new_shm = 1, ia_relayout = ([], []), ia_mutex = 5, ia_event = 6, ia_xbuf = 7, ia_poll = 8\<rparr>"

definition ex_world0 :: world where
  "ex_world0 = ex_world\<lparr>w_registry := (\<lambda>_. empty_table), w_box := (\<lambda>i. new_evl_mailbox
     (default_ipc_config\<lparr>cfg_mailbox_id := 0x0303\<rparr>) Local ex_net 0)\<rparr>"

text \<open>Public mailboxes never enter a directory, so no send finds one there.\<close>

lemma public_not_registered:
  "eb_mode (w_box w a) = Public \<Longrightarrow> w_registry (snd (evl_initialize ans a w)) = w_registry w"
  by (simp add: evl_initialize_def allocate_ring_def open_name_def create_xbuf_def Let_def split: option.splits)

section \<open>Sending to another process\<close>

lemma post_to_remote_delivers:
  assumes "ring_ok r" and "post_to_remote r d p src = Some (True, r')"
  shows "(p, src, take (rg_slot_size r) d) \<in># contents r' \<and> ring_ok r'"
proof -
  have l: "length (take (rg_slot_size r) d) \<le> rg_slot_size r" by simp
  show ?thesis
    using ring_box.put_success_delivers [OF assms(1) l] ring_box.put_defined [OF assms(1) l, of p src] assms(2)
    by (auto simp: post_to_remote_def)
qed

text \<open>
  C36. Public mode, destination in another process: a successful send has put the message, cut to
  the ring's slot size, into the shared memory object that the sender's handle maps, and no
  mailbox sees a change in its ring unless it has that very object mapped.
\<close>

theorem public_send_lands:
  assumes "eb_mode (w_box w a) = Public" and "local_target w a dest = None"
    and "get_or_open_remote (sa_open ans) (eb_cache (w_box w a)) dest = (Some i, cache)"
    and "ring_ok (w_shm w (rh_shm (rc_handles cache ! i)))"
    and "evl_send_raw ans w a (Some d) dest p = Done (SUCCESS, w')"
  shows "(p, box_id w a, take (rg_slot_size (w_shm w (rh_shm (rc_handles cache ! i)))) d)
      \<in># contents (w_shm w' (rh_shm (rc_handles cache ! i))) \<and>
    (\<forall>b. eb_mode (w_box w b) = Public \<and> eb_shm (w_box w b) = Some (rh_shm (rc_handles cache ! i)) \<or>
      ring_of w' b = ring_of w b)"
proof -
  let ?shm = "rh_shm (rc_handles cache ! i)"
  obtain ok r where po: "post_to_remote (w_shm w ?shm) d p (box_id w a) = Some (ok, r)"
    using ring_box.put_defined [OF assms(4), of "take (rg_slot_size (w_shm w ?shm)) d" p "box_id w a"]
    by (auto simp: post_to_remote_def)
  with assms(1-3,5) have ok: "ok"
    by (auto simp: evl_send_raw_def send_public_def Let_def split: if_splits)
  with po assms(1-3,5) have w': "w' = count_sent a ((upd_box a (\<lambda>b. b\<lparr>eb_cache := cache\<rparr>) w)
      \<lparr>w_shm := (w_shm w)(?shm := r)\<rparr>)"
    by (auto simp: evl_send_raw_def send_public_def Let_def split: if_splits)
  have "ring_of w' b = ring_of w b" if "\<not> (eb_mode (w_box w b) = Public \<and> eb_shm (w_box w b) = Some ?shm)" for b
  proof -
    have "eb_mode (w_box w' b) = eb_mode (w_box w b)" "eb_shm (w_box w' b) = eb_shm (w_box w b)"
      "eb_ring (w_box w' b) = eb_ring (w_box w b)" "w_shm w' = (w_shm w)(?shm := r)"
      by (simp_all add: w' count_sent_def)
    with that show ?thesis
      by (cases "eb_mode (w_box w b)"; cases "eb_shm (w_box w b)") (auto simp: ring_of_def)
  qed
  moreover have "w_shm w' ?shm = r" by (simp add: w' count_sent_def)
  ultimately show ?thesis
    using post_to_remote_delivers [OF assms(4), of d p "box_id w a" r] po ok by auto
qed

text \<open>Two public mailboxes in different processes; the second one's region is object 9.\<close>

definition ex_pub :: "u32 \<Rightarrow> nat \<Rightarrow> nat \<Rightarrow> evl_mailbox" where
  "ex_pub mid proc shm = (new_evl_mailbox (default_ipc_config\<lparr>cfg_mailbox_id := mid, cfg_max_msg_size := 8\<rparr>)
     Public ex_net proc)\<lparr>eb_created := True, eb_shm := Some shm, eb_xbuf_fd := 3\<rparr>"

definition ex_host :: world where
  "ex_host = \<lparr>w_registry = (\<lambda>_. empty_table), w_box = (\<lambda>i. if i = 0 then ex_pub 0x0101 0 8 else ex_pub 0x0202 1 9),
     w_names = [0x0101 \<mapsto> 8, 0x0202 \<mapsto> 9], w_shm = (\<lambda>_. allocate_heap 2 8), w_net = [], w_xbuf_out = (\<lambda>_. [])\<rparr>"

lemma ex_host_facts:
  "eb_mode (w_box ex_host 0) = Public" "local_target ex_host 0 0x0202 = None"
  "w_shm ex_host n = allocate_heap 2 8" "box_id ex_host 0 = 0x0101"
proof -
  have "registry_find (empty_table :: nat registry_table) 0x0202 = None"
    by (rule evl_dir.get_empty) simp
  then show "local_target ex_host 0 0x0202 = None" by (simp add: ex_host_def local_target_def)
qed (simp_all add: ex_host_def ex_pub_def new_evl_mailbox_def)

lemma ex_host_open:
  "\<exists>cache. get_or_open_remote ex_open (eb_cache (w_box ex_host 0)) 0x0202 = (Some 0, cache) \<and>
     rh_shm (rc_handles cache ! 0) = 9"
proof -
  have "map_prod id (\<lambda>c. rh_shm (rc_handles c ! 0)) (get_or_open_remote ex_open (new_cache 16) 0x0202) = (Some 0, 9)"
    by code_simp
  moreover have "eb_cache (w_box ex_host 0) = new_cache 16"
    by (simp add: ex_host_def ex_pub_def new_evl_mailbox_def default_ipc_config_def)
  ultimately show ?thesis by (cases "get_or_open_remote ex_open (new_cache 16) 0x0202") auto
qed

lemma ex_host_sends: "\<exists>w'. evl_send_raw ex_sa ex_host 0 (Some [7]) 0x0202 3 = Done (SUCCESS, w')"
proof -
  have "fst (the (post (allocate_heap 2 8) [7] 3 0x0101))" "post (allocate_heap 2 8) [7] 3 0x0101 \<noteq> None"
    by code_simp+
  then obtain r where "post (allocate_heap 2 8) [7] 3 0x0101 = Some (True, r)" by auto
  moreover have "take (rg_slot_size (allocate_heap 2 8)) [7::8 word] = [7]"
    "cfg_max_msg_size (eb_config (w_box ex_host 0)) = 8"
    by (simp_all add: allocate_heap_def ex_host_def ex_pub_def new_evl_mailbox_def)
  ultimately show ?thesis
    using ex_host_open ex_host_facts
    by (auto simp: evl_send_raw_def send_public_def post_to_remote_def ex_sa_def Let_def)
qed

theorem public_send_lands_witness:
  "\<exists>w'. evl_send_raw ex_sa ex_host 0 (Some [7]) 0x0202 3 = Done (SUCCESS, w') \<and>
    (3, 0x0101, [7]) \<in># contents (w_shm w' 9)"
proof -
  obtain cache where c: "get_or_open_remote (sa_open ex_sa) (eb_cache (w_box ex_host 0)) 0x0202 = (Some 0, cache)"
    "rh_shm (rc_handles cache ! 0) = 9"
    using ex_host_open by (auto simp: ex_sa_def)
  obtain w' where w': "evl_send_raw ex_sa ex_host 0 (Some [7]) 0x0202 3 = Done (SUCCESS, w')"
    using ex_host_sends by blast
  have "ring_ok (w_shm ex_host (rh_shm (rc_handles cache ! 0)))"
    by (simp add: ex_host_facts heap_ok)
  from public_send_lands [OF ex_host_facts(1,2) c(1) this w'] c(2) w' ex_host_facts show ?thesis
    by (auto simp: allocate_heap_def)
qed

text \<open>
  A public mailbox that is shut down and initialised again gets a new shared memory object,
  while a sender keeps the handle it has cached: by \<open>public_send_lands\<close> its further sends land
  in the old object, which the restarted mailbox does not read.
\<close>

lemma restart_orphans_handles:
  assumes "eb_mode (w_box w b) = Public" and "eb_created (w_box w b)" and "eb_shm (w_box w b) = Some shm"
    and "cached (eb_cache (w_box w a)) (box_id w b) shm" and "a \<noteq> b" and "ia_new_shm ans \<noteq> shm"
    and "0 \<le> ia_shm_open ans" and "0 \<le> ia_ftruncate ans" and "ia_mmap ans" and "create_evl_objects ans"
    and "0 \<le> ia_xbuf ans" and "0 \<le> ia_poll ans"
  shows "case evl_initialize ans b (evl_shutdown b w) of (res, w2) \<Rightarrow> res = SUCCESS \<and>
    eb_shm (w_box w2 b) = Some (ia_new_shm ans) \<and> w_names w2 (box_id w b) = Some (ia_new_shm ans) \<and>
    cached (eb_cache (w_box w2 a)) (box_id w b) shm \<and> eb_shm (w_box w2 b) \<noteq> Some shm"
proof -
  let ?w1 = "evl_shutdown b w"
  have w1: "eb_mode (w_box ?w1 b) = Public" "\<not> eb_created (w_box ?w1 b)" "box_id ?w1 b = box_id w b"
    "w_names ?w1 (box_id w b) = None" "w_box ?w1 a = w_box w a"
    using assms(1-3,5) by (simp_all add: evl_shutdown_def free_ring_def Let_def)
  show ?thesis
    using w1 assms(4-12)
    by (auto simp: evl_initialize_def allocate_ring_def open_name_def shm_object_def create_xbuf_def Let_def)
qed

section \<open>Receiving from the ring\<close>

lemma has_in_use_contents: "has_in_use_slot r \<longleftrightarrow> contents r \<noteq> {#}"
proof -
  have "contents r \<noteq> {#} \<longleftrightarrow> (\<exists>m. m \<in># contents r)"
    by (metis empty_iff multiset_nonemptyE set_mset_empty)
  then show ?thesis unfolding has_in_use_slot_iff in_contents by blast
qed

lemma receive_slot_fits:
  assumes "ring_ok r" and "\<exists>m \<in># contents r. msg_prio m \<noteq> -128"
    and "\<forall>m \<in># contents r. length (snd (snd m)) \<le> n"
  shows "\<exists>ret bs sm r'. receive_slot r n = Some (ret, bs, sm, r') \<and> 0 \<le> ret"
proof -
  obtain i where i: "find_highest_priority_slot r = Some i"
    using receive_slot_defined [OF assms(2), of n] by (auto simp: receive_slot_def split: option.splits)
  note h = find_highest_Some [OF i]
  have "length (snd (snd (slot_msg r i))) = unat (sm_size (rg_meta r ! i))"
    using slot_msg_length [OF assms(1) h(1,2)] .
  moreover have "slot_msg r i \<in># contents r" using h(1,2) by (auto simp: in_contents)
  ultimately have "unat (sm_size (rg_meta r ! i)) \<le> n" using assms(3) by fastforce
  with i show ?thesis by (simp add: receive_slot_def Let_def)
qed

text \<open>
  A receiver of a local mailbox that holds messages it can take gets one at once: a message
  of the highest priority, with the sender's id and priority in the metadata; exactly that message
  leaves the ring and the counter advances. (Messages must fit the buffer, and one must have a
  priority above -128.)
\<close>

lemma local_receive_result:
  assumes "eb_mode (w_box w a) = Local" and "eb_created (w_box w a)" and "ring_ok (ring_of w a)"
    and "\<exists>m \<in># contents (ring_of w a). msg_prio m \<noteq> -128"
    and "\<forall>m \<in># contents (ring_of w a). length (snd (snd m)) \<le> n"
  shows "\<exists>p src bs meta w'. receive_impl env a n timeout w = Done (int (length bs), bs, Some meta, w') \<and>
    (p, src, bs) \<in># contents (ring_of w a) \<and> (\<forall>m \<in># contents (ring_of w a). msg_prio m \<le> sint p) \<and>
    contents (ring_of w' a) = contents (ring_of w a) - {#(p, src, bs)#} \<and> ring_ok (ring_of w' a) \<and>
    em_src meta = src \<and> em_priority meta = p \<and> em_dest meta = box_id w a \<and>
    eb_received (w_box w' a) = eb_received (w_box w a) + 1"
proof -
  obtain ret bs sm r' where r: "receive_slot (ring_of w a) n = Some (ret, bs, sm, r')" "0 \<le> ret"
    using receive_slot_fits [OF assms(3-5)] by blast
  obtain m where m: "m \<in># contents (ring_of w a)" "\<forall>m' \<in># contents (ring_of w a). msg_prio m' \<le> msg_prio m"
    "contents r' = contents (ring_of w a) - {#m#}" "ring_ok r'" "m = (sm_priority sm, sm_src sm, bs)"
    "ret = int (length bs)"
    using receive_slot_gets [OF assms(3) r] by blast
  have "has_in_use_slot (ring_of w a)" using assms(4) by (auto simp: has_in_use_contents)
  then have "wait_slot f (ring_of w a) ws = Some (Inr (ring_of w a))" for f ws
    by (cases ws) auto
  then have "receive_impl env a n timeout w
      = Done (ret, bs, Some (slot_metadata w a sm bs), count_received a (set_ring a r' w))"
    using r assms(1,2) by (simp add: receive_impl_def receive_ring_def)
  moreover have "eb_received (w_box (count_received a (set_ring a r' w)) a) = eb_received (w_box w a) + 1"
    using assms(1) by (simp add: count_received_def set_ring_def)
  ultimately show ?thesis
    using m by (intro exI [of _ "sm_priority sm"] exI [of _ "sm_src sm"] exI [of _ bs]
        exI [of _ "slot_metadata w a sm bs"] exI [of _ "count_received a (set_ring a r' w)"])
      (simp add: slot_metadata_def)
qed

definition ex_env :: receive_env where
  "ex_env = \<lparr>rv_now = \<lparr>tv_sec = 1, tv_nsec = 0\<rparr>, rv_poll = (\<lambda>_. (0, [])), rv_waits = (\<lambda>_. []),
     rv_recvmsg = (\<lambda>_. Inl (-11))\<rparr>"

end
