(* ===== verification/Message_Registry.thy ===== *)
theory Message_Registry
  imports Wire_Message
begin

text \<open>
  Message identities and the message registry: \<open>messaging/message_id.hpp\<close>,
  \<open>messaging/message_registry.hpp\<close> and \<open>messaging/registry_utils.hpp\<close>. What the templates
  compute on tuples of types at compile time is a function on lists of definitions; a payload
  type is a value of a type of tags, and serialisation of a payload is the \<open>sertial\<close> library's,
  a parameter.
\<close>

section \<open>Message ids\<close>

datatype message_prefix = System | UserDefined

datatype system_subprefix = Subscription | Control | Reserved

datatype user_subprefix = Data | Commands | Events | GetData | GetNextData | Custom

fun prefix_byte :: "message_prefix \<Rightarrow> u8" where
  "prefix_byte System = 0x00"
| "prefix_byte UserDefined = 0x01"

fun system_sub_byte :: "system_subprefix \<Rightarrow> u8" where
  "system_sub_byte Subscription = 0x00"
| "system_sub_byte Control = 0x01"
| "system_sub_byte Reserved = 0xFF"

fun user_sub_byte :: "user_subprefix \<Rightarrow> u8" where
  "user_sub_byte Data = 0x00"
| "user_sub_byte Commands = 0x01"
| "user_sub_byte Events = 0x02"
| "user_sub_byte GetData = 0x03"
| "user_sub_byte GetNextData = 0x04"
| "user_sub_byte Custom = 0x05"

definition make_message_id :: "u8 \<Rightarrow> u8 \<Rightarrow> u16 \<Rightarrow> u32" where
  "make_message_id prefix subprefix mid =
     (push_bit 24 (ucast prefix) OR push_bit 16 (ucast subprefix)) OR ucast mid"

definition system_message_id :: "system_subprefix \<Rightarrow> u16 \<Rightarrow> u32" where
  "system_message_id s mid = make_message_id (prefix_byte System) (system_sub_byte s) mid"

definition user_message_id :: "user_subprefix \<Rightarrow> u16 \<Rightarrow> u32" where
  "user_message_id s mid = make_message_id (prefix_byte UserDefined) (user_sub_byte s) mid"

definition MAX_MESSAGE_ID :: u16 where "MAX_MESSAGE_ID = 0x7FFF"

section \<open>Message definitions\<close>

text \<open>The non-type argument \<open>SubPrefix_\<close>, of any of four types.\<close>

datatype subprefix_arg = Sys_sub system_subprefix | User_sub user_subprefix | Raw_sub u8 | Null_sub

definition resolve_subprefix :: "message_prefix \<Rightarrow> subprefix_arg \<Rightarrow> u8" where
  "resolve_subprefix p s = (case s of Raw_sub b \<Rightarrow> b
     | _ \<Rightarrow> (case p of
           System \<Rightarrow> (case s of Sys_sub x \<Rightarrow> system_sub_byte x | _ \<Rightarrow> system_sub_byte Reserved)
         | UserDefined \<Rightarrow> (case s of User_sub x \<Rightarrow> user_sub_byte x | _ \<Rightarrow> user_sub_byte Data)))"

record 'p message_def =
  mdf_payload :: 'p
  mdf_prefix :: message_prefix
  mdf_subprefix :: u8
  mdf_local_id :: u16
  mdf_reply :: "'p option"

definition message_definition :: "'p \<Rightarrow> message_prefix \<Rightarrow> subprefix_arg \<Rightarrow> u16 \<Rightarrow> 'p option \<Rightarrow> 'p message_def" where
  "message_definition payload p s mid reply = \<lparr>mdf_payload = payload, mdf_prefix = p,
     mdf_subprefix = resolve_subprefix p s, mdf_local_id = mid, mdf_reply = reply\<rparr>"

text \<open>The four \<open>static_assert\<close>s of the class template.\<close>

definition definition_ok :: "message_prefix \<Rightarrow> subprefix_arg \<Rightarrow> u16 \<Rightarrow> 'p option \<Rightarrow> bool" where
  "definition_ok p s mid reply \<longleftrightarrow>
     (case (p, s) of (System, Sys_sub _) \<Rightarrow> True | (UserDefined, User_sub _) \<Rightarrow> True
        | (_, Null_sub) \<Rightarrow> True | (_, Raw_sub _) \<Rightarrow> True | _ \<Rightarrow> False) \<and>
     (reply = None \<or>
        p = System \<and> resolve_subprefix p s \<in> {system_sub_byte Control, system_sub_byte Subscription} \<or>
        p = UserDefined \<and> resolve_subprefix p s \<in> {user_sub_byte Commands, user_sub_byte GetData, user_sub_byte GetNextData}) \<and>
     (reply = None \<or> mid = 0 \<or> mid \<le> MAX_MESSAGE_ID) \<and> (reply = None \<or> sint mid \<ge> 0)"

definition has_reply :: "'p message_def \<Rightarrow> bool" where
  "has_reply d \<longleftrightarrow> mdf_reply d \<noteq> None"

definition is_request :: "'p message_def \<Rightarrow> bool" where
  "is_request d \<longleftrightarrow> mdf_reply d \<noteq> None"

definition is_reply :: "'p message_def \<Rightarrow> bool" where
  "is_reply d \<longleftrightarrow> mdf_reply d = None \<and> mdf_local_id d \<noteq> 0 \<and> sint (mdf_local_id d) < 0"

definition request_id :: "'p message_def \<Rightarrow> u16" where
  "request_id d = (if is_reply d then - mdf_local_id d else 0)"

definition needs_auto_id :: "'p message_def \<Rightarrow> bool" where
  "needs_auto_id d \<longleftrightarrow> mdf_local_id d = 0"

definition reply_def :: "'p message_def \<Rightarrow> 'p message_def option" where
  "reply_def d = map_option (\<lambda>r. d\<lparr>mdf_payload := r, mdf_local_id := - mdf_local_id d, mdf_reply := None\<rparr>) (mdf_reply d)"

definition full_id :: "'p message_def \<Rightarrow> u32" where
  "full_id d = make_message_id (prefix_byte (mdf_prefix d)) (mdf_subprefix d) (mdf_local_id d)"

text \<open>The aliases \<open>Message::Data\<close>, \<open>Message::Command\<close> and \<open>Message::Event\<close>.\<close>

definition Message_Data :: "'p \<Rightarrow> 'p message_def" where
  "Message_Data t = message_definition t UserDefined (User_sub Data) 0 None"

definition Message_Command :: "'p \<Rightarrow> 'p message_def" where
  "Message_Command t = message_definition t UserDefined (User_sub Commands) 0 None"

definition Message_Event :: "'p \<Rightarrow> 'p message_def" where
  "Message_Event t = message_definition t UserDefined (User_sub Events) 0 None"

section \<open>Registry construction\<close>

fun expand_replies :: "'p message_def list \<Rightarrow> 'p message_def list" where
  "expand_replies [] = []"
| "expand_replies (d # ds) =
     (case reply_def d of Some r \<Rightarrow> d # r # expand_replies ds | None \<Rightarrow> d # expand_replies ds)"

definition same_category :: "'p message_def \<Rightarrow> 'p message_def \<Rightarrow> bool" where
  "same_category d e \<longleftrightarrow> mdf_prefix d = mdf_prefix e \<and> mdf_subprefix d = mdf_subprefix e"

definition highest_id :: "'p message_def list \<Rightarrow> 'p message_def \<Rightarrow> u16" where
  "highest_id processed d = foldl (\<lambda>max_id e.
     if same_category e d \<and> \<not> is_reply e \<and> mdf_local_id e > max_id then mdf_local_id e else max_id) 0 processed"

fun auto_assign_process :: "'p message_def list \<Rightarrow> 'p message_def list \<Rightarrow> 'p message_def list" where
  "auto_assign_process processed [] = []"
| "auto_assign_process processed (d # ds) =
     (let d' = (if needs_auto_id d then d\<lparr>mdf_local_id := highest_id processed d + 1\<rparr> else d)
      in d' # auto_assign_process (processed @ [d']) ds)"

definition auto_assign_ids :: "'p message_def list \<Rightarrow> 'p message_def list" where
  "auto_assign_ids ds = auto_assign_process [] ds"

text \<open>\<open>check_all_pairs\<close>, which fails to compile on a collision, as a boolean.\<close>

fun check_all_pairs :: "'p message_def list \<Rightarrow> bool" where
  "check_all_pairs (d # e # ds) \<longleftrightarrow> full_id d \<noteq> full_id e \<and>
     (ds \<noteq> [] \<longrightarrow> check_all_pairs (d # ds) \<and> check_all_pairs (e # ds))"
| "check_all_pairs ds \<longleftrightarrow> True"

definition check_collisions :: "'p message_def list \<Rightarrow> bool" where
  "check_collisions ds = (if length ds \<le> 1 then True else check_all_pairs ds)"

definition message_defs_tuple :: "'p message_def list \<Rightarrow> 'p message_def list" where
  "message_defs_tuple ds = expand_replies (auto_assign_ids ds)"

definition payload_types :: "'p message_def list \<Rightarrow> 'p list" where
  "payload_types ds = map mdf_payload (message_defs_tuple ds)"

definition is_registered :: "'p message_def list \<Rightarrow> 'p \<Rightarrow> bool" where
  "is_registered ds t \<longleftrightarrow> list_ex (\<lambda>u. t = u) (payload_types ds)"

definition num_types :: "'p message_def list \<Rightarrow> nat" where
  "num_types ds = length ds"

definition registry_size :: "'p message_def list \<Rightarrow> nat" where
  "registry_size ds = length (message_defs_tuple ds)"

text \<open>The largest \<open>max_buffer_size\<close> over the payload types; \<open>msz\<close> is the library's constant.\<close>

definition max_message_size :: "('p \<Rightarrow> nat) \<Rightarrow> 'p message_def list \<Rightarrow> nat" where
  "max_message_size msz ds = foldl max 0 (map msz (payload_types ds))"

text \<open>\<open>max_size_for_types\<close>; \<open>None\<close> where its \<open>static_assert\<close>s stop the compiler.\<close>

definition max_size_for_types :: "('p \<Rightarrow> nat) \<Rightarrow> 'p message_def list \<Rightarrow> 'p list \<Rightarrow> nat option" where
  "max_size_for_types msz ds ts =
     (if ts \<noteq> [] \<and> list_all (is_registered ds) ts then Some (foldl max 0 (map msz ts)) else None)"

section \<open>Lookup\<close>

definition find_message_def :: "'p \<Rightarrow> 'p message_def list \<Rightarrow> 'p message_def option" where
  "find_message_def t ds = List.find (\<lambda>d. mdf_payload d = t) (message_defs_tuple ds)"

definition get_message_id :: "'p message_def list \<Rightarrow> 'p \<Rightarrow> u32 option" where
  "get_message_id ds t = map_option full_id (find_message_def t ds)"

text \<open>The fold of \<open>TypeIndex\<close> over the payload types.\<close>

definition type_index :: "'p message_def list \<Rightarrow> 'p \<Rightarrow> nat" where
  "type_index ds t = fst (foldl (\<lambda>(idx, current) u. if t = u then (current, current) else (idx, Suc current))
     (num_types ds, 0) (payload_types ds))"

definition type_at :: "'p message_def list \<Rightarrow> nat \<Rightarrow> 'p option" where
  "type_at ds i = (if i < length (payload_types ds) then Some (payload_types ds ! i) else None)"

fun type_by_id :: "u32 \<Rightarrow> 'p message_def list \<Rightarrow> 'p option" where
  "type_by_id mid [] = None"
| "type_by_id mid (d # ds) = (if full_id d = mid then Some (mdf_payload d) else type_by_id mid ds)"

definition payload_type_for :: "'p message_def list \<Rightarrow> u32 \<Rightarrow> 'p option" where
  "payload_type_for ds mid = type_by_id mid (message_defs_tuple ds)"

definition has_message_id :: "'p message_def list \<Rightarrow> u32 \<Rightarrow> bool" where
  "has_message_id ds mid \<longleftrightarrow> payload_type_for ds mid \<noteq> None"

definition message_ids :: "'p message_def list \<Rightarrow> u32 list" where
  "message_ids ds = map full_id (message_defs_tuple ds)"

section \<open>Serialisation and dispatch\<close>

text \<open>
  \<open>serialize\<close> of the registry fills in the message type of the payload's C++ type \<open>t\<close>. \<open>visit\<close>
  deserialises by the type the id belongs to, hands the message to the visitor and reports
  whether it did; its result here is the visited type and message.
\<close>

definition registry_serialize :: "'p message_def list \<Rightarrow> 'p \<Rightarrow> ('v wire_message \<Rightarrow> bytes) \<Rightarrow> 'v wire_message
    \<Rightarrow> (bytes \<times> 'v wire_message) option" where
  "registry_serialize ds t ser message =
     (case get_message_id ds t of None \<Rightarrow> None | Some mid \<Rightarrow> Some (serialize (Some mid) ser message))"

fun visit_impl :: "('p \<Rightarrow> bytes \<Rightarrow> 'v wire_message option) \<Rightarrow> u32 \<Rightarrow> bytes \<Rightarrow> 'p message_def list
    \<Rightarrow> ('p \<times> 'v wire_message) option" where
  "visit_impl deser msg_id data [] = None"
| "visit_impl deser msg_id data (d # ds) =
     (if msg_id = full_id d
      then map_option (Pair (mdf_payload d)) (deserialize (deser (mdf_payload d)) data)
      else visit_impl deser msg_id data ds)"

definition visit :: "'p message_def list \<Rightarrow> ('p \<Rightarrow> bytes \<Rightarrow> 'v wire_message option) \<Rightarrow> u32 \<Rightarrow> bytes
    \<Rightarrow> ('p \<times> 'v wire_message) option" where
  "visit ds deser msg_id data = visit_impl deser msg_id data (message_defs_tuple ds)"

section \<open>Queries (registry_utils.hpp)\<close>

fun filter_tuple :: "('p message_def \<Rightarrow> bool) \<Rightarrow> 'p message_def list \<Rightarrow> 'p message_def list" where
  "filter_tuple P [] = []"
| "filter_tuple P (d # ds) = (let rest = filter_tuple P ds in if P d then d # rest else rest)"

definition matches_prefix :: "message_prefix \<Rightarrow> 'p message_def \<Rightarrow> bool" where
  "matches_prefix p d \<longleftrightarrow> mdf_prefix d = p"

definition matches_subprefix :: "message_prefix \<Rightarrow> u8 \<Rightarrow> 'p message_def \<Rightarrow> bool" where
  "matches_subprefix p s d \<longleftrightarrow> mdf_prefix d = p \<and> mdf_subprefix d = s"

definition filter_by_prefix :: "message_prefix \<Rightarrow> 'p message_def list \<Rightarrow> 'p message_def list" where
  "filter_by_prefix p ds = filter_tuple (matches_prefix p) (message_defs_tuple ds)"

definition filter_by_subprefix :: "message_prefix \<Rightarrow> u8 \<Rightarrow> 'p message_def list \<Rightarrow> 'p message_def list" where
  "filter_by_subprefix p s ds = filter_tuple (matches_subprefix p s) (message_defs_tuple ds)"

definition data_messages :: "'p message_def list \<Rightarrow> 'p message_def list" where
  "data_messages = filter_by_subprefix UserDefined (user_sub_byte Data)"

definition command_messages :: "'p message_def list \<Rightarrow> 'p message_def list" where
  "command_messages = filter_by_subprefix UserDefined (user_sub_byte Commands)"

definition event_messages :: "'p message_def list \<Rightarrow> 'p message_def list" where
  "event_messages = filter_by_subprefix UserDefined (user_sub_byte Events)"

definition subscription_messages :: "'p message_def list \<Rightarrow> 'p message_def list" where
  "subscription_messages = filter_by_subprefix System (system_sub_byte Subscription)"

definition system_control_messages :: "'p message_def list \<Rightarrow> 'p message_def list" where
  "system_control_messages = filter_by_subprefix System (system_sub_byte Control)"

definition is_reply_id :: "'p message_def \<Rightarrow> bool" where
  "is_reply_id d \<longleftrightarrow> mdf_local_id d > MAX_MESSAGE_ID"

definition filter_requests :: "'p message_def list \<Rightarrow> 'p message_def list" where
  "filter_requests ds = filter_tuple (\<lambda>d. has_reply d \<and> is_request d) (message_defs_tuple ds)"

definition filter_replies :: "'p message_def list \<Rightarrow> 'p message_def list" where
  "filter_replies ds = filter_tuple is_reply_id (message_defs_tuple ds)"

definition is_request_payload :: "'p message_def list \<Rightarrow> 'p \<Rightarrow> bool" where
  "is_request_payload ds t \<longleftrightarrow> (case find_message_def t ds of None \<Rightarrow> False | Some d \<Rightarrow> has_reply d \<and> is_request d)"

text \<open>Instantiable for request payloads only: otherwise there is no \<open>ReplyMessageDef::Payload\<close>.\<close>

definition get_reply_payload :: "'p message_def list \<Rightarrow> 'p \<Rightarrow> 'p option" where
  "get_reply_payload ds t = (case find_message_def t ds of None \<Rightarrow> None
     | Some d \<Rightarrow> map_option mdf_payload (reply_def d))"

record registry_stats =
  rs_total :: nat
  rs_data :: nat
  rs_command :: nat
  rs_subscription :: nat
  rs_request :: nat
  rs_reply :: nat

definition registry_stats_of :: "'p message_def list \<Rightarrow> registry_stats" where
  "registry_stats_of ds = \<lparr>rs_total = registry_size ds, rs_data = length (data_messages ds),
     rs_command = length (command_messages ds), rs_subscription = length (subscription_messages ds),
     rs_request = length (filter_requests ds), rs_reply = length (filter_replies ds)\<rparr>"

text \<open>\<open>deserialize\<close> of a message type exists only if its payload is registered.\<close>

definition registry_deserialize :: "'p message_def list \<Rightarrow> 'p \<Rightarrow> (bytes \<Rightarrow> 'v wire_message option) \<Rightarrow> bytes
    \<Rightarrow> 'v wire_message option option" where
  "registry_deserialize ds p deser data = (if is_registered ds p then Some (deser data) else None)"


section \<open>Ids are injective\<close>

lemma message_id_fields:
  "ucast (make_message_id p s i) = i" "ucast (drop_bit 16 (make_message_id p s i)) = s"
  "ucast (drop_bit 24 (make_message_id p s i)) = p"
  by (rule bit_word_eqI; simp add: make_message_id_def bit_or_iff bit_push_bit_iff bit_ucast_iff
      bit_drop_bit_eq; fastforce dest: bit_imp_le_length)+

lemma make_message_id_inject:
  "make_message_id p s i = make_message_id p' s' i' \<longleftrightarrow> p = p' \<and> s = s' \<and> i = i'"
  by (metis message_id_fields)

lemma prefix_byte_inject: "prefix_byte p = prefix_byte q \<longleftrightarrow> p = q"
  by (cases p; cases q) simp_all

lemma full_id_eq_iff: "full_id d = full_id e \<longleftrightarrow> same_category d e \<and> mdf_local_id d = mdf_local_id e"
  by (auto simp: full_id_def make_message_id_inject prefix_byte_inject same_category_def)

text \<open>
  The pairwise collision check accepts a list of definitions exactly when all their full
  message ids are different.
\<close>

lemma check_collisions_distinct: "check_collisions ds \<longleftrightarrow> distinct (map full_id ds)"
proof -
  have "check_all_pairs ds \<longleftrightarrow> distinct (map full_id ds)"
  proof (induction ds rule: check_all_pairs.induct)
    case (1 d e ds)
    then show ?case by (cases ds) auto
  qed simp_all
  moreover have "length ds \<le> 1 \<Longrightarrow> distinct (map full_id ds)"
    by (cases ds; cases "tl ds") simp_all
  ultimately show ?thesis by (simp add: check_collisions_def)
qed

section \<open>Automatic ids\<close>

lemma highest_id_props:
  "\<forall>e \<in> set processed. same_category e d \<and> \<not> is_reply e \<longrightarrow> mdf_local_id e \<le> highest_id processed d"
  "(\<forall>e \<in> set processed. unat (mdf_local_id e) \<le> N) \<Longrightarrow> unat (highest_id processed d) \<le> N"
proof -
  let ?f = "\<lambda>max_id e. if same_category e d \<and> \<not> is_reply e \<and> mdf_local_id e > max_id then mdf_local_id e else max_id"
  have mono: "m \<le> foldl ?f m es" for m es
  proof (induction es arbitrary: m)
    case (Cons e es)
    have "m \<le> ?f m e" by (simp add: less_imp_le)
    also have "\<dots> \<le> foldl ?f (?f m e) es" by (rule Cons.IH)
    finally show ?case by simp
  qed simp
  have "\<forall>e \<in> set es. same_category e d \<and> \<not> is_reply e \<longrightarrow> mdf_local_id e \<le> foldl ?f m es" for m es
  proof (induction es arbitrary: m)
    case (Cons e es)
    have "same_category e d \<and> \<not> is_reply e \<longrightarrow> mdf_local_id e \<le> ?f m e" by auto
    with mono [of "?f m e" es] Cons.IH [of "?f m e"] show ?case by auto
  qed simp
  then show "\<forall>e \<in> set processed. same_category e d \<and> \<not> is_reply e \<longrightarrow> mdf_local_id e \<le> highest_id processed d"
    by (simp add: highest_id_def)
  have "(\<forall>e \<in> set es. unat (mdf_local_id e) \<le> N) \<Longrightarrow> unat m \<le> N \<Longrightarrow> unat (foldl ?f m es) \<le> N" for m es
    by (induction es arbitrary: m) simp_all
  then show "(\<forall>e \<in> set processed. unat (mdf_local_id e) \<le> N) \<Longrightarrow> unat (highest_id processed d) \<le> N"
    by (simp add: highest_id_def)
qed

text \<open>Ids in the range of requests: 1 to 0x7FFF.\<close>

definition request_range :: "nat \<Rightarrow> 'p message_def \<Rightarrow> bool" where
  "request_range N d \<longleftrightarrow> 1 \<le> unat (mdf_local_id d) \<and> unat (mdf_local_id d) \<le> N"

lemma sint_u16_nonneg:
  assumes "unat (w::u16) \<le> 0x7FFF"
  shows "0 \<le> sint w"
proof -
  have "int (unat w) \<le> 0x7FFF" using assms by linarith
  then have "uint w < 2 ^ 15" by simp
  moreover have "- (2 ^ 15) \<le> uint w" using unsigned_greater_eq [of w] by (simp add: order_trans [of _ 0])
  ultimately have "sint w = uint w" using signed_take_bit_int_eq_self [of 15 "uint w"] by (simp add: sint_uint)
  then show ?thesis by simp
qed

lemma request_range_not_reply:
  "request_range N d \<Longrightarrow> N \<le> 0x7FFF \<Longrightarrow> \<not> is_reply d"
  using sint_u16_nonneg [of "mdf_local_id d"] by (auto simp: request_range_def is_reply_def)

lemma auto_assign_process_distinct:
  assumes "\<forall>d \<in> set ds. needs_auto_id d" and "\<forall>e \<in> set processed. request_range N e"
    and "N + length ds \<le> 0x7FFF" and "distinct (map full_id processed)"
  shows "distinct (map full_id (processed @ auto_assign_process processed ds)) \<and>
    (\<forall>e \<in> set (auto_assign_process processed ds). request_range (N + length ds) e)"
  using assms
proof (induction ds arbitrary: processed N)
  case (Cons d ds)
  let ?h = "highest_id processed d"
  define d' where "d' = d\<lparr>mdf_local_id := ?h + 1\<rparr>"
  have h: "unat ?h \<le> N" using highest_id_props(2) [of processed N d] Cons.prems(2) by (simp add: request_range_def)
  then have u: "unat (?h + 1) = unat ?h + 1" using Cons.prems(3) by (simp add: unat_word_ariths)
  have cat: "same_category e d' \<longleftrightarrow> same_category e d" for e by (simp add: d'_def same_category_def)
  have "full_id d' \<notin> full_id ` set processed"
  proof
    assume "full_id d' \<in> full_id ` set processed"
    then obtain e where e: "e \<in> set processed" "full_id e = full_id d'" by auto
    then have "same_category e d" "mdf_local_id e = ?h + 1" by (simp_all add: full_id_eq_iff cat) (simp add: d'_def)
    moreover have "\<not> is_reply e" using e(1) Cons.prems(2,3) request_range_not_reply [of N e] by simp
    ultimately have "?h + 1 \<le> ?h" using highest_id_props(1) [of processed d] e(1) by metis
    with u show False by (simp add: word_le_nat_alt)
  qed
  then have dist: "distinct (map full_id (processed @ [d']))" using Cons.prems(4) by simp
  have r: "request_range (Suc N) d'" using h u by (simp add: request_range_def d'_def)
  then have "\<forall>e \<in> set (processed @ [d']). request_range (Suc N) e"
    using Cons.prems(2) by (auto simp: request_range_def)
  from Cons.IH [OF _ this _ dist] Cons.prems(1,3) r
  show ?case by (auto simp: d'_def Let_def request_range_def)
qed simp

lemma auto_assign_process_explicit:
  "\<forall>e \<in> set es. \<not> needs_auto_id e \<Longrightarrow>
    auto_assign_process processed (es @ ds) = es @ auto_assign_process (processed @ es) ds"
  by (induction es arbitrary: processed) simp_all

definition reply_full_id :: "'p message_def \<Rightarrow> u32" where
  "reply_full_id d = make_message_id (prefix_byte (mdf_prefix d)) (mdf_subprefix d) (- mdf_local_id d)"

lemma expand_replies_ids:
  "full_id ` set (expand_replies ds) \<subseteq> full_id ` set ds \<union> reply_full_id ` set ds"
  by (induction ds) (auto simp: reply_def_def full_id_def reply_full_id_def split: option.splits)

lemma expand_replies_distinct:
  assumes "distinct (map full_id ds)" and "\<forall>d \<in> set ds. request_range 0x7FFF d"
  shows "distinct (map full_id (expand_replies ds))"
  using assms
proof (induction ds)
  case (Cons d ds)
  have up: "full_id d \<noteq> reply_full_id e" if "request_range 0x7FFF d" "request_range 0x7FFF e" for d e :: "'a message_def"
  proof -
    have "mdf_local_id d \<noteq> - mdf_local_id e"
    proof
      assume "mdf_local_id d = - mdf_local_id e"
      then have "unat (mdf_local_id d + mdf_local_id e) = 0" by simp
      then show False using that by (simp add: unat_word_ariths request_range_def)
    qed
    then show ?thesis by (simp add: full_id_def reply_full_id_def make_message_id_inject)
  qed
  have inj: "reply_full_id d = reply_full_id e \<longleftrightarrow> full_id d = full_id e" for d e :: "'a message_def"
    by (simp add: full_id_def reply_full_id_def make_message_id_inject)
  have r: "request_range 0x7FFF d" "\<forall>e \<in> set ds. request_range 0x7FFF e" "full_id d \<notin> full_id ` set ds"
    using Cons.prems by auto
  have "x \<in> full_id ` set ds \<or> x \<in> reply_full_id ` set ds" if "x \<in> full_id ` set (expand_replies ds)" for x
    using that expand_replies_ids [of ds] by blast
  moreover have "full_id d \<notin> reply_full_id ` set ds" using r up by blast
  moreover have "reply_full_id d \<notin> full_id ` set ds" using r up by (metis imageE)
  moreover have "reply_full_id d \<notin> reply_full_id ` set ds" using r inj by (metis image_iff)
  ultimately have "full_id d \<notin> full_id ` set (expand_replies ds)" "reply_full_id d \<notin> full_id ` set (expand_replies ds)"
    using r(3) by blast+
  moreover have "full_id d \<noteq> reply_full_id d" using up [of d d] Cons.prems(2) by simp
  ultimately show ?case
    using Cons by (auto simp: reply_def_def full_id_def reply_full_id_def split: option.splits)
qed simp


text \<open>
  C37. A registry whose explicit ids come first, differ, and stay in the request range, followed
  by definitions with automatic ids, gets pairwise different message ids for all messages and all
  their replies, provided the ids do not run past 0x7FFF.
\<close>

theorem registry_ids_distinct:
  assumes "\<forall>e \<in> set es. request_range N e" and "distinct (map full_id es)"
    and "\<forall>d \<in> set ds. needs_auto_id d" and "N + length ds \<le> 0x7FFF"
  shows "distinct (message_ids (es @ ds))"
proof -
  have "\<forall>e \<in> set es. \<not> needs_auto_id e"
    using assms(1) by (auto simp: request_range_def needs_auto_id_def)
  then have a: "auto_assign_ids (es @ ds) = es @ auto_assign_process es ds"
    using auto_assign_process_explicit [of es "[]" ds] by (simp add: auto_assign_ids_def)
  note d = auto_assign_process_distinct [OF assms(3,1,4,2)]
  have "\<forall>x \<in> set (es @ auto_assign_process es ds). request_range 0x7FFF x"
    using d assms(1,4) by (auto simp: request_range_def dest: order_trans)
  with expand_replies_distinct [of "es @ auto_assign_process es ds"] d show ?thesis
    by (simp add: message_ids_def message_defs_tuple_def a)
qed

definition ex_defs_explicit :: "nat message_def list" where
  "ex_defs_explicit = [message_definition 0 UserDefined (User_sub Commands) 7 (Some 1)]"

definition ex_defs_auto :: "nat message_def list" where
  "ex_defs_auto = [message_definition 2 UserDefined (User_sub Commands) 0 (Some 3),
     message_definition 4 UserDefined (User_sub Data) 0 None]"

theorem registry_ids_distinct_witness: "distinct (message_ids (ex_defs_explicit @ ex_defs_auto))"
  by (rule registry_ids_distinct [of _ 7])
    (simp_all add: ex_defs_explicit_def ex_defs_auto_def message_definition_def request_range_def needs_auto_id_def)

text \<open>An automatic id ignores what comes later: here it takes the explicit id 1 of the next one.\<close>

lemma auto_id_collides:
  "\<not> distinct (message_ids [message_definition (0::nat) UserDefined (User_sub Data) 0 None,
     message_definition 1 UserDefined (User_sub Data) 1 None])"
  by code_simp

text \<open>The collision check is given the definitions before ids are assigned, where it says the opposite.\<close>

lemma check_before_assignment:
  "check_collisions [message_definition (0::nat) UserDefined (User_sub Data) 0 None,
     message_definition 1 UserDefined (User_sub Data) 1 None]"
  "\<not> check_collisions [message_definition (0::nat) UserDefined (User_sub Data) 0 None,
     message_definition 1 UserDefined (User_sub Data) 0 None]"
  by code_simp+

section \<open>Dispatch\<close>

lemma visit_impl_hit:
  assumes "d \<in> set ds" and "distinct (map full_id ds)"
  shows "visit_impl deser (full_id d) data ds
    = map_option (Pair (mdf_payload d)) (deserialize (deser (mdf_payload d)) data)"
  using assms
proof (induction ds)
  case (Cons e ds)
  then show ?case by (cases "d = e") (auto simp: image_iff)
qed simp

text \<open>
  With pairwise different ids, a message serialised through the registry as type \<open>t\<close> and
  dispatched by the id in its header reaches the visitor as type \<open>t\<close> with its payload, whatever
  other types are registered.
\<close>

lemma serialize_visit:
  assumes "distinct (message_ids ds)" and "registry_serialize ds t ser msg = Some (data, msg')"
    and "\<And>m. deser t (ser m) = Some m"
  shows "\<exists>m. visit ds deser (wh_msg_type (wm_header msg')) data = Some (t, m) \<and>
    wm_payload m = wm_payload msg \<and> get_message_id ds t = Some (wh_msg_type (wm_header m))"
proof -
  obtain d where d: "find_message_def t ds = Some d"
    using assms(2) by (auto simp: registry_serialize_def get_message_id_def split: option.splits)
  then have m: "d \<in> set (message_defs_tuple ds)" "mdf_payload d = t"
    by (auto simp: find_message_def_def find_Some_iff)
  from assms(2) d have "serialize (Some (full_id d)) ser msg = (data, msg')"
    by (simp add: registry_serialize_def get_message_id_def)
  then have s: "data = ser (msg\<lparr>wm_header := (wm_header msg)\<lparr>wh_msg_type := full_id d\<rparr>\<rparr>)"
    "wh_msg_type (wm_header msg') = full_id d"
    by (auto simp: serialize_def Let_def)
  with visit_impl_hit [OF m(1), of deser data] assms(1,3) m(2) d show ?thesis
    by (simp add: visit_def message_ids_def deserialize_def get_message_id_def)
qed

section \<open>Queries\<close>

lemma filter_tuple_filter: "filter_tuple P ds = filter P ds"
  by (induction ds) (simp_all add: Let_def)

text \<open>A buffer of \<open>max_message_size\<close> bytes holds any registered type.\<close>

lemma foldl_max_ge: "m \<le> foldl max (m::nat) xs" "x \<in> set xs \<Longrightarrow> x \<le> foldl max m xs"
proof (induction xs arbitrary: m)
  case (Cons a xs)
  { case 1 show ?case using Cons.IH(1) [of "max m a"] by simp }
  { case 2 then show ?case using Cons.IH(1) [of "max m a"] Cons.IH(2) [of "max m a"] by auto }
qed simp_all

lemma max_message_size_bound:
  assumes "is_registered ds t" shows "msz t \<le> max_message_size msz ds"
  using assms foldl_max_ge(2) [of "msz t" "map msz (payload_types ds)" 0]
  by (auto simp: is_registered_def max_message_size_def list_ex_iff)

lemma foldl_max_le: "m \<le> N \<Longrightarrow> (\<forall>x \<in> set xs. x \<le> N) \<Longrightarrow> foldl max (m::nat) xs \<le> N"
  by (induction xs arbitrary: m) simp_all

lemma max_size_for_types_bound:
  assumes "max_size_for_types msz ds ts = Some n" shows "n \<le> max_message_size msz ds"
proof -
  from assms have "n = foldl max 0 (map msz ts)" "\<forall>t \<in> set ts. is_registered ds t"
    by (auto simp: max_size_for_types_def list_all_iff split: if_splits)
  then show ?thesis by (auto intro!: foldl_max_le max_message_size_bound)
qed

text \<open>The payload of a request's reply is registered too, under the negated id.\<close>

lemma expand_replies_reply:
  "d \<in> set (expand_replies ds) \<Longrightarrow> reply_def d = Some r \<Longrightarrow> r \<in> set (expand_replies ds)"
  by (induction ds) (auto simp: reply_def_def split: option.splits)

lemma reply_payload_registered:
  assumes "get_reply_payload ds t = Some u" shows "is_registered ds u"
proof -
  from assms obtain d r where d: "find_message_def t ds = Some d" "reply_def d = Some r" "u = mdf_payload r"
    by (auto simp: get_reply_payload_def split: option.splits)
  then have "d \<in> set (message_defs_tuple ds)" by (auto simp: find_message_def_def find_Some_iff)
  with d have "r \<in> set (message_defs_tuple ds)"
    by (auto simp: message_defs_tuple_def intro: expand_replies_reply)
  with d(3) show ?thesis by (auto simp: is_registered_def payload_types_def list_ex_iff)
qed

lemma disjoint_filters_length:
  assumes "\<And>x. \<not> (P x \<and> Q x) \<and> \<not> (P x \<and> R x) \<and> \<not> (Q x \<and> R x)"
  shows "length (filter P xs) + length (filter Q xs) + length (filter R xs) \<le> length xs"
proof (induction xs)
  case (Cons a xs)
  with assms [of a] show ?case by auto
qed simp

text \<open>The \<open>static_assert\<close> of \<open>RegistryStats\<close> never fails.\<close>

lemma registry_stats_bound:
  "rs_data (registry_stats_of ds) + rs_command (registry_stats_of ds) + rs_subscription (registry_stats_of ds)
     \<le> rs_total (registry_stats_of ds)"
  unfolding registry_stats_of_def data_messages_def command_messages_def subscription_messages_def
    filter_by_subprefix_def filter_tuple_filter registry_size_def
  by simp (rule disjoint_filters_length; auto simp: matches_subprefix_def)

section \<open>Searching by index\<close>

text \<open>
  The utilities of \<open>registry_utils.hpp\<close> look a payload type up by recursion over the index of the
  expanded definitions; membership of a tuple is a disjunction over its elements.
\<close>

definition contains_type :: "'p \<Rightarrow> 'p list \<Rightarrow> bool" where
  "contains_type t us \<longleftrightarrow> list_ex (\<lambda>u. t = u) us"

definition extract_payloads :: "'p message_def list \<Rightarrow> 'p list" where
  "extract_payloads ds = map mdf_payload ds"

function find_impl :: "'p \<Rightarrow> 'p message_def list \<Rightarrow> nat \<Rightarrow> 'p message_def option" where
  "find_impl t ds i =
     (if i < length ds then if mdf_payload (ds ! i) = t then Some (ds ! i) else find_impl t ds (Suc i)
      else None)"
  by pat_completeness auto
termination by (relation "measure (\<lambda>(t, ds, i). length ds - i)") auto

declare find_impl.simps [simp del]

definition find_def_for_payload :: "'p \<Rightarrow> 'p message_def list \<Rightarrow> 'p message_def option" where
  "find_def_for_payload t ds = find_impl t (message_defs_tuple ds) 0"

definition has_message_def :: "'p \<Rightarrow> 'p message_def list \<Rightarrow> bool" where
  "has_message_def t ds \<longleftrightarrow> find_def_for_payload t ds \<noteq> None"

lemma find_impl_drop: "find_impl t ds i = List.find (\<lambda>d. mdf_payload d = t) (drop i ds)"
proof (induction t ds i rule: find_impl.induct)
  case (1 t ds i)
  then show ?case
    by (subst find_impl.simps) (auto simp: Cons_nth_drop_Suc [symmetric])
qed

text \<open>
  The recursive search of the utilities and the registry's own search agree, so the two headers
  see the same definition for every payload type, and a type has one exactly when it is
  registered.
\<close>

lemma find_def_for_payload_eq:
  "find_def_for_payload t ds = find_message_def t ds"
  "has_message_def t ds \<longleftrightarrow> contains_type t (extract_payloads (message_defs_tuple ds))"
  "has_message_def t ds \<longleftrightarrow> is_registered ds t"
proof -
  show e: "find_def_for_payload t ds = find_message_def t ds"
    by (simp add: find_def_for_payload_def find_message_def_def find_impl_drop)
  have "has_message_def t ds \<longleftrightarrow> (\<exists>d \<in> set (message_defs_tuple ds). mdf_payload d = t)"
    by (auto simp: has_message_def_def e find_message_def_def find_None_iff not_None_eq [symmetric]
        simp del: not_None_eq)
  then show "has_message_def t ds \<longleftrightarrow> contains_type t (extract_payloads (message_defs_tuple ds))"
    and "has_message_def t ds \<longleftrightarrow> is_registered ds t"
    by (auto simp: contains_type_def extract_payloads_def is_registered_def payload_types_def list_ex_iff)
qed

end
