(* ===== verification/Mailbox.thy ===== *)
theory Mailbox
  imports Tims_Props Evl_Mailbox Message_Registry
begin

text \<open>
  The typed mailbox, \<open>ipc/mailbox.hpp\<close> and \<open>ipc/mailbox_config.hpp\<close>. The class is compiled against
  one back end, \<open>TimsMailbox\<close> or \<open>EvlMailbox\<close>; what it calls of that back end is the record
  \<open>ipc_ops\<close>, of which \<open>tims_ops\<close> and \<open>evl_ops\<close> are the two instances. The first argument of an
  operation holds the kernel's answers to that call. Payload types are values of a type of tags,
  as in the registry.
\<close>

section \<open>Errors and configuration\<close>

datatype mailbox_error = NotInitialized | InvalidMessage | Timeout | QueueFull | QueueEmpty
  | SerializationError | NetworkError | InvalidDestination | AlreadyRunning | NotRunning

fun mailbox_error_string :: "mailbox_error \<Rightarrow> string" where
  "mailbox_error_string NotInitialized = ''Mailbox not initialized''"
| "mailbox_error_string InvalidMessage = ''Invalid message''"
| "mailbox_error_string Timeout = ''Operation timed out''"
| "mailbox_error_string QueueFull = ''Message queue is full''"
| "mailbox_error_string QueueEmpty = ''Message queue is empty''"
| "mailbox_error_string SerializationError = ''Serialization failed''"
| "mailbox_error_string NetworkError = ''Network error''"
| "mailbox_error_string InvalidDestination = ''Invalid destination mailbox''"
| "mailbox_error_string AlreadyRunning = ''Mailbox is already running''"
| "mailbox_error_string NotRunning = ''Mailbox is not running''"

type_synonym 'a mailbox_result = "mailbox_error + 'a"

record mailbox_config =
  mc_mailbox_id :: u32
  mc_message_slots :: nat
  mc_max_message_size :: nat
  mc_send_priority :: u8
  mc_realtime :: bool
  mc_cross_process :: bool
  mc_network :: bool
  mc_local_system_id :: u8
  mc_network_routes :: "net_route list"
  mc_network_route_count :: u8
  mc_max_remote_handles :: u32

definition kMaxNetworkRoutes :: nat where "kMaxNetworkRoutes = 8"

definition empty_net_route :: net_route where
  "empty_net_route = \<lparr>nr_system_id = 0, nr_ip = []\<rparr>"

definition default_mailbox_config :: "u32 \<Rightarrow> mailbox_config" where
  "default_mailbox_config mailbox_id = \<lparr>mc_mailbox_id = mailbox_id, mc_message_slots = 10,
     mc_max_message_size = 4096, mc_send_priority = 10, mc_realtime = False, mc_cross_process = False,
     mc_network = False, mc_local_system_id = 0,
     mc_network_routes = replicate kMaxNetworkRoutes empty_net_route, mc_network_route_count = 0,
     mc_max_remote_handles = 16\<rparr>"

definition mailbox_name :: "u32 \<Rightarrow> string" where
  "mailbox_name mid = ''mailbox_'' @ decimal mid"

definition create_backend_config :: "mailbox_config \<Rightarrow> ipc_config" where
  "create_backend_config config = default_ipc_config\<lparr>cfg_mailbox_id := mc_mailbox_id config,
     cfg_max_msg_size := mc_max_message_size config, cfg_priority := ucast (mc_send_priority config),
     cfg_realtime := mc_realtime config, cfg_max_remote_handles := mc_max_remote_handles config,
     cfg_mailbox_name := mailbox_name (mc_mailbox_id config)\<rparr>"

text \<open>\<open>strncpy\<close> of at most 15 characters, up to the first NUL, into a zeroed array.\<close>

definition copy_ip :: "string \<Rightarrow> string" where
  "copy_ip ip = take 15 (takeWhile (\<lambda>c. c \<noteq> CHR 0x00) ip)"

definition create_network_config :: "mailbox_config \<Rightarrow> net_config" where
  "create_network_config config =
     (let count = min (unat (mc_network_route_count config)) kMaxRoutes
      in \<lparr>nc_local_system_id = mc_local_system_id config,
          nc_routes = map (\<lambda>i. if i < count
            then \<lparr>nr_system_id = nr_system_id (mc_network_routes config ! i),
                  nr_ip = copy_ip (nr_ip (mc_network_routes config ! i))\<rparr>
            else empty_net_route) [0..<kMaxRoutes],
          nc_route_count = count\<rparr>)"

definition backend_mode :: "mailbox_config \<Rightarrow> evl_mode" where
  "backend_mode config = (if mc_network config then Network
     else if mc_cross_process config then Public else Local)"

section \<open>Back ends\<close>

text \<open>
  Source and destination are what the class reads of the metadata; they are \<open>None\<close> where the
  back end leaves the caller's structure alone.
\<close>

record ('k, 's) ipc_ops =
  op_initialize :: "'k \<Rightarrow> 's \<Rightarrow> ipc_result \<times> 's"
  op_shutdown :: "'s \<Rightarrow> 's"
  op_is_initialized :: "'s \<Rightarrow> bool"
  op_send_raw :: "'k \<Rightarrow> 's \<Rightarrow> bytes \<Rightarrow> u32 \<Rightarrow> (ipc_result \<times> 's) outcome"
  op_receive :: "'k \<Rightarrow> 's \<Rightarrow> nat \<Rightarrow> duration \<Rightarrow> (int \<times> bytes \<times> (u32 \<times> u32) option \<times> 's) outcome"

definition tims_receive_bytes :: "(bool \<Rightarrow> bytes \<Rightarrow> bytes) \<Rightarrow> tims_mailbox \<Rightarrow> nat \<Rightarrow> duration
    \<Rightarrow> int \<times> bytes \<times> (u32 \<times> u32) option \<times> tims_mailbox" where
  "tims_receive_bytes swap mb buffer_size timeout =
     (case receive_raw swap mb buffer_size timeout of (n, bs, meta, mb') \<Rightarrow>
        (n, bs, map_option (\<lambda>md. (md_src md, md_dest md)) meta, mb'))"

definition tims_ops :: "(bool \<Rightarrow> bytes \<Rightarrow> bytes) \<Rightarrow> (connect_answer, tims_mailbox) ipc_ops" where
  "tims_ops swap = \<lparr>op_initialize = (\<lambda>ans mb. initialize mb ans), op_shutdown = shutdown,
     op_is_initialized = tm_initialized,
     op_send_raw = (\<lambda>_ mb d dest. Done (send_raw mb (Some d) dest)),
     op_receive = (\<lambda>_ mb n timeout. Done (tims_receive_bytes swap mb n timeout))\<rparr>"

definition evl_receive_bytes :: "receive_env \<Rightarrow> nat \<Rightarrow> world \<Rightarrow> nat \<Rightarrow> duration
    \<Rightarrow> (int \<times> bytes \<times> (u32 \<times> u32) option \<times> world) outcome" where
  "evl_receive_bytes env a w buffer_size timeout =
     (case receive_impl env a buffer_size timeout w of
        Done (n, bs, meta, w') \<Rightarrow> Done (n, bs, map_option (\<lambda>em. (em_src em, em_dest em)) meta, w')
      | Blocked \<Rightarrow> Blocked | Undefined \<Rightarrow> Undefined)"

definition evl_ops :: "nat \<Rightarrow> (init_answer \<times> send_answer \<times> receive_env, world) ipc_ops" where
  "evl_ops a = \<lparr>op_initialize = (\<lambda>(ia, _, _) w. evl_initialize ia a w), op_shutdown = evl_shutdown a,
     op_is_initialized = (\<lambda>w. eb_created (w_box w a)),
     op_send_raw = (\<lambda>(_, sa, _) w d dest. evl_send_raw sa w a (Some d) dest
       (ucast (cfg_priority (eb_config (w_box w a))))),
     op_receive = (\<lambda>(_, _, env) w n timeout. evl_receive_bytes env a w n timeout)\<rparr>"

text \<open>The \<open>send\<close> template, the same in both classes; \<open>WireMessage\<close> has no \<open>message_type\<close> member.\<close>

definition ipc_send :: "('k, 's) ipc_ops \<Rightarrow> 'k \<Rightarrow> ('v wire_message \<Rightarrow> bytes) \<Rightarrow> 's \<Rightarrow> 'v wire_message \<Rightarrow> u32
    \<Rightarrow> (ipc_result \<times> 'v wire_message \<times> 's) outcome" where
  "ipc_send ops k ser s message dest =
     (if \<not> op_is_initialized ops s then Done (ERROR_NOT_INIT, message, s)
      else case serialize None ser message of (view, message') \<Rightarrow>
        case op_send_raw ops k s view dest of Done (res, s') \<Rightarrow> Done (res, message', s')
        | Blocked \<Rightarrow> Blocked | Undefined \<Rightarrow> Undefined)"

section \<open>Life cycle\<close>

record 's mailbox =
  mx_config :: mailbox_config
  mx_tims :: 's
  mx_running :: bool

definition new_mailbox :: "mailbox_config \<Rightarrow> tims_mailbox mailbox" where
  "new_mailbox config = \<lparr>mx_config = config, mx_tims = new_tims_mailbox (create_backend_config config),
     mx_running = False\<rparr>"

text \<open>For EVL: the mailbox object at address \<open>a\<close> of process \<open>p\<close> on the host.\<close>

definition new_evl :: "nat \<Rightarrow> nat \<Rightarrow> mailbox_config \<Rightarrow> world \<Rightarrow> world mailbox" where
  "new_evl a p config w = \<lparr>mx_config = config, mx_tims = upd_box a (\<lambda>_. new_evl_mailbox
     (create_backend_config config) (backend_mode config) (create_network_config config) p) w, mx_running = False\<rparr>"

definition mailbox_start :: "('k, 's) ipc_ops \<Rightarrow> 'k \<Rightarrow> 's mailbox \<Rightarrow> unit mailbox_result \<times> 's mailbox" where
  "mailbox_start ops k mx =
     (if mx_running mx then (Inl AlreadyRunning, mx)
      else case op_initialize ops k (mx_tims mx) of (res, s) \<Rightarrow>
        if res \<noteq> SUCCESS then (Inl NotInitialized, mx\<lparr>mx_tims := s\<rparr>)
        else (Inr (), mx\<lparr>mx_tims := s, mx_running := True\<rparr>))"

definition mailbox_stop :: "('k, 's) ipc_ops \<Rightarrow> 's mailbox \<Rightarrow> 's mailbox" where
  "mailbox_stop ops mx =
     (if mx_running mx then mx\<lparr>mx_running := False, mx_tims := op_shutdown ops (mx_tims mx)\<rparr> else mx)"

text \<open>The destructor stops the mailbox.\<close>

definition mailbox_destroy :: "('k, 's) ipc_ops \<Rightarrow> 's mailbox \<Rightarrow> 's mailbox" where
  "mailbox_destroy ops mx = mailbox_stop ops mx"

definition mailbox_is_running :: "'s mailbox \<Rightarrow> bool" where
  "mailbox_is_running mx = mx_running mx"

lemma mailbox_destroy_idle: "\<not> mailbox_is_running (mailbox_destroy ops mx) \<and> mailbox_destroy ops (mailbox_stop ops mx) = mailbox_stop ops mx"
  by (simp add: mailbox_is_running_def mailbox_destroy_def mailbox_stop_def)

text \<open>A type one can ask about: a payload, or a message type that names its payload.\<close>

datatype 'p queried = Payload_type 'p | Message_type 'p

fun mailbox_is_registered :: "'p message_def list \<Rightarrow> 'p queried \<Rightarrow> bool" where
  "mailbox_is_registered ds (Message_type p) = is_registered ds p"
| "mailbox_is_registered ds (Payload_type p) = is_registered ds p"

definition num_message_types :: "'p message_def list \<Rightarrow> nat" where
  "num_message_types ds = length ds"

text \<open>Move construction on TiMS: the new object and what is left of the old one.\<close>

definition mailbox_move :: "tims_mailbox mailbox \<Rightarrow> tims_mailbox mailbox \<times> tims_mailbox mailbox" where
  "mailbox_move other =
     (case tims_move (mx_tims other) of (t, t') \<Rightarrow>
        (other\<lparr>mx_tims := t\<rparr>, other\<lparr>mx_tims := t', mx_running := False\<rparr>))"

definition mailbox_move_assign :: "(connect_answer, tims_mailbox) ipc_ops \<Rightarrow> tims_mailbox mailbox \<Rightarrow> tims_mailbox mailbox
    \<Rightarrow> tims_mailbox mailbox \<times> tims_mailbox mailbox \<times> tcp_socket" where
  "mailbox_move_assign ops this other =
     (case tims_move_assign (mx_tims (mailbox_stop ops this)) (mx_tims other) of (t, t', closed) \<Rightarrow>
        (other\<lparr>mx_tims := t\<rparr>, other\<lparr>mx_tims := t', mx_running := False\<rparr>, closed))"

section \<open>Sending\<close>

text \<open>A type that is not registered is a compile-time error, \<open>Undefined\<close> here.\<close>

definition mailbox_send :: "('k, 's) ipc_ops \<Rightarrow> 'k \<Rightarrow> 'p message_def list \<Rightarrow> 'p \<Rightarrow> ('v wire_message \<Rightarrow> bytes)
    \<Rightarrow> 's mailbox \<Rightarrow> 'v wire_message \<Rightarrow> u32 \<Rightarrow> (unit mailbox_result \<times> 'v wire_message \<times> 's mailbox) outcome" where
  "mailbox_send ops k ds t ser mx message dest =
     (if \<not> mx_running mx then Done (Inl NotRunning, message, mx)
      else if dest = 0 then Done (Inl InvalidDestination, message, mx)
      else case registry_serialize ds t ser message of None \<Rightarrow> Undefined
        | Some (_, message1) \<Rightarrow>
            case ipc_send ops k ser (mx_tims mx) message1 dest of
              Done (res, message2, s) \<Rightarrow>
                Done (if res \<noteq> SUCCESS then Inl NetworkError else Inr (), message2, mx\<lparr>mx_tims := s\<rparr>)
            | Blocked \<Rightarrow> Blocked | Undefined \<Rightarrow> Undefined)"

text \<open>
  \<open>send_reply\<close>: the reply's header is not initialised, \<open>stack\<close> is what its storage held; \<open>now\<close> is
  the clock. A payload that is not a request, or a reply of another type, does not compile.
\<close>

definition reply_message :: "'s mailbox \<Rightarrow> wire_header \<Rightarrow> u64 \<Rightarrow> wire_header \<Rightarrow> 'v \<Rightarrow> 'v wire_message" where
  "reply_message mx stack now request reply = \<lparr>wm_header = stack\<lparr>wh_timestamp := now,
     wh_src := mc_mailbox_id (mx_config mx), wh_dest := wh_src request\<rparr>, wm_payload = reply\<rparr>"

definition mailbox_send_reply :: "('k, 's) ipc_ops \<Rightarrow> 'k \<Rightarrow> 'p message_def list \<Rightarrow> 'p \<Rightarrow> 'p \<Rightarrow> ('v wire_message \<Rightarrow> bytes)
    \<Rightarrow> wire_header \<Rightarrow> u64 \<Rightarrow> 's mailbox \<Rightarrow> wire_header \<Rightarrow> 'v
    \<Rightarrow> (unit mailbox_result \<times> 'v wire_message \<times> 's mailbox) outcome" where
  "mailbox_send_reply ops k ds t u ser stack now mx request reply =
     (if is_request_payload ds t \<and> is_registered ds u \<and> get_reply_payload ds t = Some u
      then mailbox_send ops k ds u ser mx (reply_message mx stack now request reply) (wh_src request)
      else Undefined)"

section \<open>Receiving\<close>

definition set_route :: "(u32 \<times> u32) option \<Rightarrow> 'v wire_message \<Rightarrow> 'v wire_message" where
  "set_route meta m = (case (case meta of None \<Rightarrow> (0, 0) | Some r \<Rightarrow> r) of (src, dest) \<Rightarrow>
     m\<lparr>wm_header := (wm_header m)\<lparr>wh_src := src, wh_dest := dest\<rparr>\<rparr>)"

text \<open>\<open>bufsize\<close> is the size of the library's buffer for the type; the result is the message, if any.\<close>

definition mailbox_receive :: "('k, 's) ipc_ops \<Rightarrow> 'k \<Rightarrow> (bytes \<Rightarrow> 'v wire_message option) \<Rightarrow> nat \<Rightarrow> 's mailbox
    \<Rightarrow> duration \<Rightarrow> ('v wire_message option \<times> 's mailbox) outcome" where
  "mailbox_receive ops k deser bufsize mx timeout =
     (if \<not> mx_running mx then Done (None, mx)
      else case op_receive ops k (mx_tims mx) bufsize timeout of
        Done (n, buffer, meta, s) \<Rightarrow>
          if n \<le> 0 then Done (None, mx\<lparr>mx_tims := s\<rparr>)
          else (case deserialize deser (take (nat n) buffer) of
                  None \<Rightarrow> Done (None, mx\<lparr>mx_tims := s\<rparr>)
                | Some m \<Rightarrow> Done (Some (set_route meta m), mx\<lparr>mx_tims := s\<rparr>))
      | Blocked \<Rightarrow> Blocked | Undefined \<Rightarrow> Undefined)"

definition mailbox_try_receive :: "('k, 's) ipc_ops \<Rightarrow> 'k \<Rightarrow> (bytes \<Rightarrow> 'v wire_message option) \<Rightarrow> nat \<Rightarrow> 's mailbox
    \<Rightarrow> ('v wire_message option \<times> 's mailbox) outcome" where
  "mailbox_try_receive ops k deser bufsize mx = mailbox_receive ops k deser bufsize mx (milliseconds 0)"

text \<open>
  \<open>receive_any_for\<close> with the buffer of \<open>bufsize\<close> bytes; next to the result stands what the visitor
  was called with.
\<close>

definition mailbox_receive_any_for :: "('k, 's) ipc_ops \<Rightarrow> 'k \<Rightarrow> 'p message_def list
    \<Rightarrow> ('p \<Rightarrow> bytes \<Rightarrow> 'v wire_message option) \<Rightarrow> nat \<Rightarrow> 's mailbox \<Rightarrow> duration
    \<Rightarrow> (unit mailbox_result \<times> ('p \<times> 'v wire_message) option \<times> 's mailbox) outcome" where
  "mailbox_receive_any_for ops k ds deser bufsize mx timeout =
     (if \<not> mx_running mx then Done (Inl NotRunning, None, mx)
      else case op_receive ops k (mx_tims mx) bufsize timeout of
        Done (n, buffer, meta, s) \<Rightarrow>
          let mx' = mx\<lparr>mx_tims := s\<rparr>
          in if n \<le> 0
             then Done (Inl (if \<not> is_positive timeout \<or> n = -1 then Timeout else NetworkError), None, mx')
             else if nat n < sizeof_wire_header then Done (Inl InvalidMessage, None, mx')
             else (case visit ds deser (wh_msg_type (read_wire_header buffer)) (take (nat n) buffer) of
                 None \<Rightarrow> Done (Inl InvalidMessage, None, mx')
               | Some (t, m) \<Rightarrow> Done (Inr (), Some (t, set_route meta m), mx'))
      | Blocked \<Rightarrow> Blocked | Undefined \<Rightarrow> Undefined)"

definition mailbox_receive_any :: "('k, 's) ipc_ops \<Rightarrow> 'k \<Rightarrow> 'p message_def list
    \<Rightarrow> ('p \<Rightarrow> bytes \<Rightarrow> 'v wire_message option) \<Rightarrow> nat \<Rightarrow> 's mailbox
    \<Rightarrow> (unit mailbox_result \<times> ('p \<times> 'v wire_message) option \<times> 's mailbox) outcome" where
  "mailbox_receive_any ops k ds deser bufsize mx = mailbox_receive_any_for ops k ds deser bufsize mx (seconds 1)"

text \<open>
  \<open>clean\<close>: a loop that ends only when a receive brings nothing; one element of the list per round,
  \<open>Blocked\<close> when the list ends before the loop does.
\<close>

fun clean_loop :: "('k, 's) ipc_ops \<Rightarrow> 'k list \<Rightarrow> nat \<Rightarrow> 's \<Rightarrow> 's outcome" where
  "clean_loop ops [] bufsize s = Blocked"
| "clean_loop ops (k # ks) bufsize s =
     (case op_receive ops k s bufsize (milliseconds 10) of
        Done (n, _, _, s') \<Rightarrow> if n > 0 then clean_loop ops ks bufsize s' else Done s'
      | Blocked \<Rightarrow> Blocked | Undefined \<Rightarrow> Undefined)"

definition mailbox_clean :: "('k, 's) ipc_ops \<Rightarrow> 'k list \<Rightarrow> nat \<Rightarrow> 's mailbox \<Rightarrow> (unit mailbox_result \<times> 's mailbox) outcome" where
  "mailbox_clean ops ks bufsize mx =
     (if \<not> mx_running mx then Done (Inl NotRunning, mx)
      else case clean_loop ops ks bufsize (mx_tims mx) of Done s \<Rightarrow> Done (Inr (), mx\<lparr>mx_tims := s\<rparr>)
        | Blocked \<Rightarrow> Blocked | Undefined \<Rightarrow> Undefined)"

text \<open>The two instances of \<open>ipc_send\<close> are the back ends' own \<open>send\<close> functions.\<close>

lemma ipc_send_tims: "ipc_send (tims_ops swap) k ser mb m dest = Done (tims_send None ser mb m dest)"
  by (simp add: ipc_send_def tims_ops_def tims_send_def split: prod.splits)

lemma ipc_send_evl:
  "(case ipc_send (evl_ops a) (ia, sa, env) ser w m dest of Done (res, _, w') \<Rightarrow> Done (res, w')
      | Blocked \<Rightarrow> Blocked | Undefined \<Rightarrow> Undefined) = evl_send None ser sa w a m dest"
  by (simp add: ipc_send_def evl_ops_def evl_send_def split: prod.splits outcome.splits)

end
