(* ===== verification/Mailbox_Props.thy ===== *)
theory Mailbox_Props
  imports Mailbox
begin

text \<open>
  Properties of the typed mailbox. What the class relies on of its back end is the locale
  \<open>ipc_backend\<close>, interpreted for the TiMS and the EVL back end; what is proved in it holds for the
  class on either. The later sections follow typed messages over the TiMS router and look at
  what the receive functions report.
\<close>

section \<open>The contract between mailbox and back end\<close>

locale ipc_backend =
  fixes ops :: "('k, 's) ipc_ops"
  assumes init_ok: "op_initialize ops k s = (SUCCESS, s') \<Longrightarrow> op_is_initialized ops s'"
    and init_fail: "op_initialize ops k s = (res, s') \<Longrightarrow> res \<noteq> SUCCESS \<Longrightarrow> \<not> op_is_initialized ops s'"
    and shutdown_off: "\<not> op_is_initialized ops (op_shutdown ops s)"
    and send_keeps: "op_send_raw ops k s d dest = Done (res, s') \<Longrightarrow> op_is_initialized ops s' = op_is_initialized ops s"
    and receive_keeps: "op_receive ops k s n t = Done (ret, bs, meta, s') \<Longrightarrow>
      op_is_initialized ops s' = op_is_initialized ops s"
begin

definition consistent :: "'s mailbox \<Rightarrow> bool" where
  "consistent mx \<longleftrightarrow> (mx_running mx \<longleftrightarrow> op_is_initialized ops (mx_tims mx))"

lemma start_consistent:
  assumes "mailbox_start ops k mx = (res, mx')" and "consistent mx"
  shows "consistent mx' \<and> (res = Inr () \<longleftrightarrow> \<not> mx_running mx \<and> mx_running mx')"
proof (cases "mx_running mx")
  case False
  obtain r s where "op_initialize ops k (mx_tims mx) = (r, s)" by fastforce
  with False assms init_ok init_fail show ?thesis
    by (cases "r = SUCCESS") (fastforce simp: mailbox_start_def consistent_def)+
qed (use assms in \<open>auto simp: mailbox_start_def\<close>)

lemma stop_consistent: "consistent mx \<Longrightarrow> consistent (mailbox_stop ops mx) \<and> \<not> mx_running (mailbox_stop ops mx)"
  using shutdown_off by (auto simp: mailbox_stop_def consistent_def)

lemma send_consistent:
  "mailbox_send ops k ds t ser mx m dest = Done (res, m', mx') \<Longrightarrow> consistent mx \<Longrightarrow> consistent mx'"
  by (auto simp: mailbox_send_def ipc_send_def consistent_def dest: send_keeps
      split: if_splits option.splits outcome.splits prod.splits)

lemma receive_consistent:
  "mailbox_receive ops k deser n mx timeout = Done (m, mx') \<Longrightarrow> consistent mx \<Longrightarrow> consistent mx'"
  by (auto simp: mailbox_receive_def consistent_def dest: receive_keeps
      split: if_splits option.splits outcome.splits prod.splits)

lemma receive_any_consistent:
  "mailbox_receive_any_for ops k ds deser n mx timeout = Done (res, v, mx') \<Longrightarrow> consistent mx \<Longrightarrow> consistent mx'"
  by (auto simp: mailbox_receive_any_for_def consistent_def Let_def dest: receive_keeps
      split: if_splits option.splits outcome.splits prod.splits)

lemma clean_loop_keeps:
  "clean_loop ops ks n s = Done s' \<Longrightarrow> op_is_initialized ops s' = op_is_initialized ops s"
proof (induction ks arbitrary: s)
  case (Cons k ks)
  then obtain r bs meta s1 where r: "op_receive ops k s n (milliseconds 10) = Done (r, bs, meta, s1)"
    by (cases "op_receive ops k s n (milliseconds 10)") auto
  with Cons receive_keeps [OF r] show ?case by (auto split: if_splits)
qed simp

lemma clean_consistent:
  "mailbox_clean ops ks n mx = Done (res, mx') \<Longrightarrow> consistent mx \<Longrightarrow> consistent mx'"
  by (auto simp: mailbox_clean_def consistent_def dest: clean_loop_keeps
      split: if_splits outcome.splits)

end

text \<open>One call of a mailbox operation by its owner, with any kernel answers, types and codecs.\<close>

inductive mailbox_step :: "('k, 's) ipc_ops \<Rightarrow> 's mailbox \<Rightarrow> 's mailbox \<Rightarrow> bool" for ops where
  step_start: "mailbox_start ops k mx = (res, mx') \<Longrightarrow> mailbox_step ops mx mx'"
| step_stop: "mailbox_step ops mx (mailbox_stop ops mx)"
| step_send: "mailbox_send ops k (ds :: nat message_def list) t ser mx (m :: bytes wire_message) dest
    = Done (res, m', mx') \<Longrightarrow> mailbox_step ops mx mx'"
| step_receive: "mailbox_receive ops k (deser :: bytes \<Rightarrow> bytes wire_message option) n mx timeout = Done (m, mx')
    \<Longrightarrow> mailbox_step ops mx mx'"
| step_receive_any: "mailbox_receive_any_for ops k (ds :: nat message_def list)
    (deser' :: nat \<Rightarrow> bytes \<Rightarrow> bytes wire_message option) n mx timeout = Done (res, v, mx')
    \<Longrightarrow> mailbox_step ops mx mx'"
| step_clean: "mailbox_clean ops ks n mx = Done (res, mx') \<Longrightarrow> mailbox_step ops mx mx'"

context ipc_backend
begin

lemma step_consistent: "mailbox_step ops mx mx' \<Longrightarrow> consistent mx \<Longrightarrow> consistent mx'"
proof (induction rule: mailbox_step.induct)
  case (step_start k mx res mx')
  then show ?case using start_consistent by blast
next
  case (step_stop mx)
  then show ?case using stop_consistent by blast
qed (blast intro: send_consistent receive_consistent receive_any_consistent clean_consistent)+

lemma run_consistent:
  "(mailbox_step ops)\<^sup>*\<^sup>* mx mx' \<Longrightarrow> consistent mx \<Longrightarrow> consistent mx'"
  by (induction rule: rtranclp_induct) (blast intro: step_consistent)+

lemma run_running_iff:
  assumes "(mailbox_step ops)\<^sup>*\<^sup>* mx mx'" and "\<not> mx_running mx" and "\<not> op_is_initialized ops (mx_tims mx)"
  shows "mx_running mx' = op_is_initialized ops (mx_tims mx')"
  using run_consistent [OF assms(1)] assms(2,3) by (simp add: consistent_def)

end

section \<open>TiMS keeps the contract\<close>

lemma receive_loop_keeps:
  "receive_loop swap mb n ms = (ret, bs, meta, mb') \<Longrightarrow> tm_initialized mb' = tm_initialized mb"
proof (induction swap mb n ms arbitrary: ret bs meta mb' rule: receive_loop.induct)
  case (1 swap mb n ms)
  show ?case
    using "1.prems" "1.IH"
    by (subst (asm) receive_loop.simps) (auto simp: Let_def split: prod.splits if_splits)
qed

lemma send_raw_keeps: "send_raw mb d dest = (res, mb') \<Longrightarrow> tm_initialized mb' = tm_initialized mb"
  by (auto simp: send_raw_def Let_def split: option.splits prod.splits if_splits)

interpretation tims: ipc_backend "tims_ops swap" for swap
proof
  fix k s s' res d dest n t ret bs meta
  show "op_initialize (tims_ops swap) k s = (SUCCESS, s') \<Longrightarrow> op_is_initialized (tims_ops swap) s'"
    by (auto simp: tims_ops_def initialize_def split: prod.splits if_splits)
  show "op_initialize (tims_ops swap) k s = (res, s') \<Longrightarrow> res \<noteq> SUCCESS \<Longrightarrow> \<not> op_is_initialized (tims_ops swap) s'"
    by (auto simp: tims_ops_def initialize_def split: prod.splits if_splits)
  show "\<not> op_is_initialized (tims_ops swap) (op_shutdown (tims_ops swap) s)"
    by (simp add: tims_ops_def shutdown_def)
  show "op_send_raw (tims_ops swap) k s d dest = Done (res, s') \<Longrightarrow>
      op_is_initialized (tims_ops swap) s' = op_is_initialized (tims_ops swap) s"
    by (simp add: tims_ops_def send_raw_keeps)
  show "op_receive (tims_ops swap) k s n t = Done (ret, bs, meta, s') \<Longrightarrow>
      op_is_initialized (tims_ops swap) s' = op_is_initialized (tims_ops swap) s"
    by (auto simp: tims_ops_def tims_receive_bytes_def receive_raw_def
        dest: receive_loop_keeps split: prod.splits if_splits)
qed

section \<open>EVL keeps the contract\<close>

abbreviation is_created :: "world \<Rightarrow> nat \<Rightarrow> bool" where
  "is_created w a \<equiv> eb_created (w_box w a)"

lemma set_ring_created [simp]: "is_created (set_ring t r w) a = is_created w a"
  by (simp add: set_ring_def split: evl_mode.splits option.splits)

lemma count_created [simp]: "is_created (count_sent b w) a = is_created w a"
  "is_created (count_received b w) a = is_created w a"
  by (simp_all add: count_sent_def count_received_def)

lemma post_local_created: "post_local w b t d p = Some (ok, w') \<Longrightarrow> is_created w' a = is_created w a"
  by (auto simp: post_local_def split: option.splits)

lemma send_public_created: "send_public ans w b d dest p = Some (ok, w') \<Longrightarrow> is_created w' a = is_created w a"
  by (auto simp: send_public_def Let_def dest: post_local_created split: option.splits prod.splits if_splits)

lemma send_local_created: "send_local w b d dest p = Some (ok, w') \<Longrightarrow> is_created w' a = is_created w a"
  by (auto simp: send_local_def dest: post_local_created split: option.splits)

lemma evl_send_created: "evl_send_raw ans w b d dest p = Done (res, w') \<Longrightarrow> is_created w' a = is_created w a"
proof (cases d)
  case (Some bs)
  let ?sent = "if eb_mode (w_box w b) = Public then send_public ans w b bs dest p else send_local w b bs dest p"
  have k: "?sent = Some (ok, v) \<Longrightarrow> is_created v a = is_created w a" for ok v
    by (auto dest: send_public_created send_local_created split: if_splits)
  obtain r dg where u: "send_oob_udp (eb_routes (w_box w b)) bs dest (sa_sendmsg ans) = (r, dg)" by fastforce
  assume sent: "evl_send_raw ans w b d dest p = Done (res, w')"
  show ?thesis
  proof (cases "eb_mode (w_box w b) = Network")
    case True
    with sent Some u show ?thesis by (auto simp: evl_send_raw_def split: option.splits if_splits)
  next
    case False
    with sent Some k show ?thesis by (cases ?sent) (auto simp: evl_send_raw_def split: if_splits)
  qed
qed (simp add: evl_send_raw_def)

lemma receive_ring_created: "receive_ring env b n t w = Done (ret, bs, meta, w') \<Longrightarrow> is_created w' a = is_created w a"
  by (auto simp: receive_ring_def split: option.splits prod.splits if_splits sum.splits)

lemma receive_impl_created: "receive_impl env b n t w = Done (ret, bs, meta, w') \<Longrightarrow> is_created w' a = is_created w a"
proof -
  assume r: "receive_impl env b n t w = Done (ret, bs, meta, w')"
  obtain m events where p: "rv_poll env (receive_deadline (rv_now env) t) = (m, events)" by fastforce
  obtain u us um where o: "receive_oob_udp n t (rv_recvmsg env) = (u, us, um)" by (rule prod_cases3)
  have k: "receive_ring env b n t v = Done (ret, bs, meta, w') \<Longrightarrow> is_created w' a = is_created v a" for v
    by (rule receive_ring_created)
  define w1 where "w1 = (if eb_mode (w_box w b) = Public \<and> eb_xbuf_fd (w_box w b) \<ge> 0
    then upd_box b (\<lambda>b. b\<lparr>eb_poll_setup_done := True\<rparr>) w else w)"
  have w1: "is_created w1 a = is_created w a" by (simp add: w1_def)
  show ?thesis
  proof (cases "is_created w b \<and> eb_mode (w_box w b) \<noteq> Network")
    case True
    with r p k [of w1] w1 show ?thesis
      unfolding receive_impl_def Let_def w1_def [symmetric]
      by (cases "poll_events events n") (auto split: if_splits)
  next
    case False
    with r o show ?thesis by (auto simp: receive_impl_def split: if_splits)
  qed
qed

lemma allocate_ring_created: "allocate_ring ans b w = (ok, w') \<Longrightarrow> is_created w' a = is_created w a"
  by (auto simp: allocate_ring_def Let_def open_name_def split: option.splits if_splits)

lemma create_xbuf_created: "create_xbuf ans b w = (ok, w') \<Longrightarrow> is_created w' a = is_created w a"
  by (auto simp: create_xbuf_def split: if_splits)

lemma evl_initialize_created:
  "evl_initialize ans a w = (res, w') \<Longrightarrow> is_created w' a \<longleftrightarrow> res = SUCCESS"
  by (auto simp: evl_initialize_def dest!: allocate_ring_created [where a = a] create_xbuf_created [where a = a]
      split: option.splits prod.splits if_splits)

interpretation evl: ipc_backend "evl_ops a" for a
proof
  fix k :: "init_answer \<times> send_answer \<times> receive_env" and s s' :: world and res d dest n t ret bs meta
  obtain ia sa env where k: "k = (ia, sa, env)" by (cases k)
  show "op_initialize (evl_ops a) k s = (SUCCESS, s') \<Longrightarrow> op_is_initialized (evl_ops a) s'"
    by (auto simp: k evl_ops_def dest: evl_initialize_created)
  show "op_initialize (evl_ops a) k s = (res, s') \<Longrightarrow> res \<noteq> SUCCESS \<Longrightarrow> \<not> op_is_initialized (evl_ops a) s'"
    by (auto simp: k evl_ops_def dest: evl_initialize_created)
  show "\<not> op_is_initialized (evl_ops a) (op_shutdown (evl_ops a) s)"
    by (simp add: evl_ops_def evl_shutdown_def Let_def)
  show "op_send_raw (evl_ops a) k s d dest = Done (res, s') \<Longrightarrow>
      op_is_initialized (evl_ops a) s' = op_is_initialized (evl_ops a) s"
    by (auto simp: k evl_ops_def dest: evl_send_created)
  show "op_receive (evl_ops a) k s n t = Done (ret, bs, meta, s') \<Longrightarrow>
      op_is_initialized (evl_ops a) s' = op_is_initialized (evl_ops a) s"
    by (auto simp: k evl_ops_def evl_receive_bytes_def dest: receive_impl_created split: outcome.splits prod.splits)
qed


definition ex_mailbox :: "tims_mailbox mailbox" where
  "ex_mailbox = new_mailbox (default_mailbox_config 0x0303)"


section \<open>Names and replies\<close>

text \<open>
  Two mailboxes have the same back-end name only if they have the same id, and the name
  never exceeds 18 characters, so it fits the 32-character field without truncation.
\<close>

lemma mailbox_name_unique:
  "(mailbox_name a = mailbox_name b \<longleftrightarrow> a = b) \<and> length (mailbox_name a) \<le> 18"
  using decimal_length [of a] by (simp add: mailbox_name_def)

lemma find_unique:
  "distinct (map f xs) \<Longrightarrow> x \<in> set xs \<Longrightarrow> List.find (\<lambda>y. f y = f x) xs = Some x"
proof (induction xs)
  case (Cons a xs)
  then show ?case by (cases "x = a") (auto simp: image_iff)
qed simp

lemma mailbox_send_header:
  assumes "mailbox_send ops k ds t ser mx m dest = Done (Inr (), m', mx')"
  shows "mx_running mx" "dest \<noteq> 0" "wm_payload m' = wm_payload m"
    "get_message_id ds t = Some (wh_msg_type (wm_header m'))"
    "wh_src (wm_header m') = wh_src (wm_header m)" "wh_dest (wm_header m') = wh_dest (wm_header m)"
  using assms by (auto simp: mailbox_send_def ipc_send_def registry_serialize_def serialize_def Let_def
      split: if_splits option.splits outcome.splits prod.splits)

text \<open>
  A reply that \<open>send_reply\<close> reports as sent is addressed to the sender of the request, names
  this mailbox as its source, carries the reply's payload, and has the request's message id with
  the number negated, provided no payload type is registered twice.
\<close>

lemma reply_addresses_requester:
  assumes "distinct (payload_types ds)" and "find_message_def t ds = Some d"
    and "mailbox_send_reply ops k ds t u ser stack now mx request reply = Done (Inr (), m', mx')"
  shows "wh_msg_type (wm_header m') = make_message_id (prefix_byte (mdf_prefix d)) (mdf_subprefix d) (- mdf_local_id d) \<and>
    wh_dest (wm_header m') = wh_src request \<and> wh_src request \<noteq> 0 \<and>
    wh_src (wm_header m') = mc_mailbox_id (mx_config mx) \<and> wm_payload m' = reply"
proof -
  from assms(3) have u: "get_reply_payload ds t = Some u"
    and s: "mailbox_send ops k ds u ser mx (reply_message mx stack now request reply) (wh_src request)
      = Done (Inr (), m', mx')"
    by (auto simp: mailbox_send_reply_def split: if_splits)
  from u assms(2) obtain r where r: "reply_def d = Some r" "mdf_payload r = u"
    by (auto simp: get_reply_payload_def)
  have "d \<in> set (message_defs_tuple ds)" using assms(2) by (auto simp: find_message_def_def find_Some_iff)
  with r(1) have "r \<in> set (message_defs_tuple ds)"
    by (auto simp: message_defs_tuple_def intro: expand_replies_reply)
  with find_unique [of mdf_payload "message_defs_tuple ds" r] assms(1) r(2)
  have "find_message_def u ds = Some r" by (simp add: find_message_def_def payload_types_def)
  moreover have "full_id r = make_message_id (prefix_byte (mdf_prefix d)) (mdf_subprefix d) (- mdf_local_id d)"
    using r(1) by (auto simp: reply_def_def full_id_def)
  ultimately show ?thesis
    using mailbox_send_header [OF s] by (auto simp: get_message_id_def reply_message_def)
qed

definition ex_running :: "tims_mailbox mailbox" where
  "ex_running = \<lparr>mx_config = default_mailbox_config 0x0202, mx_tims = ex_tims, mx_running = True\<rparr>"

section \<open>Typed messages through the router\<close>

lemma mailbox_send_tims:
  assumes "mailbox_send (tims_ops swap) k ds t ser mx msg dest = Done (Inr (), msg', mx')"
  obtains m1 where "send_raw (mx_tims mx) (Some (ser m1)) dest = (SUCCESS, mx_tims mx')"
    and "wm_payload m1 = wm_payload msg" and "get_message_id ds t = Some (wh_msg_type (wm_header m1))"
proof -
  from assms have "mx_running mx" "dest \<noteq> 0"
    by (auto simp: mailbox_send_def split: if_splits)
  with assms obtain d m1 where m1: "registry_serialize ds t ser msg = Some (d, m1)"
    "tims_send None ser (mx_tims mx) m1 dest = (SUCCESS, msg', mx_tims mx')"
    by (auto simp: mailbox_send_def ipc_send_tims split: option.splits prod.splits if_splits)
  from m1(2) have "send_raw (mx_tims mx) (Some (ser m1)) dest = (SUCCESS, mx_tims mx')"
    by (auto simp: tims_send_def serialize_def Let_def split: if_splits prod.splits)
  moreover from m1(1) have "wm_payload m1 = wm_payload msg" "get_message_id ds t = Some (wh_msg_type (wm_header m1))"
    by (auto simp: registry_serialize_def serialize_def Let_def split: option.splits)
  ultimately show thesis by (rule that)
qed

text \<open>What the visitor gets for a received buffer that holds a message of type \<open>t\<close>.\<close>

lemma visit_serialized:
  assumes "distinct (message_ids ds)" and "get_message_id ds t = Some (wh_msg_type (wm_header m))"
    and "deser t (ser m) = Some m"
  shows "visit ds deser (wh_msg_type (wm_header m)) (ser m) = Some (t, m)"
proof -
  obtain d where d: "find_message_def t ds = Some d" "full_id d = wh_msg_type (wm_header m)"
    using assms(2) by (auto simp: get_message_id_def)
  then have "d \<in> set (message_defs_tuple ds)" "mdf_payload d = t"
    by (auto simp: find_message_def_def find_Some_iff)
  with visit_impl_hit [of d "message_defs_tuple ds" deser "ser m"] assms(1,3) d(2) show ?thesis
    by (simp add: visit_def message_ids_def deserialize_def)
qed

lemma read_header_prefix:
  assumes "take 32 bs = wire_header_bytes h" shows "read_wire_header bs = h" "32 \<le> length bs"
proof -
  have "bs = wire_header_bytes h @ drop 32 bs" using assms append_take_drop_id [of 32 bs] by simp
  then show "read_wire_header bs = h" using wire_header_layout.dec_prefix [of h "drop 32 bs"] by simp
  have "length (take 32 bs) = 32" by (simp add: assms)
  then show "32 \<le> length bs" by simp
qed

text \<open>
  C5. End to end with types: a message of a registered type that mailbox \<open>a\<close> sends successfully
  to a mailbox the router has for client \<open>b\<close> is put on \<open>b\<close>'s connection byte for byte, and
  \<open>b\<close>'s \<open>receive_any_for\<close> calls the visitor with that same type and payload, with \<open>a\<close>'s
  mailbox id as source and the address used as destination. It rests on what the serialisation
  library promises, that a message read back is the message written and that the header comes
  first as it lies in memory, and on ids that do not collide.
\<close>

theorem typed_end_to_end:
  assumes "mailbox_send (tims_ops swap) k ds t ser a msg dest = Done (Inr (), msg', a')"
    and "sk_tx (tm_socket (mx_tims a')) = sk_tx (tm_socket (mx_tims a)) @ w" and "length w < 2 ^ 32"
    and "distinct (message_ids ds)" and "\<And>m. deser t (ser m) = Some m"
    and "\<And>m. take 32 (ser m) = wire_header_bytes (wm_header m)"
    and "live (socket_of r c)" and "c < length (rt_connections r)" and "sk_rx (socket_of r c) = w"
    and "length w \<le> 16 + rt_max_msg_size r"
    and "Tcp_Router.registry_find (rt_registry r) dest = Some e" and "e < length (rt_connections r)"
    and "live (socket_of r e)"
    and "mx_running b" and "tm_initialized (mx_tims b)" and "live (tm_socket (mx_tims b))"
    and "sk_rx (tm_socket (mx_tims b)) = w" and "length w \<le> 16 + bufsize" and "\<And>bs. swap True bs = bs"
  shows "tx (connection_iter r c) e = tx r e @ w \<and>
    (\<exists>m b'. mailbox_receive_any_for (tims_ops swap) k' ds deser bufsize b timeout = Done (Inr (), Some (t, m), b') \<and>
      wm_payload m = wm_payload msg \<and> get_message_id ds t = Some (wh_msg_type (wm_header m)) \<and>
      wh_src (wm_header m) = cfg_mailbox_id (tm_config (mx_tims a)) \<and> wh_dest (wm_header m) = dest)"
proof -
  obtain m1 where m1: "send_raw (mx_tims a) (Some (ser m1)) dest = (SUCCESS, mx_tims a')"
    "wm_payload m1 = wm_payload msg" "get_message_id ds t = Some (wh_msg_type (wm_header m1))"
    using mailbox_send_tims [OF assms(1)] .
  let ?d = "ser m1"
  have "w = frame_bytes (data_frame (mx_tims a) ?d dest) @ ?d"
    using send_raw_success(2) [OF m1(1)] assms(2) by simp
  then have len: "length w = 16 + length ?d" by simp
  note chain = delivery_chain [where swap = swap, OF m1(1) assms(2) _ assms(7-9) _ assms(11-13) assms(15-17) _ assms(19)]
  from chain [of bufsize timeout] len assms(3,10,18) obtain meta tb where
    tx: "tx (connection_iter r c) e = tx r e @ w" and
    rx: "receive_raw swap (mx_tims b) bufsize timeout = (int (length ?d), ?d, Some meta, tb)"
      "md_src meta = cfg_mailbox_id (tm_config (mx_tims a))" "md_dest meta = dest"
    by auto
  have h: "read_wire_header ?d = wm_header m1" "32 \<le> length ?d" using read_header_prefix assms(6) by blast+
  have v: "visit ds deser (wh_msg_type (wm_header m1)) ?d = Some (t, m1)"
    using visit_serialized [where ser = ser and deser = deser, OF assms(4) m1(3) assms(5)] .
  have ne: "?d \<noteq> []" using h(2) by (cases ?d) simp_all
  have "mailbox_receive_any_for (tims_ops swap) k' ds deser bufsize b timeout =
      Done (Inr (), Some (t, set_route (Some (dest_src)) m1), b\<lparr>mx_tims := tb\<rparr>)"
    if "dest_src = (md_src meta, md_dest meta)" for dest_src
    using assms(14) rx(1) h v that ne
    by (simp add: mailbox_receive_any_for_def tims_ops_def tims_receive_bytes_def Let_def)
  with tx rx m1 show ?thesis by (auto simp: set_route_def)
qed

text \<open>Mailbox 0x0202 sends type 4 to mailbox 0x0101, for which the router has its second client.\<close>

definition ex_registry :: "nat message_def list" where
  "ex_registry = ex_defs_explicit @ ex_defs_auto"

definition ex_msg :: "u32 wire_message" where
  "ex_msg = \<lparr>wm_header = ex_header, wm_payload = 9\<rparr>"

abbreviation ex_ops :: "(connect_answer, tims_mailbox) ipc_ops" where
  "ex_ops \<equiv> tims_ops (\<lambda>_ b. b)"

definition ex_typed_wire :: bytes where
  "ex_typed_wire = (case mailbox_send ex_ops ex_answer ex_registry 4 ex_ser ex_running ex_msg 0x0101 of
     Done (_, _, mx) \<Rightarrow> sk_tx (tm_socket (mx_tims mx)) | _ \<Rightarrow> [])"

lemma ex_typed_sent:
  "\<exists>m' a'. mailbox_send ex_ops ex_answer ex_registry 4 ex_ser ex_running ex_msg 0x0101 = Done (Inr (), m', a') \<and>
    sk_tx (tm_socket (mx_tims a')) = sk_tx (tm_socket (mx_tims ex_running)) @ ex_typed_wire"
proof -
  let ?s = "mailbox_send ex_ops ex_answer ex_registry 4 ex_ser ex_running ex_msg 0x0101"
  have "(case ?s of Done (r, _) \<Rightarrow> r = Inr () | _ \<Rightarrow> False)" by code_simp
  then obtain m' a' where s: "?s = Done (Inr (), m', a')" by (auto split: outcome.splits prod.splits)
  moreover have "sk_tx (tm_socket (mx_tims ex_running)) = []"
    by (simp add: ex_running_def ex_tims_def ex_socket_def)
  ultimately show ?thesis by (simp add: ex_typed_wire_def)
qed

lemma ex_typed_wire_length: "length ex_typed_wire = 52"
  by code_simp

theorem typed_end_to_end_witness:
  "\<exists>m b'. mailbox_receive_any_for ex_ops ex_answer ex_registry (\<lambda>_. ex_deser) 64
      (ex_running\<lparr>mx_tims := ex_tims\<lparr>tm_socket := ex_socket\<lparr>sk_rx := ex_typed_wire\<rparr>\<rparr>\<rparr>) (milliseconds 1)
    = Done (Inr (), Some (4, m), b') \<and> wm_payload m = 9 \<and> wh_src (wm_header m) = 0x0202"
proof -
  obtain m' a' where s: "mailbox_send ex_ops ex_answer ex_registry 4 ex_ser ex_running ex_msg 0x0101 = Done (Inr (), m', a')"
    and w: "sk_tx (tm_socket (mx_tims a')) = sk_tx (tm_socket (mx_tims ex_running)) @ ex_typed_wire"
    using ex_typed_sent by blast
  have ids: "distinct (message_ids ex_registry)" by code_simp
  have h: "take 32 (ex_ser m) = wire_header_bytes (wm_header m)" for m by (simp add: ex_ser_def)
  show ?thesis
    using typed_end_to_end [where deser = "\<lambda>_. ex_deser" and
        r = "set_socket ex_router 0 (ex_socket\<lparr>sk_rx := ex_typed_wire\<rparr>)" and c = 0 and e = 1 and bufsize = 64 and
        b = "ex_running\<lparr>mx_tims := ex_tims\<lparr>tm_socket := ex_socket\<lparr>sk_rx := ex_typed_wire\<rparr>\<rparr>\<rparr>" and
        timeout = "milliseconds 1" and k' = ex_answer, OF s w _ ids ex_deser_ser h] ex_typed_wire_length
    by (auto simp: set_socket_def ex_router_def new_router_def ex_connection_def Tcp_Router.registry_find_def
        ex_running_def ex_tims_def new_tims_mailbox_def default_ipc_config_def ex_msg_def)
qed

section \<open>What receive reports\<close>

text \<open>
  What \<open>receive_any_for\<close> reports on a running TiMS mailbox when nothing can be delivered.
  A positive time-out that runs out is reported as a network error; a connection that breaks
  while a frame header is read is reported as a time-out. Only with a time-out that is not
  positive is running out of time reported as such.
\<close>

lemma receive_any_reports:
  assumes "mx_running mx" and "tm_initialized (mx_tims mx)" and "is_open (tm_socket (mx_tims mx))"
    and "poll_in (tm_socket (mx_tims mx)) (timeout_ms timeout) = (p, s)"
  shows "(p \<le> 0 \<longrightarrow> mailbox_receive_any_for (tims_ops swap) k ds deser n mx timeout =
      Done (Inl (if is_positive timeout then NetworkError else Timeout), None,
        mx\<lparr>mx_tims := (mx_tims mx)\<lparr>tm_socket := s\<rparr>\<rparr>)) \<and>
    (0 < p \<and> recv_all s 16 = (False, bs, s') \<longrightarrow> mailbox_receive_any_for (tims_ops swap) k ds deser n mx timeout =
      Done (Inl Timeout, None, mx\<lparr>mx_tims := (mx_tims mx)\<lparr>tm_socket := s'\<rparr>\<rparr>))"
  using assms by (auto simp: mailbox_receive_any_for_def tims_ops_def tims_receive_bytes_def receive_raw_def
      receive_loop.simps [of _ "mx_tims mx"] ETIMEDOUT_def Let_def)

definition ex_silent :: "tims_mailbox mailbox" where
  "ex_silent = ex_running\<lparr>mx_tims := ex_tims\<lparr>tm_socket := ex_socket\<lparr>sk_poll_k := (\<lambda>_ _. 0)\<rparr>\<rparr>\<rparr>"

section \<open>Draining\<close>

lemma receive_loop_consumes:
  "receive_loop swap mb n ms = (ret, bs, meta, mb') \<Longrightarrow> 0 < ret \<Longrightarrow>
    length (sk_rx (tm_socket mb')) < length (sk_rx (tm_socket mb))"
proof (induction swap mb n ms arbitrary: ret bs meta mb' rule: receive_loop.induct)
  case (1 swap mb n ms)
  obtain p s0 where p: "poll_in (tm_socket mb) ms = (p, s0)" by fastforce
  obtain ok hdr s1 where h: "recv_all s0 16 = (ok, hdr, s1)" by (rule prod_cases3)
  have go: "0 < p" ok
    using "1.prems" p h by (auto simp: receive_loop.simps [of swap mb] ETIMEDOUT_def split: if_splits)
  have less: "length (sk_rx s1) < length (sk_rx (tm_socket mb))"
    using h go(2) recv_frame_shrinks [of s0 hdr s1] poll_in_rx [OF p] by simp
  let ?f = "read_frame hdr"
  obtain ok2 body s2 where b: "recv_all s1 (unat (fh_msglen ?f - 16)) = (ok2, body, s2)" by (rule prod_cases3)
  show ?case
  proof (cases "control_frame ?f")
    case True
    with "1.IH" [of p s0 ok "(hdr, s1)" hdr s1 ?f ret bs meta mb'] "1.prems" p h go
    show ?thesis using less
      by (auto simp: receive_loop.simps [of swap mb] control_frame_def Let_def split: if_splits)
  next
    case False
    with "1.prems" p h go b have "ok2" "mb' = mb\<lparr>tm_socket := s2, tm_messages_received := tm_messages_received mb + 1\<rparr>"
      by (auto simp: receive_loop.simps [of swap mb] control_frame_def Let_def EMSGSIZE_def split: if_splits)
    with b recv_all_stream [of s1 "unat (fh_msglen ?f - 16)" body s2] less show ?thesis by simp
  qed
qed



end
