(* ===== verification/Federation.thy ===== *)
theory Federation
  imports Tims_Props
begin

text \<open>
  Two TCP routers joined by a peer link (\<open>src/router/tcp_router.cpp\<close>, the federation part of the
  protocol): what one router writes on its end of the link arrives at the other's. The rounds of
  the connection threads are those of \<open>Tcp_Router\<close>; this theory composes them across the link:
  learning a mailbox from the peer's announcement, carrying a data frame to the router that has
  the mailbox, withdrawing it, the exchange at start-up, and what stale announcements lead to.
\<close>

section \<open>Routers on live sockets\<close>

abbreviation rx :: "router \<Rightarrow> con \<Rightarrow> bytes" where
  "rx r c \<equiv> sk_rx (socket_of r c)"

definition all_live :: "router \<Rightarrow> bool" where
  "all_live r \<longleftrightarrow> (\<forall>c < length (rt_connections r). live (socket_of r c))"

lemma all_live_can_send: "all_live r \<Longrightarrow> all_can_send r"
  by (simp add: all_live_def all_can_send_def live_can_send)

lemma all_liveD: "all_live r \<Longrightarrow> c < length (rt_connections r) \<Longrightarrow> live (socket_of r c)"
  by (simp add: all_live_def)

text \<open>Bytes arriving on a connection, as in the step relation of the daemon.\<close>

definition arrived :: "router \<Rightarrow> con \<Rightarrow> bytes \<Rightarrow> router" where
  "arrived r c bs = set_socket r c ((socket_of r c)\<lparr>sk_rx := rx r c @ bs\<rparr>)"

text \<open>
  What sending leaves alone: the connections' roles, their unread input, that they work, and the
  size limit.
\<close>

definition only_sent :: "router \<Rightarrow> router \<Rightarrow> bool" where
  "only_sent r r' \<longleftrightarrow> length (rt_connections r') = length (rt_connections r) \<and>
     rt_max_msg_size r' = rt_max_msg_size r \<and>
     (\<forall>c < length (rt_connections r). rx r' c = rx r c \<and> is_peer r' c = is_peer r c) \<and>
     (all_live r \<longrightarrow> all_live r')"

lemma only_sent_refl [simp]: "only_sent r r"
  by (simp add: only_sent_def)

lemma only_sent_trans [trans]: "only_sent r r1 \<Longrightarrow> only_sent r1 r2 \<Longrightarrow> only_sent r r2"
  by (simp add: only_sent_def)

lemma only_sent_fields [simp]:
  "only_sent r (r'\<lparr>rt_registry := t\<rparr>) = only_sent r r'" "only_sent r (r'\<lparr>rt_local := l\<rparr>) = only_sent r r'"
  "only_sent (r\<lparr>rt_registry := t\<rparr>) r' = only_sent r r'" "only_sent (r\<lparr>rt_local := l\<rparr>) r' = only_sent r r'"
  by (simp_all add: only_sent_def all_live_def)

lemma is_peer_set_socket [simp]: "is_peer (set_socket r c s) d = is_peer r d"
  by (cases "d = c"; cases "c < length (rt_connections r)") (simp_all add: set_socket_def list_update_beyond)

lemma set_socket_fields [simp]:
  "rt_registry (set_socket r c s) = rt_registry r" "rt_local (set_socket r c s) = rt_local r"
  by (simp_all add: set_socket_def)

lemma all_live_set_socket: "all_live r \<Longrightarrow> live s \<Longrightarrow> all_live (set_socket r c s)"
  by (auto simp: all_live_def socket_of_set_socket)

lemma send_all_live:
  "live s \<Longrightarrow> live (snd (send_all s bs))" "sk_rx (snd (send_all s bs)) = sk_rx s"
proof -
  show "live s \<Longrightarrow> live (snd (send_all s bs))" by (metis live_send snd_conv)
  show "sk_rx (snd (send_all s bs)) = sk_rx s" using send_all_frame(2) [of s bs] by (cases "send_all s bs") auto
qed

lemma only_sent_con_send: "only_sent r (con_send r c bs)"
  by (auto simp: only_sent_def con_send_def socket_of_set_socket all_live_def send_all_live)

lemma only_sent_foldl: "(\<And>r x. only_sent r (f r x)) \<Longrightarrow> only_sent r (foldl f r xs)"
  by (induction xs arbitrary: r) (auto intro: only_sent_trans)

lemma only_sent_send_peer_register: "only_sent r (send_peer_register m r c)"
  unfolding send_peer_register_def Let_def by (rule only_sent_trans [OF only_sent_con_send only_sent_con_send])

lemma only_sent_send_peer_delete: "only_sent r (send_peer_delete m r c)"
  unfolding send_peer_delete_def Let_def by (rule only_sent_trans [OF only_sent_con_send only_sent_con_send])

lemma only_sent_on_local:
  "only_sent r (on_local_registered r m)" "only_sent r (on_local_deleted r m)"
  unfolding on_local_registered_def on_local_deleted_def broadcast_to_peers_def
  using only_sent_foldl [of "send_peer_register m", OF only_sent_send_peer_register]
    only_sent_foldl [of "send_peer_delete m", OF only_sent_send_peer_delete]
  by (metis only_sent_fields(4))+

lemma only_sent_forward: "only_sent r (snd (forward r c h body))"
proof -
  obtain ok s where bw: "both_written send_all (socket_of r c) (frame_bytes h) body = (ok, s)" by fastforce
  then have "sk_rx s = rx r c \<and> (live (socket_of r c) \<longrightarrow> live s)"
    using send_all_live [of "socket_of r c" "frame_bytes h"]
      send_all_live [of "snd (send_all (socket_of r c) (frame_bytes h))" body]
    by (cases "send_all (socket_of r c) (frame_bytes h)") (auto simp: both_written_def send_all_frame(2) split: if_splits)
  with bw show ?thesis by (auto simp: only_sent_def forward_def socket_of_set_socket all_live_def)
qed

section \<open>Rounds of a connection\<close>

text \<open>
  \<open>took r c rest r'\<close>: a round that read all but \<open>rest\<close> of the connection's input and otherwise
  only sent.
\<close>

definition took :: "router \<Rightarrow> con \<Rightarrow> bytes \<Rightarrow> router \<Rightarrow> bool" where
  "took r c rest r' \<longleftrightarrow> length (rt_connections r') = length (rt_connections r) \<and>
     rt_max_msg_size r' = rt_max_msg_size r \<and> all_live r' \<and>
     (\<forall>d < length (rt_connections r). rx r' d = (if d = c then rest else rx r d) \<and> is_peer r' d = is_peer r d)"

lemma took_set_socket:
  assumes "all_live r" and "live s" and "sk_rx s = rest" and "only_sent (set_socket r c s) r'"
  shows "took r c rest r'"
  using assms all_live_set_socket [OF assms(1,2), of c]
  by (auto simp: took_def only_sent_def socket_of_set_socket)

lemma round:
  assumes "all_live r" and "c < length (rt_connections r)" and "rx r c = frame_bytes f @ body @ rest"
    and "fh_msglen f = 16 + of_nat (length body)" and "length body + 16 < 2 ^ 32" and "length body \<le> rt_max_msg_size r"
  obtains s where "connection_iter r c = dispatch_frame (set_socket r c s) c f body" and "live s"
    and "sk_rx s = rest" and "sk_tx s = tx r c" and "all_can_send (set_socket r c s)"
    and "\<And>d. tx (set_socket r c s) d = tx r d"
proof -
  from connection_iter_data [OF all_liveD [OF assms(1,2)] assms(2-6)]
  obtain s where s: "connection_iter r c = dispatch_frame (set_socket r c s) c f body" "live s"
    "sk_rx s = rest" "sk_tx s = tx r c" by blast
  moreover have "all_can_send (set_socket r c s)"
    by (rule all_live_can_send [OF all_live_set_socket [OF assms(1) s(2)]])
  ultimately show ?thesis using that by (simp add: socket_of_set_socket)
qed

text \<open>A local client registers \<open>m\<close>.\<close>

definition registration_message :: "u32 \<Rightarrow> u8 \<Rightarrow> u8 \<Rightarrow> bytes" where
  "registration_message m prio seq =
     frame_bytes (make_frame MSG_ROUTER_MBX_INIT_WITH_REPLY 0 m prio seq 4) @ mbx_init_bytes \<lparr>mip_mbx = m\<rparr>"

lemma registration_round:
  assumes "all_live r" and "c < length (rt_connections r)" and "\<not> is_peer r c"
    and "rx r c = registration_message m prio seq @ rest" and "4 \<le> rt_max_msg_size r"
    and "rt_registry r m = None"
  shows "took r c rest (connection_iter r c)" and "rt_registry (connection_iter r c) = (rt_registry r)(m \<mapsto> c)"
    and "rt_local (connection_iter r c) = List.insert m (rt_local r)"
    and "d < length (rt_connections r) \<Longrightarrow> tx (connection_iter r c) d = tx r d @
      (if d = c then frame_bytes (make_frame MSG_OK m 0 0 seq 0) else []) @ (if is_peer r d then register_frame m else [])"
proof -
  let ?f = "make_frame MSG_ROUTER_MBX_INIT_WITH_REPLY 0 m prio seq 4" and ?body = "mbx_init_bytes \<lparr>mip_mbx = m\<rparr>"
  obtain s where s: "connection_iter r c = dispatch_frame (set_socket r c s) c ?f ?body" "live s"
    "sk_rx s = rest" "all_can_send (set_socket r c s)" "\<And>d. tx (set_socket r c s) d = tx r d"
    using round [OF assms(1,2), of ?f ?body rest] assms(4,5)
    by (auto simp: registration_message_def make_frame_def)
  let ?r = "set_socket r c s"
  have reg: "registration ?f ?body m" by (simp add: make_frame_def)
  have none: "rt_registry ?r m = None" using assms(6) by simp
  have "dispatch_frame ?r c ?f ?body = on_local_registered (con_send (?r\<lparr>rt_registry := (rt_registry r)(m \<mapsto> c)\<rparr>) c
      (frame_bytes (make_frame MSG_OK m 0 0 seq 0))) m"
    using assms(6) by (simp add: dispatch_frame_def make_frame_def msg_type_defs registry_add_def Let_def)
  then have "only_sent ?r (dispatch_frame ?r c ?f ?body)"
    using only_sent_trans [OF only_sent_con_send only_sent_on_local(1)] only_sent_fields(3) by (metis (no_types))
  then show "took r c rest (connection_iter r c)"
    unfolding s(1) using took_set_socket [OF assms(1) s(2,3)] by blast
  note d = dispatch_registration [OF reg none s(4), of c]
  show "rt_registry (connection_iter r c) = (rt_registry r)(m \<mapsto> c)"
    and "rt_local (connection_iter r c) = List.insert m (rt_local r)"
    using d assms(2) by (simp_all add: s(1))
  show "d < length (rt_connections r) \<Longrightarrow> tx (connection_iter r c) d = tx r d @
      (if d = c then frame_bytes (make_frame MSG_OK m 0 0 seq 0) else []) @ (if is_peer r d then register_frame m else [])"
    using d assms(2) s(5) by (simp add: s(1)) (simp add: make_frame_def)
qed

text \<open>A peer announces \<open>m\<close>.\<close>

lemma announcement_round:
  assumes "all_live r" and "c < length (rt_connections r)" and "is_peer r c"
    and "rx r c = register_frame m @ rest" and "4 \<le> rt_max_msg_size r"
  shows "took r c rest (connection_iter r c)"
    and "rt_registry (connection_iter r c) = snd (registry_add (rt_registry r) m c)"
    and "rt_local (connection_iter r c) = rt_local r" and "tx (connection_iter r c) d = tx r d"
proof -
  let ?f = "make_frame MSG_ROUTER_PEER_REGISTER 0 0 0 0 4" and ?body = "mbx_init_bytes \<lparr>mip_mbx = m\<rparr>"
  obtain s where s: "connection_iter r c = dispatch_frame (set_socket r c s) c ?f ?body" "live s"
    "sk_rx s = rest" "\<And>d. tx (set_socket r c s) d = tx r d"
    using round [OF assms(1,2), of ?f ?body rest] assms(4,5)
    by (auto simp: register_frame_def make_frame_def)
  have d: "dispatch_frame (set_socket r c s) c ?f ?body =
      (set_socket r c s)\<lparr>rt_registry := snd (registry_add (rt_registry r) m c)\<rparr>"
    using assms(3) by (simp add: dispatch_frame_def make_frame_def msg_type_defs)
  show "took r c rest (connection_iter r c)"
    unfolding s(1) d by (rule took_set_socket [OF assms(1) s(2,3)]) simp
  show "rt_registry (connection_iter r c) = snd (registry_add (rt_registry r) m c)"
    and "rt_local (connection_iter r c) = rt_local r" and "tx (connection_iter r c) d = tx r d"
    using s(4) by (simp_all add: s(1) d)
qed

text \<open>A data frame for a mailbox that is routed to \<open>e\<close>.\<close>

definition data_message :: "frame_header \<Rightarrow> bytes \<Rightarrow> bool" where
  "data_message f body \<longleftrightarrow> fh_type f \<notin> set router_types \<and> fh_msglen f = 16 + of_nat (length body) \<and>
     length body + 16 < 2 ^ 32"

lemma data_round:
  assumes "all_live r" and "c < length (rt_connections r)" and "rx r c = frame_bytes f @ body @ rest"
    and "data_message f body" and "length body \<le> rt_max_msg_size r"
    and "rt_registry r (fh_dest f) = Some e" and "e < length (rt_connections r)"
  shows "took r c rest (connection_iter r c)" and "rt_registry (connection_iter r c) = rt_registry r"
    and "rt_local (connection_iter r c) = rt_local r"
    and "tx (connection_iter r c) d = tx r d @ (if d = e then frame_bytes f @ body else [])"
proof -
  obtain s where s: "connection_iter r c = dispatch_frame (set_socket r c s) c f body" "live s"
    "sk_rx s = rest" "all_can_send (set_socket r c s)" "\<And>d. tx (set_socket r c s) d = tx r d"
    using round [OF assms(1-3) _ _ assms(5)] assms(4) by (auto simp: data_message_def)
  let ?r = "set_socket r c s"
  have d: "dispatch_frame ?r c f body = snd (forward ?r e f body)"
    using assms(4,6) by (simp add: data_message_def dispatch_data route_data_def registry_find_def)
  have "only_sent ?r (snd (forward ?r e f body))" by (rule only_sent_forward)
  then show "took r c rest (connection_iter r c)"
    unfolding s(1) d by (rule took_set_socket [OF assms(1) s(2,3)])
  obtain se where se: "both_written send_all (socket_of ?r e) (frame_bytes f) body = (True, se)"
    using both_send_can_send s(4) assms(7) unfolding all_can_send_def by (metis length_set_socket)
  then have f: "snd (forward ?r e f body) = set_socket ?r e se" by (simp add: forward_def)
  show "rt_registry (connection_iter r c) = rt_registry r" and "rt_local (connection_iter r c) = rt_local r"
    by (simp_all add: s(1) d f)
  show "tx (connection_iter r c) d = tx r d @ (if d = e then frame_bytes f @ body else [])"
    using tcp_writer.both_all_written [OF se] s(5) assms(7) by (simp add: s(1) d f socket_of_set_socket)
qed

text \<open>Arrivals.\<close>

lemma arrived_simps [simp]:
  "length (rt_connections (arrived r c bs)) = length (rt_connections r)"
  "rt_registry (arrived r c bs) = rt_registry r" "rt_local (arrived r c bs) = rt_local r"
  "rt_max_msg_size (arrived r c bs) = rt_max_msg_size r" "is_peer (arrived r c bs) d = is_peer r d"
  "tx (arrived r c bs) d = tx r d"
  "c < length (rt_connections r) \<Longrightarrow> rx (arrived r c bs) d = (if d = c then rx r c @ bs else rx r d)"
  by (simp_all add: arrived_def socket_of_set_socket)

lemma all_live_arrived [simp]: "all_live r \<Longrightarrow> all_live (arrived r c bs)"
  by (auto simp: all_live_def arrived_def socket_of_set_socket live_def can_recv_def can_send_def is_open_def)

lemma tookD:
  assumes "took r c rest r'"
  shows "length (rt_connections r') = length (rt_connections r)" "rt_max_msg_size r' = rt_max_msg_size r" "all_live r'"
    "d < length (rt_connections r) \<Longrightarrow> rx r' d = (if d = c then rest else rx r d)"
    "d < length (rt_connections r) \<Longrightarrow> is_peer r' d = is_peer r d"
  using assms by (simp_all add: took_def)

section \<open>Across the link\<close>

text \<open>
  Router \<open>A\<close> with its end \<open>pa\<close> of the link and a client on \<open>ca\<close>, router \<open>B\<close> with \<open>pb\<close> and \<open>cb\<close>: both
  ends know each other as peers, nothing is in flight.
\<close>

definition linked :: "router \<Rightarrow> con \<Rightarrow> con \<Rightarrow> bool" where
  "linked r p c \<longleftrightarrow> all_live r \<and> p < length (rt_connections r) \<and> c < length (rt_connections r) \<and>
     is_peer r p \<and> \<not> is_peer r c \<and> rx r p = [] \<and> 4 \<le> rt_max_msg_size r"

text \<open>
  The bytes a round added to a connection's output.
\<close>

definition new_tx :: "router \<Rightarrow> router \<Rightarrow> con \<Rightarrow> bytes" where
  "new_tx r r' c = drop (length (tx r c)) (tx r' c)"

text \<open>
  A registration at \<open>A\<close> reaches \<open>B\<close>: \<open>A\<close> serves its client's request and what it wrote on the link
  arrives at \<open>B\<close>, which serves its end of the link.
\<close>

definition learn :: "router \<Rightarrow> con \<Rightarrow> con \<Rightarrow> router \<Rightarrow> con \<Rightarrow> router \<times> router" where
  "learn A ca pa B pb =
     (let A1 = connection_iter A ca; B1 = connection_iter (arrived B pb (new_tx A A1 pa)) pb in (A1, B1))"

text \<open>A message on \<open>cb\<close> of \<open>B\<close>, and what \<open>B\<close> writes on the link in answer, through \<open>A\<close>.\<close>

definition carry :: "bytes \<Rightarrow> router \<Rightarrow> con \<Rightarrow> router \<Rightarrow> con \<Rightarrow> con \<Rightarrow> router \<times> router" where
  "carry w A pa B pb cb =
     (let B1 = connection_iter (arrived B cb w) cb;
          A1 = connection_iter (arrived A pa (new_tx B B1 pb)) pa in (A1, B1))"

lemma learn_registers:
  assumes "linked A pa ca" and "linked B pb cb" and "rx A ca = registration_message m prio seq"
    and "rt_registry A m = None" and "rt_registry B m = None" and "learn A ca pa B pb = (A1, B1)"
  shows "linked A1 pa ca" and "linked B1 pb cb" and "rx A1 ca = []" and "rx B1 cb = rx B cb"
    and "rt_registry A1 = (rt_registry A)(m \<mapsto> ca)" and "rt_registry B1 = (rt_registry B)(m \<mapsto> pb)"
    and "tx A1 ca = tx A ca @ frame_bytes (make_frame MSG_OK m 0 0 seq 0)" and "tx B1 d = tx B d"
    and "rt_max_msg_size A1 = rt_max_msg_size A" and "rt_max_msg_size B1 = rt_max_msg_size B"
proof -
  note A = assms(1) [unfolded linked_def] and B = assms(2) [unfolded linked_def]
  have eq: "A1 = connection_iter A ca" "B1 = connection_iter (arrived B pb (new_tx A A1 pa)) pb"
    using assms(6) by (auto simp: learn_def Let_def)
  have ne: "pa \<noteq> ca" "pb \<noteq> cb" using A B by auto
  note a = registration_round [of A ca m prio seq "[]", folded eq(1)]
  have a1: "took A ca [] A1" "rt_registry A1 = (rt_registry A)(m \<mapsto> ca)"
    using a(1,2) A assms(3,4) by simp_all
  have ta: "tx A1 d = tx A d @ (if d = ca then frame_bytes (make_frame MSG_OK m 0 0 seq 0) else []) @
      (if is_peer A d then register_frame m else [])" if "d < length (rt_connections A)" for d
    using a(4) A assms(3,4) that by simp
  have w: "new_tx A A1 pa = register_frame m" using ta [of pa] A ne by (simp add: new_tx_def)
  let ?B = "arrived B pb (register_frame m)"
  have B': "all_live ?B" "pb < length (rt_connections ?B)" "is_peer ?B pb" "rx ?B pb = register_frame m @ []"
    "4 \<le> rt_max_msg_size ?B" using B by simp_all
  note b = announcement_round [OF B', folded w, folded eq(2)]
  show "linked A1 pa ca" "rx A1 ca = []" "rt_max_msg_size A1 = rt_max_msg_size A"
    using tookD [OF a1(1)] A ne by (simp_all add: linked_def)
  show "linked B1 pb cb" "rx B1 cb = rx B cb" "rt_max_msg_size B1 = rt_max_msg_size B"
    using tookD [OF b(1)] B ne by (simp_all add: linked_def)
  show "rt_registry A1 = (rt_registry A)(m \<mapsto> ca)" by (rule a1)
  show "rt_registry B1 = (rt_registry B)(m \<mapsto> pb)" "tx B1 d = tx B d"
    using b(2,4) assms(5) by (simp_all add: registry_add_def)
  show "tx A1 ca = tx A ca @ frame_bytes (make_frame MSG_OK m 0 0 seq 0)" using ta [of ca] A by simp
qed

lemma carry_delivers:
  assumes "linked A pa ca" and "linked B pb cb" and "rx B cb = []"
    and "rt_registry A (fh_dest f) = Some ca" and "rt_registry B (fh_dest f) = Some pb"
    and "data_message f body" and "length body \<le> rt_max_msg_size A" and "length body \<le> rt_max_msg_size B"
    and "carry (frame_bytes f @ body) A pa B pb cb = (A1, B1)"
  shows "tx A1 ca = tx A ca @ frame_bytes f @ body" and "linked A1 pa ca" and "linked B1 pb cb"
    and "rx A1 ca = rx A ca" and "rx B1 cb = []"
    and "rt_registry A1 = rt_registry A" and "rt_registry B1 = rt_registry B"
    and "rt_max_msg_size A1 = rt_max_msg_size A" and "rt_max_msg_size B1 = rt_max_msg_size B"
    and "d \<noteq> ca \<Longrightarrow> tx A1 d = tx A d" and "d \<noteq> pb \<Longrightarrow> tx B1 d = tx B d"
proof -
  note A = assms(1) [unfolded linked_def] and B = assms(2) [unfolded linked_def]
  let ?w = "frame_bytes f @ body" and ?B = "arrived B cb (frame_bytes f @ body)"
  have eq: "B1 = connection_iter ?B cb" "A1 = connection_iter (arrived A pa (new_tx B B1 pb)) pa"
    using assms(9) by (auto simp: carry_def Let_def)
  have ne: "pa \<noteq> ca" "pb \<noteq> cb" using A B by auto
  have B': "all_live ?B" "cb < length (rt_connections ?B)" "rx ?B cb = frame_bytes f @ body @ []"
    "length body \<le> rt_max_msg_size ?B" "rt_registry ?B (fh_dest f) = Some pb" "pb < length (rt_connections ?B)"
    using B assms(3,5,8) by simp_all
  note b = data_round [OF B'(1-3) assms(6) B'(4-6), folded eq(1)]
  have w: "new_tx B B1 pb = ?w" using b(4) [of pb] by (simp add: new_tx_def)
  let ?A = "arrived A pa ?w"
  have A': "all_live ?A" "pa < length (rt_connections ?A)" "rx ?A pa = frame_bytes f @ body @ []"
    "length body \<le> rt_max_msg_size ?A" "rt_registry ?A (fh_dest f) = Some ca" "ca < length (rt_connections ?A)"
    using A assms(4,7) by simp_all
  note a = data_round [OF A'(1-3) assms(6) A'(4-6), folded w, folded eq(2)]
  show "tx A1 ca = tx A ca @ ?w" using a(4) [of ca] by (simp add: w)
  show "linked A1 pa ca" "rx A1 ca = rx A ca" "rt_max_msg_size A1 = rt_max_msg_size A"
    using tookD [OF a(1)] A ne by (simp_all add: linked_def)
  show "linked B1 pb cb" "rx B1 cb = []" "rt_max_msg_size B1 = rt_max_msg_size B"
    using tookD [OF b(1)] B ne assms(3) by (simp_all add: linked_def)
  show "rt_registry A1 = rt_registry A" "rt_registry B1 = rt_registry B" using a(2) b(2) by simp_all
  show "d \<noteq> ca \<Longrightarrow> tx A1 d = tx A d" "d \<noteq> pb \<Longrightarrow> tx B1 d = tx B d" using a(4) [of d] b(4) [of d] by simp_all
qed

text \<open>Several messages one after the other.\<close>

fun carry_all :: "(frame_header \<times> bytes) list \<Rightarrow> router \<times> router \<Rightarrow> con \<Rightarrow> con \<Rightarrow> con \<Rightarrow> router \<times> router" where
  "carry_all [] AB pa pb cb = AB"
| "carry_all ((f, body) # ms) AB pa pb cb =
     carry_all ms (carry (frame_bytes f @ body) (fst AB) pa (snd AB) pb cb) pa pb cb"

text \<open>
  The first part of the pair is delivered in order: each message goes through both routers as the
  previous one did.
\<close>

lemma carry_all_in_order:
  assumes "linked A pa ca" and "linked B pb cb" and "rx B cb = []"
    and "rt_registry A m = Some ca" and "rt_registry B m = Some pb"
    and "rt_max_msg_size A = n" and "rt_max_msg_size B = n'"
    and "\<forall>(f, body) \<in> set ms. data_message f body \<and> fh_dest f = m \<and> length body \<le> n \<and> length body \<le> n'"
  shows "tx (fst (carry_all ms (A, B) pa pb cb)) ca = tx A ca @ concat (map (\<lambda>(f, body). frame_bytes f @ body) ms)"
  using assms
proof (induction ms arbitrary: A B)
  case Nil
  then show ?case by simp
next
  case (Cons fb ms)
  obtain f body where fb: "fb = (f, body)" by fastforce
  obtain A1 B1 where c: "carry (frame_bytes f @ body) A pa B pb cb = (A1, B1)" by fastforce
  have "data_message f body" "fh_dest f = m" "length body \<le> n" "length body \<le> n'"
    using Cons.prems(8) fb by auto
  note d = carry_delivers [OF Cons.prems(1-3) _ _ this(1) _ _ c, unfolded this(2)] this
  have "tx (fst (carry_all ms (A1, B1) pa pb cb)) ca = tx A1 ca @ concat (map (\<lambda>(f, body). frame_bytes f @ body) ms)"
    using Cons.prems d by (intro Cons.IH) auto
  then show ?case using fb c d Cons.prems by simp
qed

text \<open>A router with one client and one peer on working sockets, the client's request unread.\<close>

definition ex_linked :: "bytes \<Rightarrow> router" where
  "ex_linked w = (new_router 4096)\<lparr>rt_connections :=
     [(ex_connection False)\<lparr>cn_socket := ex_socket\<lparr>sk_rx := w\<rparr>\<rparr>, ex_connection True]\<rparr>"

lemma ex_linked [simp]:
  "linked (ex_linked w) (Suc 0) 0" "rx (ex_linked w) 0 = w" "rt_registry (ex_linked w) = Map.empty"
  "tx (ex_linked w) 0 = []" "rt_max_msg_size (ex_linked w) = 4096"
  by (simp_all add: linked_def all_live_def ex_linked_def ex_connection_def new_router_def less_Suc_eq ex_socket_def
      live_def can_recv_def can_send_def is_open_def)

definition ex_data :: "u8 \<Rightarrow> frame_header" where
  "ex_data seq = make_frame 0 0x0202 0x0101 5 seq 3"

text \<open>
  C9. Messages cross the federation. When a client registers a mailbox at router \<open>A\<close> and \<open>A\<close>'s
  announcement reaches its peer \<open>B\<close>, then every sequence of data messages that a client of \<open>B\<close>
  sends to the mailbox is handed by \<open>B\<close> to the link and by \<open>A\<close> to the registering client,
  complete, unmodified and in order, after the one \<open>MSG_OK\<close> that answers its registration.
\<close>

theorem federation_delivers:
  assumes "linked A pa ca" and "linked B pb cb"
    and "rx A ca = registration_message m prio seq" and "rx B cb = []"
    and "rt_registry A m = None" and "rt_registry B m = None"
    and "\<forall>(f, body) \<in> set ms. data_message f body \<and> fh_dest f = m \<and>
      length body \<le> rt_max_msg_size A \<and> length body \<le> rt_max_msg_size B"
  shows "tx (fst (carry_all ms (learn A ca pa B pb) pa pb cb)) ca = tx A ca @
    frame_bytes (make_frame MSG_OK m 0 0 seq 0) @ concat (map (\<lambda>(f, body). frame_bytes f @ body) ms)"
proof -
  obtain A1 B1 where l: "learn A ca pa B pb = (A1, B1)" by fastforce
  note r = learn_registers [OF assms(1-3,5,6) l]
  show ?thesis unfolding l
    using carry_all_in_order [OF r(1,2) _ _ _ r(9,10) assms(7)] r assms(4) by simp
qed

theorem federation_delivers_witness:
  "tx (fst (carry_all [(ex_data 1, [7, 8, 9]), (ex_data 2, [4, 5, 6])]
     (learn (ex_linked (registration_message 0x0202 5 0)) 0 1 (ex_linked []) 1) 1 1 0)) 0 =
   frame_bytes (make_frame MSG_OK 0x0202 0 0 0 0) @ (frame_bytes (ex_data 1) @ [7, 8, 9]) @ frame_bytes (ex_data 2) @ [4, 5, 6]"
  using federation_delivers [of "ex_linked (registration_message 0x0202 5 0)" 1 0 "ex_linked []" 1 0 "0x0202" 5 0
      "[(ex_data 1, [7, 8, 9]), (ex_data 2, [4, 5, 6])]"]
  by (simp add: data_message_def ex_data_def make_frame_def router_types_def msg_type_defs)

section \<open>Withdrawal\<close>

text \<open>A client deletes its mailbox, and the peer hears of it.\<close>

definition deletion_message :: "u32 \<Rightarrow> u8 \<Rightarrow> u8 \<Rightarrow> bytes" where
  "deletion_message m prio seq =
     frame_bytes (make_frame MSG_ROUTER_MBX_DELETE 0 m prio seq 4) @ mbx_init_bytes \<lparr>mip_mbx = m\<rparr>"

lemma on_local_deleted_fields [simp]:
  "rt_registry (on_local_deleted r m) = rt_registry r"
  "rt_local (on_local_deleted r m) = removeAll m (rt_local r)"
  using arg_cong [OF ctrl_on_local_deleted [of r m], of ct_registry]
    arg_cong [OF ctrl_on_local_deleted [of r m], of ct_local]
  by (simp_all del: ctrl_on_local_deleted)

lemma deletion_round:
  assumes "all_live r" and "c < length (rt_connections r)"
    and "rx r c = deletion_message m prio seq @ rest" and "4 \<le> rt_max_msg_size r"
  shows "took r c rest (connection_iter r c)" and "rt_registry (connection_iter r c) = (rt_registry r)(m := None)"
    and "rt_local (connection_iter r c) = removeAll m (rt_local r)"
    and "d < length (rt_connections r) \<Longrightarrow>
      tx (connection_iter r c) d = tx r d @ (if is_peer r d then delete_frame m else [])"
proof -
  let ?f = "make_frame MSG_ROUTER_MBX_DELETE 0 m prio seq 4" and ?body = "mbx_init_bytes \<lparr>mip_mbx = m\<rparr>"
  obtain s where s: "connection_iter r c = dispatch_frame (set_socket r c s) c ?f ?body" "live s"
    "sk_rx s = rest" "all_can_send (set_socket r c s)" "\<And>d. tx (set_socket r c s) d = tx r d"
    using round [OF assms(1,2), of ?f ?body rest] assms(3,4)
    by (auto simp: deletion_message_def make_frame_def)
  let ?r = "(set_socket r c s)\<lparr>rt_registry := (rt_registry r)(m := None)\<rparr>"
  have d: "dispatch_frame (set_socket r c s) c ?f ?body = on_local_deleted ?r m"
    by (simp add: dispatch_frame_def make_frame_def msg_type_defs registry_remove_def Let_def)
  have "only_sent (set_socket r c s) (on_local_deleted ?r m)"
    using only_sent_on_local(2) [of ?r m] by simp
  then show "took r c rest (connection_iter r c)"
    unfolding s(1) d by (rule took_set_socket [OF assms(1) s(2,3)])
  show "rt_registry (connection_iter r c) = (rt_registry r)(m := None)"
    and "rt_local (connection_iter r c) = removeAll m (rt_local r)" by (simp_all add: s(1) d)
  show "d < length (rt_connections r) \<Longrightarrow> tx (connection_iter r c) d = tx r d @ (if is_peer r d then delete_frame m else [])"
    using on_local_deleted_tx [of ?r m d] s(4,5) by (simp add: s(1) d)
qed

lemma withdrawal_round:
  assumes "all_live r" and "c < length (rt_connections r)" and "is_peer r c"
    and "rx r c = delete_frame m @ rest" and "4 \<le> rt_max_msg_size r"
  shows "took r c rest (connection_iter r c)" and "rt_registry (connection_iter r c) = (rt_registry r)(m := None)"
    and "tx (connection_iter r c) d = tx r d"
proof -
  let ?f = "make_frame MSG_ROUTER_PEER_DELETE 0 0 0 0 4" and ?body = "mbx_init_bytes \<lparr>mip_mbx = m\<rparr>"
  obtain s where s: "connection_iter r c = dispatch_frame (set_socket r c s) c ?f ?body" "live s"
    "sk_rx s = rest" "\<And>d. tx (set_socket r c s) d = tx r d"
    using round [OF assms(1,2), of ?f ?body rest] assms(4,5)
    by (auto simp: delete_frame_def make_frame_def)
  have d: "dispatch_frame (set_socket r c s) c ?f ?body =
      (set_socket r c s)\<lparr>rt_registry := (rt_registry r)(m := None)\<rparr>"
    using assms(3) by (simp add: dispatch_frame_def make_frame_def msg_type_defs registry_remove_def)
  show "took r c rest (connection_iter r c)"
    unfolding s(1) d by (rule took_set_socket [OF assms(1) s(2,3)]) simp
  show "rt_registry (connection_iter r c) = (rt_registry r)(m := None)" and "tx (connection_iter r c) d = tx r d"
    using s(4) by (simp_all add: s(1) d)
qed

text \<open>Deleting at \<open>A\<close> removes the mailbox at both ends, whatever the two had of it before.\<close>

lemma withdrawal_reaches_peer:
  assumes "linked A pa ca" and "linked B pb cb" and "rx A ca = deletion_message m prio seq"
    and "learn A ca pa B pb = (A1, B1)"
  shows "rt_registry A1 = (rt_registry A)(m := None)" and "rt_registry B1 = (rt_registry B)(m := None)"
    and "linked A1 pa ca" and "linked B1 pb cb"
proof -
  note A = assms(1) [unfolded linked_def] and B = assms(2) [unfolded linked_def]
  have eq: "A1 = connection_iter A ca" "B1 = connection_iter (arrived B pb (new_tx A A1 pa)) pb"
    using assms(4) by (auto simp: learn_def Let_def)
  have ne: "pa \<noteq> ca" "pb \<noteq> cb" using A B by auto
  note a = deletion_round [of A ca m prio seq "[]", folded eq(1)]
  have w: "new_tx A A1 pa = delete_frame m" using a(4) [of pa] A assms(3) by (simp add: new_tx_def)
  let ?B = "arrived B pb (delete_frame m)"
  have B': "all_live ?B" "pb < length (rt_connections ?B)" "is_peer ?B pb" "rx ?B pb = delete_frame m @ []"
    "4 \<le> rt_max_msg_size ?B" using B by simp_all
  note b = withdrawal_round [OF B', folded w, folded eq(2)]
  show "rt_registry A1 = (rt_registry A)(m := None)" "rt_registry B1 = (rt_registry B)(m := None)"
    using a(2) b(2) A assms(3) by simp_all
  have "took A ca [] A1" using a(1) A assms(3) by simp
  from tookD [OF this] show "linked A1 pa ca" using A ne by (simp add: linked_def)
  from tookD [OF b(1)] show "linked B1 pb cb" using B ne by (simp add: linked_def)
qed

section \<open>Setting up the link\<close>

definition advertisement :: "u32 list \<Rightarrow> bytes" where
  "advertisement ms = frame_bytes (make_frame MSG_ROUTER_PEER_HELLO 0 0 0 0 0) @ concat (map register_frame ms)"

lemma only_sent_advertise: "only_sent r (advertise_as_peer r c)"
  unfolding advertise_as_peer_def Let_def
  by (rule only_sent_trans [OF only_sent_con_send only_sent_foldl]) (rule only_sent_send_peer_register)

lemma foldl_register_tx:
  assumes "all_can_send r" and "c < length (rt_connections r)"
  shows "tx (foldl (\<lambda>r m. send_peer_register m r c) r ms) d = tx r d @ (if d = c then concat (map register_frame ms) else [])"
  using assms
proof (induction ms arbitrary: r)
  case (Cons m ms)
  then show ?case
    using con_send2_healthy [OF Cons.prems] by (simp add: send_peer_register_alt register_frame_def [of m])
qed simp

lemma advertise_tx:
  assumes "all_can_send r" and "c < length (rt_connections r)"
  shows "tx (advertise_as_peer r c) d = tx r d @ (if d = c then advertisement (rt_local r) else [])"
  using con_send_healthy [OF assms] assms
  by (simp add: advertise_as_peer_def Let_def foldl_register_tx local_mailboxes_snapshot_def advertisement_def)

lemma advertise_fields:
  "rt_registry (advertise_as_peer r c) = rt_registry r" "rt_local (advertise_as_peer r c) = rt_local r"
  using arg_cong [OF ctrl_advertise [of r c], of ct_registry] arg_cong [OF ctrl_advertise [of r c], of ct_local]
  by (simp_all del: ctrl_advertise)

text \<open>A peer's announcements one after the other: free mailboxes are routed to it.\<close>

definition learned :: "registry \<Rightarrow> u32 list \<Rightarrow> con \<Rightarrow> registry" where
  "learned t ms c = (\<lambda>m. if t m = None \<and> m \<in> set ms then Some c else t m)"

definition rounds :: "nat \<Rightarrow> con \<Rightarrow> router \<Rightarrow> router" where
  "rounds n c = ((\<lambda>r. connection_iter r c) ^^ n)"

lemma learned_Cons: "learned (snd (registry_add t m c)) ms c = learned t (m # ms) c"
  by (auto simp: learned_def registry_add_def fun_eq_iff split: option.splits)

lemma announcement_rounds:
  assumes "all_live r" and "c < length (rt_connections r)" and "is_peer r c"
    and "rx r c = concat (map register_frame ms) @ rest" and "4 \<le> rt_max_msg_size r"
  shows "took r c rest (rounds (length ms) c r) \<and> rt_registry (rounds (length ms) c r) = learned (rt_registry r) ms c \<and>
    rt_local (rounds (length ms) c r) = rt_local r \<and> (\<forall>d. tx (rounds (length ms) c r) d = tx r d)"
  using assms
proof (induction ms arbitrary: r)
  case Nil
  then show ?case by (simp add: rounds_def took_def learned_def)
next
  case (Cons m ms)
  let ?r = "connection_iter r c"
  note a = announcement_round [OF Cons.prems(1-3) _ Cons.prems(5), of m "concat (map register_frame ms) @ rest"]
  have "took r c (concat (map register_frame ms) @ rest) ?r" using a(1) Cons.prems(4) by simp
  note t = tookD [OF this]
  have "took ?r c rest (rounds (length ms) c ?r) \<and> rt_registry (rounds (length ms) c ?r) = learned (rt_registry ?r) ms c \<and>
      rt_local (rounds (length ms) c ?r) = rt_local ?r \<and> (\<forall>d. tx (rounds (length ms) c ?r) d = tx ?r d)"
    using Cons.prems(2,3,5) t by (intro Cons.IH) simp_all
  moreover have "rounds (length (m # ms)) c r = rounds (length ms) c ?r"
    by (simp only: rounds_def length_Cons funpow_Suc_right o_apply)
  ultimately show ?case using a Cons.prems(2,4) t by (simp add: learned_Cons took_def)
qed

text \<open>The greeting of a router that dialled in, and the answer to our own.\<close>

lemma is_peer_set_peer: "c < length (rt_connections r) \<Longrightarrow> is_peer (set_peer r c) d = (d = c \<or> is_peer r d)"
  by (cases "d = c") (simp_all add: set_peer_def)

lemma socket_of_set_peer [simp]: "socket_of (set_peer r c) d = socket_of r d"
  by (cases "d = c"; cases "c < length (rt_connections r)") (simp_all add: set_peer_def list_update_beyond)

lemma set_peer_fields [simp]:
  "length (rt_connections (set_peer r c)) = length (rt_connections r)" "rt_registry (set_peer r c) = rt_registry r"
  "rt_local (set_peer r c) = rt_local r" "rt_max_msg_size (set_peer r c) = rt_max_msg_size r"
  by (simp_all add: set_peer_def)

lemma greeting_round:
  assumes "all_live r" and "c < length (rt_connections r)"
    and "rx r c = frame_bytes (make_frame MSG_ROUTER_PEER_HELLO 0 0 0 0 0) @ rest"
  shows "took (set_peer r c) c rest (connection_iter r c)" and "rt_registry (connection_iter r c) = rt_registry r"
    and "rt_local (connection_iter r c) = rt_local r"
    and "tx (connection_iter r c) d = tx r d @ (if d = c \<and> \<not> is_peer r c then advertisement (rt_local r) else [])"
proof -
  let ?f = "make_frame MSG_ROUTER_PEER_HELLO 0 0 0 0 0"
  obtain s where s: "connection_iter r c = dispatch_frame (set_socket r c s) c ?f []" "live s"
    "sk_rx s = rest" "all_can_send (set_socket r c s)" "\<And>d. tx (set_socket r c s) d = tx r d"
    using round [OF assms(1,2), of ?f "[]" rest] assms(3) by (auto simp: make_frame_def)
  let ?r = "set_peer (set_socket r c s) c"
  have swap: "?r = set_socket (set_peer r c) c s"
    using assms(2) by (cases "rt_connections r ! c") (simp add: set_peer_def set_socket_def)
  have live: "all_live (set_peer r c)" using assms(1) by (simp add: all_live_def)
  have can: "all_can_send ?r" using s(4) by (simp add: all_can_send_def)
  have d: "dispatch_frame (set_socket r c s) c ?f [] = (if is_peer r c then set_socket r c s else advertise_as_peer ?r c)"
    by (simp add: dispatch_frame_def make_frame_def)
  have same: "set_peer r c = r" if "is_peer r c"
  proof -
    have "(rt_connections r ! c)\<lparr>cn_is_peer := True\<rparr> = rt_connections r ! c" using that by (cases "rt_connections r ! c") simp
    then show ?thesis by (simp add: set_peer_def)
  qed
  show "took (set_peer r c) c rest (connection_iter r c)"
    unfolding s(1) d by (rule took_set_socket [OF live s(2,3)]) (use same swap only_sent_advertise [of ?r c] in auto)
  show "rt_registry (connection_iter r c) = rt_registry r" "rt_local (connection_iter r c) = rt_local r"
    by (simp_all add: s(1) d advertise_fields)
  show "tx (connection_iter r c) d = tx r d @ (if d = c \<and> \<not> is_peer r c then advertisement (rt_local r) else [])"
    using advertise_tx [OF can, of c d] s(5) assms(2) by (cases "d = c") (simp_all add: s(1) d)
qed

text \<open>
  The exchange: the router that dialled greets and announces its mailboxes when its connection
  thread starts; the other one takes it for a peer, answers in kind, and learns; then so does the
  first.
\<close>

definition link_up :: "router \<Rightarrow> con \<Rightarrow> router \<Rightarrow> con \<Rightarrow> router \<times> router" where
  "link_up A pa B pb =
     (let A1 = connection_start A pa;
          B1 = rounds (Suc (length (rt_local A))) pb (arrived B pb (new_tx A A1 pa));
          A2 = rounds (Suc (length (rt_local B))) pa (arrived A1 pa (new_tx B B1 pb))
      in (A2, B1))"

lemma greeting_rounds:
  assumes "all_live r" and "c < length (rt_connections r)" and "rx r c = advertisement ms" and "4 \<le> rt_max_msg_size r"
  shows "took (set_peer r c) c [] (rounds (Suc (length ms)) c r)"
    and "rt_registry (rounds (Suc (length ms)) c r) = learned (rt_registry r) ms c"
    and "tx (rounds (Suc (length ms)) c r) d = tx r d @ (if d = c \<and> \<not> is_peer r c then advertisement (rt_local r) else [])"
proof -
  let ?r = "connection_iter r c" and ?ann = "concat (map register_frame ms)"
  note g = greeting_round [OF assms(1,2), of ?ann]
  have gt: "took (set_peer r c) c ?ann ?r" using g(1) assms(3) by (simp add: advertisement_def)
  note t = tookD [OF gt]
  have "took ?r c [] (rounds (length ms) c ?r) \<and> rt_registry (rounds (length ms) c ?r) = learned (rt_registry ?r) ms c \<and>
      rt_local (rounds (length ms) c ?r) = rt_local ?r \<and> (\<forall>d. tx (rounds (length ms) c ?r) d = tx ?r d)"
    using assms(2,4) t by (intro announcement_rounds) (simp_all add: is_peer_set_peer)
  moreover have "rounds (Suc (length ms)) c r = rounds (length ms) c ?r"
    by (simp only: rounds_def funpow_Suc_right o_apply)
  ultimately show "took (set_peer r c) c [] (rounds (Suc (length ms)) c r)"
    and "rt_registry (rounds (Suc (length ms)) c r) = learned (rt_registry r) ms c"
    and "tx (rounds (Suc (length ms)) c r) d = tx r d @ (if d = c \<and> \<not> is_peer r c then advertisement (rt_local r) else [])"
    using g t assms(2,3) by (simp_all add: advertisement_def took_def)
qed

lemma set_phase_simps [simp]:
  "rt_registry (set_phase r c p) = rt_registry r" "rt_local (set_phase r c p) = rt_local r"
  "length (rt_connections (set_phase r c p)) = length (rt_connections r)"
  "rt_max_msg_size (set_phase r c p) = rt_max_msg_size r" "socket_of (set_phase r c p) d = socket_of r d"
  "is_peer (set_phase r c p) d = is_peer r d"
  by (cases "d = c"; cases "c < length (rt_connections r)"; simp add: set_phase_def list_update_beyond)+

lemma link_up_registries:
  assumes "all_live A" and "pa < length (rt_connections A)" and "is_peer A pa" and "rx A pa = []"
    and "all_live B" and "pb < length (rt_connections B)" and "\<not> is_peer B pb" and "rx B pb = []"
    and "4 \<le> rt_max_msg_size A" and "4 \<le> rt_max_msg_size B" and "link_up A pa B pb = (A2, B1)"
  shows "rt_registry A2 = learned (rt_registry A) (rt_local B) pa"
    and "rt_registry B1 = learned (rt_registry B) (rt_local A) pb"
    and "all_live A2" and "all_live B1" and "is_peer A2 pa" and "is_peer B1 pb" and "rx A2 pa = []" and "rx B1 pb = []"
    and "pa < length (rt_connections A2)" and "pb < length (rt_connections B1)"
    and "rt_max_msg_size A2 = rt_max_msg_size A" and "rt_max_msg_size B1 = rt_max_msg_size B"
proof -
  define A1 where "A1 = connection_start A pa"
  have A1: "A1 = set_phase (advertise_as_peer A pa) pa Running" using assms(3) by (simp add: A1_def connection_start_def)
  note os = only_sent_advertise [of A pa, unfolded only_sent_def]
  have a1: "all_live A1" "length (rt_connections A1) = length (rt_connections A)" "is_peer A1 pa" "rx A1 pa = []"
    "rt_max_msg_size A1 = rt_max_msg_size A" "rt_registry A1 = rt_registry A" "rt_local A1 = rt_local A"
    using os assms(1-4) by (simp_all add: A1 all_live_def advertise_fields)
  have wa: "new_tx A A1 pa = advertisement (rt_local A)"
    using advertise_tx [OF all_live_can_send [OF assms(1)] assms(2), of pa] by (simp add: new_tx_def A1)
  let ?B = "arrived B pb (advertisement (rt_local A))"
  have B1: "B1 = rounds (Suc (length (rt_local A))) pb ?B"
    using assms(11) by (simp add: link_up_def Let_def wa flip: A1_def)
  have pre: "all_live ?B" "pb < length (rt_connections ?B)" "rx ?B pb = advertisement (rt_local A)"
    "4 \<le> rt_max_msg_size ?B" using assms(5-8,10) by simp_all
  note b = greeting_rounds [OF pre, folded B1]
  have wb: "new_tx B B1 pb = advertisement (rt_local B)" using b(3) [of pb] assms(7) by (simp add: new_tx_def)
  let ?A = "arrived A1 pa (advertisement (rt_local B))"
  have A2: "A2 = rounds (Suc (length (rt_local B))) pa ?A"
    using assms(11) by (simp add: link_up_def Let_def wa flip: A1_def B1) (simp add: wb)
  have pre': "all_live ?A" "pa < length (rt_connections ?A)" "rx ?A pa = advertisement (rt_local B)"
    "4 \<le> rt_max_msg_size ?A" using assms(2,9) a1 by simp_all
  note a = greeting_rounds [OF pre', folded A2]
  show "rt_registry A2 = learned (rt_registry A) (rt_local B) pa" using a(2) a1 by simp
  show "rt_registry B1 = learned (rt_registry B) (rt_local A) pb" using b(2) by simp
  show "all_live A2" "is_peer A2 pa" "rx A2 pa = []" "pa < length (rt_connections A2)" "rt_max_msg_size A2 = rt_max_msg_size A"
    using tookD [OF a(1)] pre'(2) a1 by (simp_all add: is_peer_set_peer)
  show "all_live B1" "is_peer B1 pb" "rx B1 pb = []" "pb < length (rt_connections B1)" "rt_max_msg_size B1 = rt_max_msg_size B"
    using tookD [OF b(1)] pre(2) by (simp_all add: is_peer_set_peer)
qed

text \<open>
  C29. The exchange at start-up makes the mailboxes of both routers reachable: when a router dials
  a peer and both serve what the other wrote on the link, each routes every mailbox of the other's
  local set to the link that it had no route for, keeps its own routes, holds the other for a
  peer, and no input is left over.
\<close>

theorem link_up_exchanges:
  assumes "all_live A" and "pa < length (rt_connections A)" and "is_peer A pa" and "rx A pa = []"
    and "all_live B" and "pb < length (rt_connections B)" and "\<not> is_peer B pb" and "rx B pb = []"
    and "4 \<le> rt_max_msg_size A" and "4 \<le> rt_max_msg_size B"
  shows "case link_up A pa B pb of (A2, B1) \<Rightarrow>
    (\<forall>m. rt_registry A2 m = (if rt_registry A m = None \<and> m \<in> set (rt_local B) then Some pa else rt_registry A m)) \<and>
    (\<forall>m. rt_registry B1 m = (if rt_registry B m = None \<and> m \<in> set (rt_local A) then Some pb else rt_registry B m)) \<and>
    is_peer A2 pa \<and> is_peer B1 pb \<and> rx A2 pa = [] \<and> rx B1 pb = []"
proof -
  obtain A2 B1 where l: "link_up A pa B pb = (A2, B1)" by fastforce
  show ?thesis using link_up_registries [OF assms l] by (simp add: l learned_def)
qed

definition ex_end :: "bool \<Rightarrow> registry \<Rightarrow> u32 list \<Rightarrow> router" where
  "ex_end peer t ms = (new_router 4096)\<lparr>rt_registry := t, rt_local := ms,
     rt_connections := [ex_connection False, ex_connection peer]\<rparr>"

lemma ex_end [simp]:
  "all_live (ex_end peer t ms)" "length (rt_connections (ex_end peer t ms)) = 2"
  "is_peer (ex_end peer t ms) (Suc 0) = peer" "rx (ex_end peer t ms) (Suc 0) = []"
  "rt_registry (ex_end peer t ms) = t" "rt_local (ex_end peer t ms) = ms" "rt_max_msg_size (ex_end peer t ms) = 4096"
  by (simp_all add: all_live_def ex_end_def ex_connection_def new_router_def less_Suc_eq ex_socket_def
      live_def can_recv_def can_send_def is_open_def numeral_2_eq_2)

theorem link_up_exchanges_witness:
  "case link_up (ex_end True [0x0101 \<mapsto> 0] [0x0101]) 1 (ex_end False [0x0202 \<mapsto> 0] [0x0202]) 1 of (A2, B1) \<Rightarrow>
     rt_registry A2 0x0202 = Some 1 \<and> rt_registry B1 0x0101 = Some 1"
  using link_up_exchanges [of "ex_end True [0x0101 \<mapsto> 0] [0x0101]" 1 "ex_end False [0x0202 \<mapsto> 0] [0x0202]" 1]
  by auto

section \<open>Stale mailboxes\<close>

text \<open>
  A connection that ends takes its mailboxes out of the registry but not out of the local set, so
  they are still announced to peers that link up later. If both routers hold the same stale
  mailbox, each learns it from the other, and a data frame for it goes back and forth for ever.
  One exchange of the loop: \<open>A\<close> serves its end of the link, then \<open>B\<close> its own.
\<close>

definition bounce :: "con \<Rightarrow> con \<Rightarrow> router \<times> router \<Rightarrow> router \<times> router" where
  "bounce pa pb = (\<lambda>(A, B).
     let A1 = connection_iter A pa;
         B1 = connection_iter (arrived B pb (new_tx A A1 pa)) pb
     in (arrived A1 pa (new_tx B B1 pb), B1))"

definition looping :: "frame_header \<Rightarrow> bytes \<Rightarrow> con \<Rightarrow> con \<Rightarrow> router \<times> router \<Rightarrow> bool" where
  "looping f body pa pb AB \<longleftrightarrow> all_live (fst AB) \<and> all_live (snd AB) \<and>
     pa < length (rt_connections (fst AB)) \<and> pb < length (rt_connections (snd AB)) \<and>
     length body \<le> rt_max_msg_size (fst AB) \<and> length body \<le> rt_max_msg_size (snd AB) \<and>
     rt_registry (fst AB) (fh_dest f) = Some pa \<and> rt_registry (snd AB) (fh_dest f) = Some pb \<and>
     rx (fst AB) pa = frame_bytes f @ body \<and> rx (snd AB) pb = []"

lemma bounce_loops:
  assumes "looping f body pa pb AB" and "data_message f body"
  shows "looping f body pa pb (bounce pa pb AB) \<and>
    tx (snd (bounce pa pb AB)) pb = tx (snd AB) pb @ frame_bytes f @ body"
proof -
  obtain A B where AB: "AB = (A, B)" by fastforce
  note l = assms(1) [unfolded AB looping_def fst_conv snd_conv]
  define A1 where "A1 = connection_iter A pa"
  have pre: "all_live A" "pa < length (rt_connections A)" "rx A pa = frame_bytes f @ body @ []" using l by simp_all
  have preA: "length body \<le> rt_max_msg_size A" "rt_registry A (fh_dest f) = Some pa" using l by simp_all
  note a = data_round [OF pre assms(2) preA pre(2), folded A1_def]
  have wa: "new_tx A A1 pa = frame_bytes f @ body" using a(4) [of pa] by (simp add: new_tx_def)
  let ?B = "arrived B pb (frame_bytes f @ body)"
  define B1 where "B1 = connection_iter ?B pb"
  have preB: "all_live ?B" "pb < length (rt_connections ?B)" "rx ?B pb = frame_bytes f @ body @ []"
    "length body \<le> rt_max_msg_size ?B" "rt_registry ?B (fh_dest f) = Some pb" using l by simp_all
  note b = data_round [OF preB(1-3) assms(2) preB(4,5,2), folded B1_def]
  have wb: "new_tx B B1 pb = frame_bytes f @ body" using b(4) [of pb] by (simp add: new_tx_def)
  have "bounce pa pb AB = (arrived A1 pa (frame_bytes f @ body), B1)"
    by (simp add: AB bounce_def Let_def wa wb flip: A1_def B1_def)
  then show ?thesis using tookD [OF a(1)] tookD [OF b(1)] a(2) b(2,4) pre(2) preB(2) l AB by (simp add: looping_def)
qed

lemma bounce_forever:
  assumes "looping f body pa pb AB" and "data_message f body"
  shows "looping f body pa pb ((bounce pa pb ^^ n) AB) \<and>
    tx (snd ((bounce pa pb ^^ n) AB)) pb = tx (snd AB) pb @ concat (replicate n (frame_bytes f @ body))"
proof (induction n)
  case (Suc n)
  with bounce_loops [OF conjunct1 [OF Suc] assms(2)] show ?case
    by (simp add: replicate_append_same [symmetric])
qed (simp add: assms(1))

text \<open>
  After two routers with a stale mailbox in common have linked up, the first data frame for it that
  crosses the link is forwarded back and forth without end: after every number of exchanges it is
  again waiting at \<open>A\<close>, having been written that many times by \<open>B\<close>.
\<close>

lemma stale_mailbox_loops:
  assumes "all_live A" and "pa < length (rt_connections A)" and "is_peer A pa" and "rx A pa = []"
    and "all_live B" and "pb < length (rt_connections B)" and "\<not> is_peer B pb" and "rx B pb = []"
    and "4 \<le> rt_max_msg_size A" and "4 \<le> rt_max_msg_size B"
    and "m \<in> set (rt_local A)" and "rt_registry A m = None" and "m \<in> set (rt_local B)" and "rt_registry B m = None"
    and "data_message f body" and "fh_dest f = m"
    and "length body \<le> rt_max_msg_size A" and "length body \<le> rt_max_msg_size B"
    and "link_up A pa B pb = (A2, B1)"
  shows "case (bounce pa pb ^^ n) (arrived A2 pa (frame_bytes f @ body), B1) of (A', B') \<Rightarrow>
    rx A' pa = frame_bytes f @ body \<and> tx B' pb = tx B1 pb @ concat (replicate n (frame_bytes f @ body))"
proof -
  note l = link_up_registries [OF assms(1-10,19)]
  have "looping f body pa pb (arrived A2 pa (frame_bytes f @ body), B1)"
    using l assms(11-18) by (simp add: looping_def learned_def)
  from bounce_forever [OF this assms(15), of n] show ?thesis
    by (auto simp: looping_def case_prod_beta)
qed

text \<open>Such stale mailboxes occur: a client that registers and disconnects leaves one behind.\<close>

lemma stale_mailbox_reachable: "\<exists>r. reachable r \<and> 0x0101 \<in> set (rt_local r) \<and> rt_registry r 0x0101 = None"
proof -
  let ?r = "connection_iter ex_accepted 0"
  have "step ?r (connection_exit ?r 0)" by (rule step.stop) code_simp+
  then have "reachable (connection_exit ?r 0)" by (rule reachable.more [OF ex_accepted_reachable])
  moreover have "0x0101 \<in> set (rt_local (connection_exit ?r 0)) \<and> rt_registry (connection_exit ?r 0) 0x0101 = None"
    by code_simp
  ultimately show ?thesis by blast
qed

end
