(* ===== verification/Request_Reply.thy ===== *)
theory Request_Reply
  imports Mailbox_Props Federation
begin

text \<open>
  A request and its reply between two typed mailboxes over the TiMS router: \<open>send\<close>,
  \<open>receive_any_for\<close> and \<open>send_reply\<close> of \<open>ipc/mailbox.hpp\<close>, the client back end and the router's
  connection threads in between. What one side writes arrives at the other.
\<close>

section \<open>Mailboxes on the wire\<close>

definition mb_arrived :: "tims_mailbox mailbox \<Rightarrow> bytes \<Rightarrow> tims_mailbox mailbox" where
  "mb_arrived mx bs = mx\<lparr>mx_tims := (mx_tims mx)\<lparr>tm_socket :=
     (tm_socket (mx_tims mx))\<lparr>sk_rx := sk_rx (tm_socket (mx_tims mx)) @ bs\<rparr>\<rparr>\<rparr>"

definition mb_new_tx :: "tims_mailbox mailbox \<Rightarrow> tims_mailbox mailbox \<Rightarrow> bytes" where
  "mb_new_tx mx mx' = drop (length (sk_tx (tm_socket (mx_tims mx)))) (sk_tx (tm_socket (mx_tims mx')))"

text \<open>A started mailbox with a working connection and nothing to read.\<close>

definition ready :: "tims_mailbox mailbox \<Rightarrow> bool" where
  "ready mx \<longleftrightarrow> mx_running mx \<and> tm_initialized (mx_tims mx) \<and> live (tm_socket (mx_tims mx)) \<and>
     sk_rx (tm_socket (mx_tims mx)) = []"

abbreviation box_addr :: "tims_mailbox mailbox \<Rightarrow> u32" where
  "box_addr mx \<equiv> cfg_mailbox_id (tm_config (mx_tims mx))"

lemma send_raw_keeps_live:
  assumes "send_raw a (Some d) dest = (SUCCESS, a')" and "live (tm_socket a)"
  shows "live (tm_socket a')" and "sk_rx (tm_socket a') = sk_rx (tm_socket a)"
    and "tm_initialized a' = tm_initialized a" and "tm_config a' = tm_config a"
proof -
  obtain s where s: "send_all (tm_socket a) (frame_bytes (data_frame a d dest)) = (True, s)" "live s"
    "sk_rx s = sk_rx (tm_socket a)" using live_send [OF assms(2)] .
  obtain s' where s': "send_all s d = (True, s')" "live s'" "sk_rx s' = sk_rx s" using live_send [OF s(2)] .
  have "a' = a\<lparr>tm_sequence_number := tm_sequence_number a + 1, tm_socket := s', tm_messages_sent := tm_messages_sent a + 1\<rparr>"
    using assms(1) s(1) s'(1) by (auto simp: send_raw_def Let_def data_frame_def split: if_splits)
  then show "live (tm_socket a')" "sk_rx (tm_socket a') = sk_rx (tm_socket a)"
    "tm_initialized a' = tm_initialized a" "tm_config a' = tm_config a" using s s' by simp_all
qed

text \<open>A typed send that succeeds puts one data frame on the wire.\<close>

lemma typed_send:
  assumes "mailbox_send (tims_ops swap) k ds t ser a msg dest = Done (Inr (), msg', a')" and "ready a"
  obtains m1 where "mb_new_tx a a' = frame_bytes (data_frame (mx_tims a) (ser m1) dest) @ ser m1" and "ser m1 \<noteq> []"
    and "wm_payload m1 = wm_payload msg" and "get_message_id ds t = Some (wh_msg_type (wm_header m1))"
    and "ready a'" and "box_addr a' = box_addr a"
proof -
  obtain m1 where m1: "send_raw (mx_tims a) (Some (ser m1)) dest = (SUCCESS, mx_tims a')"
    "wm_payload m1 = wm_payload msg" "get_message_id ds t = Some (wh_msg_type (wm_header m1))"
    using mailbox_send_tims [OF assms(1)] .
  have "mx_running a'" using assms by (auto simp: mailbox_send_def ready_def split: if_splits option.splits outcome.splits prod.splits)
  moreover have "mb_new_tx a a' = frame_bytes (data_frame (mx_tims a) (ser m1) dest) @ ser m1"
    using send_raw_success(2) [OF m1(1)] by (simp add: mb_new_tx_def)
  ultimately show thesis
    using that m1 send_raw_success(1) [OF m1(1)] send_raw_keeps_live [OF m1(1)] assms(2)
    by (simp add: ready_def)
qed

text \<open>What the other side makes of that frame.\<close>

lemma typed_receive:
  assumes "ready b" and "distinct (message_ids ds)" and "get_message_id ds t = Some (wh_msg_type (wm_header m1))"
    and "deser t (ser m1) = Some m1" and "take 32 (ser m1) = wire_header_bytes (wm_header m1)"
    and "length (ser m1) \<le> bufsize" and "bufsize + 16 < 2 ^ 32" and "\<And>bs. swap True bs = bs"
  obtains b' where "mailbox_receive_any_for (tims_ops swap) k ds deser bufsize
      (mb_arrived b (frame_bytes (data_frame a (ser m1) dest) @ ser m1)) timeout =
      Done (Inr (), Some (t, set_route (Some (cfg_mailbox_id (tm_config a), dest)) m1), b')"
    and "ready b'" and "box_addr b' = box_addr b" and "mx_config b' = mx_config b"
proof -
  let ?f = "data_frame a (ser m1) dest" and ?b = "mb_arrived b (frame_bytes (data_frame a (ser m1) dest) @ ser m1)"
  have h: "read_wire_header (ser m1) = wm_header m1" "32 \<le> length (ser m1)" using read_header_prefix assms(5) by blast+
  have ne: "ser m1 \<noteq> []" using h(2) by (cases "ser m1") simp_all
  have b: "live (tm_socket (mx_tims ?b))" "sk_rx (tm_socket (mx_tims ?b)) = frame_bytes ?f @ ser m1 @ []"
    "tm_initialized (mx_tims ?b)" "mx_running ?b"
    using assms(1) by (simp_all add: ready_def mb_arrived_def live_def can_recv_def can_send_def is_open_def)
  have f: "data_frame_ok ?f (ser m1)" using ne assms(6,7) by (intro data_frame_data_ok) simp_all
  obtain s where s: "live s" "sk_rx s = []"
    "receive_raw swap (mx_tims ?b) bufsize timeout = (int (length (ser m1)), ser m1, Some (frame_metadata ?f),
      (mx_tims ?b)\<lparr>tm_socket := s, tm_messages_received := tm_messages_received (mx_tims ?b) + 1\<rparr>)"
    using receive_loop_data [where swap = swap, OF b(1) f b(2) assms(8), of bufsize "timeout_ms timeout"] b(3) assms(6)
    by (auto simp: receive_raw_def live_open [OF b(1)])
  have v: "visit ds deser (wh_msg_type (wm_header m1)) (ser m1) = Some (t, m1)"
    by (rule visit_serialized [where ser = ser and deser = deser, OF assms(2,3,4)])
  let ?b' = "?b\<lparr>mx_tims := (mx_tims ?b)\<lparr>tm_socket := s, tm_messages_received := tm_messages_received (mx_tims ?b) + 1\<rparr>\<rparr>"
  have "mailbox_receive_any_for (tims_ops swap) k ds deser bufsize ?b timeout =
      Done (Inr (), Some (t, set_route (Some (cfg_mailbox_id (tm_config a), dest)) m1), ?b')"
    using b(4) s(3) h v ne
    by (simp add: mailbox_receive_any_for_def tims_ops_def tims_receive_bytes_def Let_def frame_metadata_def
        data_frame_def make_frame_def)
  moreover have "ready ?b'" using b s by (simp add: ready_def)
  ultimately show thesis using that by (simp add: mb_arrived_def)
qed

section \<open>Through the router\<close>

text \<open>A router that has both mailboxes, each on its own connection, with nothing in flight.\<close>

definition serves :: "router \<Rightarrow> u32 \<Rightarrow> con \<Rightarrow> u32 \<Rightarrow> con \<Rightarrow> bool" where
  "serves r m c n e \<longleftrightarrow> all_live r \<and> c < length (rt_connections r) \<and> e < length (rt_connections r) \<and> c \<noteq> e \<and>
     rx r c = [] \<and> rx r e = [] \<and> rt_registry r m = Some c \<and> rt_registry r n = Some e"

lemma leg:
  assumes "serves r m c n e" and "data_message f body" and "length body \<le> rt_max_msg_size r"
    and "fh_dest f = n" and "r1 = connection_iter (arrived r c (frame_bytes f @ body)) c"
  shows "new_tx r r1 e = frame_bytes f @ body" and "serves r1 n e m c" and "rt_max_msg_size r1 = rt_max_msg_size r"
proof -
  note v = assms(1) [unfolded serves_def]
  let ?r = "arrived r c (frame_bytes f @ body)"
  have pre: "all_live ?r" "c < length (rt_connections ?r)" "rx ?r c = frame_bytes f @ body @ []"
    "length body \<le> rt_max_msg_size ?r" "rt_registry ?r (fh_dest f) = Some e" "e < length (rt_connections ?r)"
    using v assms(3,4) by simp_all
  note d = data_round [OF pre(1-3) assms(2) pre(4-6), folded assms(5)]
  show "new_tx r r1 e = frame_bytes f @ body" using d(4) [of e] by (simp add: new_tx_def)
  show "serves r1 n e m c" "rt_max_msg_size r1 = rt_max_msg_size r"
    using tookD [OF d(1)] d(2) v by (simp_all add: serves_def)
qed

lemma data_frame_message: "length d + 16 < 2 ^ 32 \<Longrightarrow> data_message (data_frame a d dest) d"
  by (simp add: data_message_def)


text \<open>Mailbox 0x0202 sends the request type 0 to mailbox 0x0101, which answers with type 1.\<close>

definition ex_station :: "u32 \<Rightarrow> tims_mailbox mailbox" where
  "ex_station m = \<lparr>mx_config = default_mailbox_config m,
     mx_tims = ex_tims\<lparr>tm_config := (tm_config ex_tims)\<lparr>cfg_mailbox_id := m\<rparr>\<rparr>, mx_running = True\<rparr>"

definition ex_pair :: router where
  "ex_pair = ex_router\<lparr>rt_registry := [0x0101 \<mapsto> 1, 0x0202 \<mapsto> 0]\<rparr>"

lemma ex_station_ready: "ready (ex_station m)" "box_addr (ex_station m) = m"
  by (simp_all add: ready_def ex_station_def ex_tims_def new_tims_mailbox_def) (simp add: ex_socket_def)

lemma ex_pair_serves: "serves ex_pair 0x0202 0 0x0101 1"
  by (simp add: serves_def all_live_def ex_pair_def ex_router_def new_router_def ex_connection_def less_Suc_eq numeral_3_eq_3)
    (simp add: ex_socket_def)

abbreviation ex_send :: "(unit mailbox_result \<times> u32 wire_message \<times> tims_mailbox mailbox) outcome" where
  "ex_send \<equiv> mailbox_send ex_ops ex_answer ex_defs_explicit 0 ex_ser (ex_station 0x0202) ex_msg 0x0101"

definition ex_a1 :: "tims_mailbox mailbox" where
  "ex_a1 = (case ex_send of Done (_, _, mx) \<Rightarrow> mx | _ \<Rightarrow> ex_station 0)"

definition ex_r1 :: router where
  "ex_r1 = connection_iter (arrived ex_pair 0 (mb_new_tx (ex_station 0x0202) ex_a1)) 0"

abbreviation ex_receive :: "(unit mailbox_result \<times> (nat \<times> u32 wire_message) option \<times> tims_mailbox mailbox) outcome" where
  "ex_receive \<equiv> mailbox_receive_any_for ex_ops ex_answer ex_defs_explicit (\<lambda>_. ex_deser) 64
     (mb_arrived (ex_station 0x0101) (new_tx ex_pair ex_r1 1)) (milliseconds 1)"


end
