(* ===== verification/Evl_Typed.thy ===== *)
theory Evl_Typed
  imports Mailbox_Props
begin

text \<open>
  The typed mailbox of \<open>ipc/mailbox.hpp\<close> over the EVL back end, two local mailboxes of one process:
  \<open>send\<close> on one, \<open>receive_any_for\<close> on the other, through the directory and the ring.
\<close>

section \<open>The raw path\<close>

abbreviation box_priority :: "world \<Rightarrow> nat \<Rightarrow> i8" where
  "box_priority w a \<equiv> ucast (cfg_priority (eb_config (w_box w a)))"

lemma set_ring_local:
  assumes "eb_mode (w_box w b) = Local"
  shows "eb_mode (w_box (set_ring b r w) c) = eb_mode (w_box w c)" "eb_config (w_box (set_ring b r w) c) = eb_config (w_box w c)"
    "eb_created (w_box (set_ring b r w) c) = eb_created (w_box w c)"
  using assms by (simp_all add: set_ring_def)

text \<open>A message for a ring with a free slot is in it afterwards; nothing else about the mailboxes changes.\<close>

lemma local_send_free:
  assumes "eb_mode (w_box w a) = Local" and "d \<noteq> []" and "length d \<le> cfg_max_msg_size (eb_config (w_box w a))"
    and "local_target w a dest = Some b" and "eb_mode (w_box w b) = Local" and "ring_ok (ring_of w b)"
    and "length d \<le> rg_slot_size (ring_of w b)" and "size (contents (ring_of w b)) < rg_capacity (ring_of w b)"
  obtains w' where "evl_send_raw ans w a (Some d) dest p = Done (SUCCESS, w')" and "ring_ok (ring_of w' b)"
    and "contents (ring_of w' b) = contents (ring_of w b) + {#(p, box_id w a, d)#}"
    and "\<And>c. eb_mode (w_box w' c) = eb_mode (w_box w c)" and "\<And>c. eb_config (w_box w' c) = eb_config (w_box w c)"
    and "\<And>c. eb_created (w_box w' c) = eb_created (w_box w c)"
proof -
  obtain r' where r': "post (ring_of w b) d p (box_id w a) = Some (True, r')" "ring_ok r'"
    "contents r' = contents (ring_of w b) + {#(p, box_id w a, d)#}"
    using ring_box.put_free [OF assms(6-8), of p "box_id w a"] by blast
  let ?w = "count_sent a (set_ring b r' w)"
  have "evl_send_raw ans w a (Some d) dest p = Done (SUCCESS, ?w)"
    using assms(1-4) r'(1) by (simp add: evl_send_raw_def send_local_def post_local_def)
  moreover have "eb_mode (w_box ?w c) = eb_mode (w_box w c)" "eb_config (w_box ?w c) = eb_config (w_box w c)"
    "eb_created (w_box ?w c) = eb_created (w_box w c)" for c
    using set_ring_local [OF assms(5), of r' c] by (cases "c = a"; simp add: count_sent_def)+
  moreover have "ring_ok (ring_of ?w b)" "contents (ring_of ?w b) = contents (ring_of w b) + {#(p, box_id w a, d)#}"
    using r' by simp_all
  ultimately show thesis by (intro that)
qed

section \<open>The typed path\<close>

text \<open>
  C35. Typed messages within a process: a message of a registered type that one local mailbox
  sends to another whose ring has a free slot is accepted, and if nothing as urgent waits there,
  the receiver's next \<open>receive_any_for\<close> calls the visitor with that type and payload, the sender
  as source and the receiver as destination, and the ring is as it was before. It rests on what
  the serialisation library promises, on ids that do not collide, and on messages that fit.
\<close>

theorem typed_local_delivery:
  assumes "mx_running mx" and "mx_tims mx = w" and "eb_created (w_box w a)" and "eb_mode (w_box w a) = Local"
    and "dest \<noteq> 0" and "local_target w a dest = Some b" and "eb_mode (w_box w b) = Local" and "ring_ok (ring_of w b)"
    and "size (contents (ring_of w b)) < rg_capacity (ring_of w b)"
    and "\<forall>m \<in># contents (ring_of w b). msg_prio m < sint (box_priority w a) \<and> length (snd (snd m)) \<le> bufsize"
    and "sint (box_priority w a) \<noteq> -128"
    and "get_message_id ds t = Some i" and "distinct (message_ids ds)" and "\<And>m. deser t (ser m) = Some m"
    and "\<And>m. take 32 (ser m) = wire_header_bytes (wm_header m)"
    and "\<And>m. length (ser m) \<le> cfg_max_msg_size (eb_config (w_box w a)) \<and> length (ser m) \<le> rg_slot_size (ring_of w b) \<and>
      length (ser m) \<le> bufsize"
    and "mx_running mb"
  shows "\<exists>msg' mx' m mb'. mailbox_send (evl_ops a) k ds t ser mx msg dest = Done (Inr (), msg', mx') \<and>
    mailbox_receive_any_for (evl_ops b) k' ds deser bufsize (mb\<lparr>mx_tims := mx_tims mx'\<rparr>) timeout =
      Done (Inr (), Some (t, m), mb') \<and>
    wm_payload m = wm_payload msg \<and> wh_msg_type (wm_header m) = i \<and>
    wh_src (wm_header m) = box_id w a \<and> wh_dest (wm_header m) = dest \<and>
    contents (ring_of (mx_tims mb') b) = contents (ring_of w b)"
proof -
  obtain ia sa env where k: "k = (ia, sa, env)" by (cases k)
  obtain ia' sa' env' where k': "k' = (ia', sa', env')" by (cases k')
  obtain view m0 where ser: "registry_serialize ds t ser msg = Some (view, m0)"
    using assms(12) by (cases "serialize (Some i) ser msg") (auto simp: registry_serialize_def)
  then have m0: "wm_payload m0 = wm_payload msg" "wh_msg_type (wm_header m0) = i"
    using assms(12) by (auto simp: registry_serialize_def serialize_def Let_def split: option.splits)
  obtain d m1 where m1: "serialize None ser m0 = (d, m1)" by fastforce
  obtain m2 where m2: "d = ser m2" "wm_payload m2 = wm_payload msg" "wh_msg_type (wm_header m2) = i"
    using m1 m0 by (auto simp: serialize_def Let_def)
  have h: "read_wire_header (ser m2) = wm_header m2" "32 \<le> length (ser m2)" using read_header_prefix assms(15) by blast+
  have ne: "d \<noteq> []" using h(2) m2(1) by (cases d) auto
  let ?p = "box_priority w a"
  obtain w' where w': "evl_send_raw sa w a (Some d) dest ?p = Done (SUCCESS, w')" "ring_ok (ring_of w' b)"
    "contents (ring_of w' b) = contents (ring_of w b) + {#(?p, box_id w a, d)#}"
    "eb_mode (w_box w' b) = Local" "eb_config (w_box w' b) = eb_config (w_box w b)" "eb_created (w_box w' b) = eb_created (w_box w b)"
    using local_send_free [OF assms(4) ne _ assms(6,7,8) _ assms(9), of sa ?p] assms(16) [of m2] m2(1) assms(7) by metis
  have send: "mailbox_send (evl_ops a) k ds t ser mx msg dest = Done (Inr (), m1, mx\<lparr>mx_tims := w'\<rparr>)"
    using assms(1-3,5) ser m1 w'(1) by (simp add: mailbox_send_def ipc_send_def evl_ops_def k)
  have dest: "box_id w b = dest" and created: "eb_created (w_box w b)" using local_target_SomeD [OF assms(6)] by auto
  have "\<exists>m \<in># contents (ring_of w' b). msg_prio m \<noteq> -128" "\<forall>m \<in># contents (ring_of w' b). length (snd (snd m)) \<le> bufsize"
    using w'(3) assms(10,11,16) m2(1) by auto
  then obtain p src bs meta w'' where r: "receive_impl env' b bufsize timeout w' = Done (int (length bs), bs, Some meta, w'')"
    "(p, src, bs) \<in># contents (ring_of w' b)" "\<forall>m \<in># contents (ring_of w' b). msg_prio m \<le> sint p"
    "contents (ring_of w'' b) = contents (ring_of w' b) - {#(p, src, bs)#}" "em_src meta = src" "em_dest meta = box_id w' b"
    using local_receive_result [OF w'(4) _ w'(2), of bufsize env' timeout] created w'(6) by blast
  have eq: "(p, src, bs) = (?p, box_id w a, d)"
  proof (rule ccontr)
    assume "(p, src, bs) \<noteq> (?p, box_id w a, d)"
    then have "(p, src, bs) \<in># contents (ring_of w b)" using r(2) w'(3) by auto
    then have "sint p < sint ?p" using assms(10) by auto
    moreover have "sint ?p \<le> sint p" using r(3) w'(3) by auto
    ultimately show False by simp
  qed
  have v: "visit ds deser i (ser m2) = Some (t, m2)"
    using visit_serialized [where ser = ser and deser = deser and m = m2 and t = t, OF assms(13) _ assms(14)] assms(12) m2(3) by simp
  have "mailbox_receive_any_for (evl_ops b) k' ds deser bufsize (mb\<lparr>mx_tims := w'\<rparr>) timeout =
      Done (Inr (), Some (t, set_route (Some (box_id w a, dest)) m2), mb\<lparr>mx_tims := w''\<rparr>)"
    using assms(17) r(1,5,6) eq h v ne m2 dest w'(5)
    by (simp add: mailbox_receive_any_for_def evl_ops_def evl_receive_bytes_def k' Let_def)
  then show ?thesis
    using send m2 r(4) w'(3) eq by (intro exI [of _ m1] exI [of _ "mx\<lparr>mx_tims := w'\<rparr>"]
        exI [of _ "set_route (Some (box_id w a, dest)) m2"] exI [of _ "mb\<lparr>mx_tims := w''\<rparr>"]) (simp add: set_route_def)
qed

text \<open>Mailbox 0x0101 sends type 4 to mailbox 0x0202 of the same process, whose ring is empty.\<close>

definition ex_evl_box :: "u32 \<Rightarrow> evl_mailbox" where
  "ex_evl_box mid = (ex_box mid)\<lparr>eb_config := (eb_config (ex_box mid))\<lparr>cfg_max_msg_size := 64\<rparr>,
     eb_ring := allocate_heap 2 64\<rparr>"

definition ex_evl_world :: world where
  "ex_evl_world = ex_world\<lparr>w_box := (\<lambda>i. if i = 0 then ex_evl_box 0x0101 else ex_evl_box 0x0202)\<rparr>"

definition ex_evl_mailbox :: "u32 \<Rightarrow> world mailbox" where
  "ex_evl_mailbox mid = \<lparr>mx_config = default_mailbox_config mid, mx_tims = ex_evl_world, mx_running = True\<rparr>"

theorem typed_local_delivery_witness:
  "\<exists>msg' mx' m mb'. mailbox_send (evl_ops 0) (ex_init, ex_sa, ex_env) ex_registry 4 ex_ser (ex_evl_mailbox 0x0101) ex_msg 0x0202 =
      Done (Inr (), msg', mx') \<and>
    mailbox_receive_any_for (evl_ops 1) (ex_init, ex_sa, ex_env) ex_registry (\<lambda>_. ex_deser) 64
      ((ex_evl_mailbox 0x0202)\<lparr>mx_tims := mx_tims mx'\<rparr>) (milliseconds 1) = Done (Inr (), Some (4, m), mb') \<and>
    wm_payload m = 9 \<and> wh_src (wm_header m) = 0x0101"
proof -
  have "get_message_id ex_registry 4 \<noteq> None" by code_simp
  then obtain i where i: "get_message_id ex_registry 4 = Some i" by blast
  have ids: "distinct (message_ids ex_registry)" by code_simp
  have t: "local_target ex_evl_world 0 0x0202 = Some 1"
    using ex_world_target by (auto simp: local_target_def ex_world_def ex_evl_world_def ex_evl_box_def ex_box_def
        new_evl_mailbox_def split: option.splits if_splits)
  have h: "take 32 (ex_ser m) = wire_header_bytes (wm_header m)" "length (ex_ser m) = 36" for m by (simp_all add: ex_ser_def)
  have facts: "eb_created (w_box ex_evl_world 0)" "eb_mode (w_box ex_evl_world 0) = Local" "eb_mode (w_box ex_evl_world 1) = Local"
    "ring_of ex_evl_world 1 = allocate_heap 2 64" "box_priority ex_evl_world 0 = 0" "box_id ex_evl_world 0 = 0x0101"
    "cfg_max_msg_size (eb_config (w_box ex_evl_world 0)) = 64"
    by (simp_all add: ex_evl_world_def ex_evl_box_def ex_box_def new_evl_mailbox_def default_ipc_config_def ring_of_def)
  have r: "ring_ok (allocate_heap 2 64)" "contents (allocate_heap 2 64) = {#}" "rg_capacity (allocate_heap 2 64) = 2"
    "rg_slot_size (allocate_heap 2 64) = 64"
    using heap_ok [of 64 2] heap_empty [of 2 64] by (simp_all add: allocate_heap_def)
  show ?thesis
    using typed_local_delivery [where mx = "ex_evl_mailbox 0x0101" and mb = "ex_evl_mailbox 0x0202" and w = ex_evl_world and a = 0
        and b = 1 and dest = "0x0202" and ds = ex_registry and t = 4 and deser = "\<lambda>_. ex_deser" and ser = ex_ser and bufsize = 64
        and k = "(ex_init, ex_sa, ex_env)" and k' = "(ex_init, ex_sa, ex_env)" and msg = ex_msg and timeout = "milliseconds 1"]
      i ids t h facts r ex_deser_ser
    by (auto simp: ex_evl_mailbox_def ex_msg_def)
qed

end
