(* ===== verification/Threading.thy ===== *)
theory Threading
  imports Ownership Clock Protocol
begin

text \<open>
  \<open>Thread\<close> and \<open>ConditionVariable\<close> of \<open>include/corerat/platform/\<close>, both back ends. The kernel's
  threads are a list: a thread is \<open>Attached\<close> from its creation until it is joined or detached,
  and carries what it asks of the system while it runs, in order. The scheduler and the EVL core
  are parameters: whether a thread can be created, and what \<open>evl_attach_self\<close> answers.
\<close>

section \<open>Configuration\<close>

datatype thread_priority = P_IDLE | P_LOW | P_NORMAL | P_HIGH | P_REALTIME

fun prio_value :: "thread_priority \<Rightarrow> nat" where
  "prio_value P_IDLE = 0"
| "prio_value P_LOW = 10"
| "prio_value P_NORMAL = 50"
| "prio_value P_HIGH = 75"
| "prio_value P_REALTIME = 99"

datatype scheduling_policy = S_NORMAL | S_FIFO | S_ROUND_ROBIN | S_DEADLINE

record thread_config =
  tc_name :: string
  tc_priority :: thread_priority
  tc_policy :: scheduling_policy
  tc_cpu_affinity :: int
  tc_stack_size :: nat

definition default_thread_config :: thread_config where
  "default_thread_config = \<lparr>tc_name = ''unnamed'', tc_priority = P_NORMAL, tc_policy = S_NORMAL,
     tc_cpu_affinity = -1, tc_stack_size = 0\<rparr>"

datatype cv_status = NO_TIMEOUT | TIMEOUT

section \<open>The kernel's threads\<close>

datatype sched_class = SCHED_OTHER | SCHED_FIFO | SCHED_RR

datatype thread_request = Set_name string | Set_sched sched_class nat | Set_affinity int
  | Evl_attach string | Evl_get_self | Evl_schedattr sched_class nat | Evl_thread_mode
  | Stderr_write string nat | Run_func | Evl_detach

datatype thread_state = Attached | Joined | Detached

record os_thread =
  ot_state :: thread_state
  ot_stack :: nat
  ot_body :: "thread_request list"

type_synonym thread_os = "os_thread list"

definition live_threads :: "thread_os \<Rightarrow> nat set" where
  "live_threads w = {i. i < length w \<and> ot_state (w ! i) = Attached}"

definition sys_create :: "nat \<Rightarrow> thread_request list \<Rightarrow> thread_os \<Rightarrow> nat \<times> thread_os" where
  "sys_create stack body w = (length w, w @ [\<lparr>ot_state = Attached, ot_stack = stack, ot_body = body\<rparr>])"

definition sys_join :: "nat \<Rightarrow> thread_os \<Rightarrow> thread_os" where
  "sys_join i w = w[i := (w ! i)\<lparr>ot_state := Joined\<rparr>]"

definition sys_detach :: "nat \<Rightarrow> thread_os \<Rightarrow> thread_os" where
  "sys_detach i w = w[i := (w ! i)\<lparr>ot_state := Detached\<rparr>]"

section \<open>The standard back end\<close>

record std_thread =
  th_config :: thread_config
  th_thread :: "nat option"

definition std_apply_config :: "thread_config \<Rightarrow> thread_request list" where
  "std_apply_config cfg =
     (if tc_name cfg \<noteq> [] then [Set_name (c_string (take 15 (tc_name cfg)))] else []) @
     (if tc_policy cfg \<noteq> S_NORMAL \<or> tc_priority cfg \<noteq> P_NORMAL
      then [Set_sched (case tc_policy cfg of S_FIFO \<Rightarrow> SCHED_FIFO | S_ROUND_ROBIN \<Rightarrow> SCHED_RR
                       | _ \<Rightarrow> SCHED_OTHER) (prio_value (tc_priority cfg))]
      else []) @
     (if tc_cpu_affinity cfg \<ge> 0 then [Set_affinity (tc_cpu_affinity cfg)] else [])"

definition std_thread_new :: "thread_config \<Rightarrow> std_thread" where
  "std_thread_new cfg = \<lparr>th_config = cfg, th_thread = None\<rparr>"

definition std_joinable :: "std_thread \<Rightarrow> bool" where
  "std_joinable t \<longleftrightarrow> th_thread t \<noteq> None"

text \<open>
  Creating a \<open>std::thread\<close>: it throws (\<open>False\<close>) when the system refuses; \<open>spawned\<close> is its
  answer. Both \<open>start\<close> and the constructor use it, with the default stack.
\<close>

definition std_start :: "bool \<Rightarrow> std_thread \<Rightarrow> thread_os \<Rightarrow> bool \<times> std_thread \<times> thread_os" where
  "std_start spawned t w =
     (if std_joinable t then (True, t, w)
      else if \<not> spawned then (False, t, w)
      else case sys_create 0 (std_apply_config (th_config t) @ [Run_func]) w of (i, w') \<Rightarrow>
             (True, t\<lparr>th_thread := Some i\<rparr>, w'))"

definition std_start_config ::
  "thread_config \<Rightarrow> bool \<Rightarrow> std_thread \<Rightarrow> thread_os \<Rightarrow> bool \<times> std_thread \<times> thread_os" where
  "std_start_config cfg spawned t w = std_start spawned (t\<lparr>th_config := cfg\<rparr>) w"

definition std_construct ::
  "thread_config \<Rightarrow> bool \<Rightarrow> thread_os \<Rightarrow> (std_thread \<times> thread_os) option" where
  "std_construct cfg spawned w =
     (if spawned then case sys_create 0 (std_apply_config cfg @ [Run_func]) w of (i, w') \<Rightarrow>
          Some (\<lparr>th_config = cfg, th_thread = Some i\<rparr>, w')
      else None)"

definition std_join :: "std_thread \<Rightarrow> thread_os \<Rightarrow> std_thread \<times> thread_os" where
  "std_join t w = (case th_thread t of None \<Rightarrow> (t, w) | Some i \<Rightarrow> (t\<lparr>th_thread := None\<rparr>, sys_join i w))"

definition std_detach :: "std_thread \<Rightarrow> thread_os \<Rightarrow> std_thread \<times> thread_os" where
  "std_detach t w =
     (case th_thread t of None \<Rightarrow> (t, w) | Some i \<Rightarrow> (t\<lparr>th_thread := None\<rparr>, sys_detach i w))"

definition std_destroy :: "std_thread \<Rightarrow> thread_os \<Rightarrow> std_thread \<times> thread_os" where
  "std_destroy t w = (if std_joinable t then std_join t w else (t, w))"

text \<open>
  The members of a moved-from configuration keep their values but for the name, which the
  \<open>std::string\<close> of libstdc++ leaves empty.
\<close>

definition std_move_construct :: "std_thread \<Rightarrow> std_thread \<times> std_thread" where
  "std_move_construct other = (other, \<lparr>th_config = (th_config other)\<lparr>tc_name := []\<rparr>, th_thread = None\<rparr>)"

definition std_move_assign ::
  "std_thread \<Rightarrow> std_thread \<Rightarrow> thread_os \<Rightarrow> std_thread \<times> std_thread \<times> thread_os" where
  "std_move_assign t other w =
     (case (if std_joinable t then std_join t w else (t, w)) of (t1, w1) \<Rightarrow>
        (t1\<lparr>th_config := th_config other, th_thread := th_thread other\<rparr>,
         \<lparr>th_config = (th_config other)\<lparr>tc_name := []\<rparr>, th_thread = None\<rparr>, w1))"

section \<open>The EVL back end\<close>

record evl_thread =
  et_config :: thread_config
  et_posix_thread :: nat
  et_joinable :: bool

definition EBUSY :: int where "EBUSY = 16"
definition EEXIST :: int where "EEXIST = 17"
definition ENOMEM :: int where "ENOMEM = 12"

text \<open>What the system answers the new thread: its thread id, and the two EVL calls.\<close>

record evl_answers =
  ea_tid :: nat
  ea_attach :: int
  ea_get_self :: int

definition evl_thread_name :: "thread_config \<Rightarrow> nat \<Rightarrow> string" where
  "evl_thread_name cfg tid =
     (let cfg_name = (if tc_name cfg = [] then ''thread'' else tc_name cfg)
      in snd (snprintf 64 (''corerat-'' @ c_string (take 40 cfg_name) @ '':'' @ decimal_nat tid)))"

definition attach_reason :: "int \<Rightarrow> string" where
  "attach_reason efd =
     (if efd = - EPERM then ''EVL core unavailable or no permission''
      else if efd = - EEXIST then ''name already registered (duplicate thread name in EVL core)''
      else if efd = - ENOMEM then ''kernel out of memory''
      else ''unknown error'')"

text \<open>
  The message of a failed attachment: the characters stored in the buffer of 160, and the number
  of characters \<open>write(2)\<close> is told to read from it.
\<close>

definition attach_message :: "string \<Rightarrow> int \<Rightarrow> string \<times> nat" where
  "attach_message name efd =
     (case snprintf 160 (''[corerat] evl_attach_self('' @ [char_of (34 :: nat)] @ name @
        [char_of (34 :: nat)] @ '') = '' @ decimal_int efd @ '': '' @ attach_reason efd @
        '' -- thread will run in-band, OOB sleep disabled'' @ [char_of (10 :: nat)]) of
      (n, ebuf) \<Rightarrow> (ebuf, n))"

definition evl_thread_entry :: "thread_config \<Rightarrow> evl_answers \<Rightarrow> thread_request list" where
  "evl_thread_entry cfg a =
     (let name = evl_thread_name cfg (ea_tid a);
          busy = (ea_attach a = - EBUSY);
          efd = (if busy then ea_get_self a else ea_attach a)
      in [Evl_attach name] @ (if busy then [Evl_get_self] else []) @
         (if efd \<ge> 0
          then (if tc_priority cfg \<noteq> P_IDLE
                then [Evl_schedattr SCHED_FIFO (prio_value (tc_priority cfg))] else []) @ [Evl_thread_mode]
          else case attach_message name efd of (ebuf, n) \<Rightarrow> [Stderr_write ebuf n]) @
         (if tc_cpu_affinity cfg \<ge> 0 then [Set_affinity (tc_cpu_affinity cfg)] else []) @
         [Run_func] @ (if efd \<ge> 0 then [Evl_detach] else []))"

definition evl_thread_new :: "thread_config \<Rightarrow> evl_thread" where
  "evl_thread_new cfg = \<lparr>et_config = cfg, et_posix_thread = 0, et_joinable = False\<rparr>"

text \<open>\<open>start\<close>: a failed \<open>pthread_create\<close> (\<open>ret\<close> not zero) is not reported to the caller.\<close>

definition evl_start :: "int \<Rightarrow> evl_answers \<Rightarrow> evl_thread \<Rightarrow> thread_os \<Rightarrow> evl_thread \<times> thread_os" where
  "evl_start ret a t w =
     (if et_joinable t then (t, w)
      else if ret \<noteq> 0 then (t, w)
      else case sys_create (tc_stack_size (et_config t)) (evl_thread_entry (et_config t) a) w of (i, w') \<Rightarrow>
             (t\<lparr>et_posix_thread := i, et_joinable := True\<rparr>, w'))"

definition evl_start_config ::
  "thread_config \<Rightarrow> int \<Rightarrow> evl_answers \<Rightarrow> evl_thread \<Rightarrow> thread_os \<Rightarrow> evl_thread \<times> thread_os" where
  "evl_start_config cfg ret a t w = evl_start ret a (t\<lparr>et_config := cfg\<rparr>) w"

definition evl_construct ::
  "thread_config \<Rightarrow> int \<Rightarrow> evl_answers \<Rightarrow> thread_os \<Rightarrow> evl_thread \<times> thread_os" where
  "evl_construct cfg ret a w = evl_start ret a (evl_thread_new cfg) w"

definition evl_join :: "evl_thread \<Rightarrow> thread_os \<Rightarrow> evl_thread \<times> thread_os" where
  "evl_join t w =
     (if et_joinable t then (t\<lparr>et_joinable := False\<rparr>, sys_join (et_posix_thread t) w) else (t, w))"

definition evl_detach :: "evl_thread \<Rightarrow> thread_os \<Rightarrow> evl_thread \<times> thread_os" where
  "evl_detach t w =
     (if et_joinable t then (t\<lparr>et_joinable := False\<rparr>, sys_detach (et_posix_thread t) w) else (t, w))"

definition evl_destroy :: "evl_thread \<Rightarrow> thread_os \<Rightarrow> evl_thread \<times> thread_os" where
  "evl_destroy t w = (if et_joinable t then evl_join t w else (t, w))"

definition evl_move_construct :: "evl_thread \<Rightarrow> evl_thread \<times> evl_thread" where
  "evl_move_construct other =
     (other, other\<lparr>et_config := (et_config other)\<lparr>tc_name := []\<rparr>, et_joinable := False\<rparr>)"

definition evl_move_assign ::
  "evl_thread \<Rightarrow> evl_thread \<Rightarrow> thread_os \<Rightarrow> evl_thread \<times> evl_thread \<times> thread_os" where
  "evl_move_assign t other w =
     (case (if et_joinable t then evl_join t w else (t, w)) of (t1, w1) \<Rightarrow>
        (t1\<lparr>et_config := et_config other, et_posix_thread := et_posix_thread other,
            et_joinable := et_joinable other\<rparr>,
         other\<lparr>et_config := (et_config other)\<lparr>tc_name := []\<rparr>, et_joinable := False\<rparr>, w1))"

section \<open>The EVL condition variable\<close>

text \<open>
  The caller's predicate is the sequence \<open>pred\<close> of the values its evaluations give, \<open>ret\<close> the
  answers of the event waits. A wait may return early any number of times, so the loops need not
  end.
\<close>

definition evl_deadline :: "timespec \<Rightarrow> duration \<Rightarrow> timespec" where
  "evl_deadline now timeout =
     (let deadline_ns = tv_sec now * 1000000000 + tv_nsec now + count_ns timeout
      in \<lparr>tv_sec = deadline_ns sdiv 1000000000, tv_nsec = deadline_ns smod 1000000000\<rparr>)"

definition evl_wait_for :: "int \<Rightarrow> cv_status" where
  "evl_wait_for ret = (if ret = - ETIMEDOUT then TIMEOUT else NO_TIMEOUT)"

text \<open>\<open>wait\<close> with a predicate: the number of waits it took.\<close>

partial_function (option) evl_wait_pred :: "(nat \<Rightarrow> bool) \<Rightarrow> nat \<Rightarrow> nat option" where
  "evl_wait_pred pred k = (if pred k then Some k else evl_wait_pred pred (Suc k))"

partial_function (option) evl_wait_loop :: "(nat \<Rightarrow> bool) \<Rightarrow> (nat \<Rightarrow> int) \<Rightarrow> nat \<Rightarrow> bool option" where
  "evl_wait_loop pred ret k =
     (if pred (Suc k) then Some True
      else if ret k = - ETIMEDOUT then Some (pred (Suc (Suc k)))
      else evl_wait_loop pred ret (Suc k))"

definition evl_wait_for_pred :: "(nat \<Rightarrow> bool) \<Rightarrow> (nat \<Rightarrow> int) \<Rightarrow> bool option" where
  "evl_wait_for_pred pred ret = (if pred 0 then Some True else evl_wait_loop pred ret 0)"

section \<open>Thread ownership\<close>

lemma live_create: "live_threads (snd (sys_create st b w)) = insert (length w) (live_threads w)"
  by (auto simp: live_threads_def sys_create_def nth_append)

lemma length_not_live [simp]: "length w \<notin> live_threads w"
  by (simp add: live_threads_def)

lemma live_retire:
  assumes "i \<in> live_threads w"
  shows "live_threads (sys_join i w) = live_threads w - {i}"
    and "live_threads (sys_detach i w) = live_threads w - {i}"
proof -
  have *: "live_threads (w[i := x]) = live_threads w - {i}" if "ot_state x \<noteq> Attached" for x
  proof (rule set_eqI)
    fix j
    show "j \<in> live_threads (w[i := x]) \<longleftrightarrow> j \<in> live_threads w - {i}"
      using assms that by (cases "j = i") (auto simp: live_threads_def)
  qed
  show "live_threads (sys_join i w) = live_threads w - {i}"
    and "live_threads (sys_detach i w) = live_threads w - {i}"
    by (simp_all add: sys_join_def sys_detach_def *)
qed

definition std_owned :: "std_thread \<Rightarrow> nat set" where
  "std_owned t = set_option (th_thread t)"

definition std_thread_fresh :: "std_thread set" where
  "std_thread_fresh = range std_thread_new"

definition std_thread_ops :: "(std_thread \<Rightarrow> thread_os \<Rightarrow> std_thread \<times> thread_os) set" where
  "std_thread_ops = range (\<lambda>sp t w. snd (std_start sp t w)) \<union>
     range (\<lambda>(cfg, sp) t w. snd (std_start_config cfg sp t w)) \<union> {std_join, std_detach, std_destroy}"

definition evl_owned :: "evl_thread \<Rightarrow> nat set" where
  "evl_owned t = (if et_joinable t then {et_posix_thread t} else {})"

definition evl_thread_fresh :: "evl_thread set" where
  "evl_thread_fresh = range evl_thread_new"

definition evl_thread_ops :: "(evl_thread \<Rightarrow> thread_os \<Rightarrow> evl_thread \<times> thread_os) set" where
  "evl_thread_ops = range (\<lambda>(ret, a). evl_start ret a) \<union>
     range (\<lambda>(cfg, ret, a). evl_start_config cfg ret a) \<union> {evl_join, evl_detach, evl_destroy}"

text \<open>What one operation does to the resources: it trades those of the object for new ones.\<close>

definition trades :: "nat set \<Rightarrow> nat set \<Rightarrow> thread_os \<Rightarrow> thread_os \<Rightarrow> bool" where
  "trades old new w w' \<longleftrightarrow>
     live_threads w' = (live_threads w - old) \<union> new \<and> new \<inter> (live_threads w - old) = {}"

lemma std_start_trades:
  assumes "std_owned t \<subseteq> live_threads w" and "snd (std_start sp t w) = (t', w')"
  shows "trades (std_owned t) (std_owned t') w w'"
proof (cases "std_joinable t \<or> \<not> sp")
  case True
  with assms have "t' = t" "w' = w" by (auto simp: std_start_def split: if_splits)
  with assms(1) show ?thesis by (auto simp: trades_def)
next
  case False
  define c where "c = sys_create 0 (std_apply_config (th_config t) @ [Run_func]) w"
  from False assms(2) have "t' = t\<lparr>th_thread := Some (length w)\<rparr>" "w' = snd c"
    by (auto simp: std_start_def c_def sys_create_def)
  moreover have "live_threads (snd c) = insert (length w) (live_threads w)"
    unfolding c_def by (rule live_create)
  ultimately show ?thesis using False by (simp add: trades_def std_owned_def std_joinable_def)
qed

lemma std_retire_trades:
  assumes "std_owned t \<subseteq> live_threads w"
    and "std_join t w = (t', w') \<or> std_detach t w = (t', w') \<or> std_destroy t w = (t', w')"
  shows "trades (std_owned t) (std_owned t') w w'"
  using assms
  by (cases "th_thread t")
    (auto simp: trades_def std_join_def std_detach_def std_destroy_def std_joinable_def std_owned_def live_retire)

lemma evl_start_trades:
  assumes "evl_owned t \<subseteq> live_threads w" and "evl_start ret a t w = (t', w')"
  shows "trades (evl_owned t) (evl_owned t') w w'"
proof (cases "et_joinable t \<or> ret \<noteq> 0")
  case True
  with assms have "t' = t" "w' = w" by (auto simp: evl_start_def split: if_splits)
  with assms(1) show ?thesis by (auto simp: trades_def)
next
  case False
  define c where "c = sys_create (tc_stack_size (et_config t)) (evl_thread_entry (et_config t) a) w"
  from False assms(2) have "t' = t\<lparr>et_posix_thread := length w, et_joinable := True\<rparr>" "w' = snd c"
    by (auto simp: evl_start_def c_def sys_create_def)
  moreover have "live_threads (snd c) = insert (length w) (live_threads w)"
    unfolding c_def by (rule live_create)
  ultimately show ?thesis using False by (simp add: trades_def evl_owned_def)
qed

lemma evl_retire_trades:
  assumes "evl_owned t \<subseteq> live_threads w"
    and "evl_join t w = (t', w') \<or> evl_detach t w = (t', w') \<or> evl_destroy t w = (t', w')"
  shows "trades (evl_owned t) (evl_owned t') w w'"
  using assms
  by (auto simp: trades_def evl_join_def evl_detach_def evl_destroy_def evl_owned_def live_retire split: if_splits)

interpretation std_threads: resource_owner std_owned live_threads std_thread_fresh std_thread_ops "{std_move_assign}"
proof
  fix h :: std_thread assume "h \<in> std_thread_fresh"
  then show "std_owned h = {}" by (auto simp: std_thread_fresh_def std_thread_new_def std_owned_def)
next
  fix f and h h' :: std_thread and w w'
  assume f: "f \<in> std_thread_ops" "f h w = (h', w')" and o: "std_owned h \<subseteq> live_threads w"
  have "std_owned (h\<lparr>th_config := cfg\<rparr>) = std_owned h" for cfg by (simp add: std_owned_def)
  with o f have "trades (std_owned h) (std_owned h') w w'"
    using std_start_trades [of "h\<lparr>th_config := cfg\<rparr>" w for cfg] std_start_trades [OF o] std_retire_trades [OF o]
    by (auto simp: std_thread_ops_def std_start_config_def) 
  then show "live_threads w' = live_threads w - std_owned h \<union> std_owned h' \<and>
      std_owned h' \<inter> (live_threads w - std_owned h) = {}" by (simp add: trades_def)
next
  fix g and h k h' k' :: std_thread and w w'
  assume "g \<in> {std_move_assign}" "g h k w = (h', k', w')" "std_owned h \<subseteq> live_threads w"
  then show "live_threads w' = live_threads w - std_owned h \<and> std_owned h' = std_owned k \<and> std_owned k' = {}"
    by (cases "th_thread h") (auto simp: std_move_assign_def std_joinable_def std_join_def std_owned_def live_retire)
qed

interpretation evl_threads: resource_owner evl_owned live_threads evl_thread_fresh evl_thread_ops "{evl_move_assign}"
proof
  fix h :: evl_thread assume "h \<in> evl_thread_fresh"
  then show "evl_owned h = {}" by (auto simp: evl_thread_fresh_def evl_thread_new_def evl_owned_def)
next
  fix f and h h' :: evl_thread and w w'
  assume f: "f \<in> evl_thread_ops" "f h w = (h', w')" and o: "evl_owned h \<subseteq> live_threads w"
  have "evl_owned (h\<lparr>et_config := cfg\<rparr>) = evl_owned h" for cfg by (simp add: evl_owned_def)
  with o f have "trades (evl_owned h) (evl_owned h') w w'"
    using evl_start_trades [of "h\<lparr>et_config := cfg\<rparr>" w for cfg] evl_start_trades [OF o] evl_retire_trades [OF o]
    by (auto simp: evl_thread_ops_def evl_start_config_def)
  then show "live_threads w' = live_threads w - evl_owned h \<union> evl_owned h' \<and>
      evl_owned h' \<inter> (live_threads w - evl_owned h) = {}" by (simp add: trades_def)
next
  fix g and h k h' k' :: evl_thread and w w'
  assume "g \<in> {evl_move_assign}" "g h k w = (h', k', w')" "evl_owned h \<subseteq> live_threads w"
  then show "live_threads w' = live_threads w - evl_owned h \<and> evl_owned h' = evl_owned k \<and> evl_owned k' = {}"
    by (auto simp: evl_move_assign_def evl_join_def evl_owned_def live_retire split: if_splits)
qed


definition ex_answers :: evl_answers where
  "ex_answers = \<lparr>ea_tid = 4711, ea_attach = 5, ea_get_self = 5\<rparr>"


section \<open>Names and messages of EVL threads\<close>

lemma length_c_string: "length (c_string s) \<le> length s"
  by (simp add: c_string_def length_takeWhile_le)

text \<open>Linux thread ids stay below \<open>2 ^ 22\<close>, so a name is never cut off.\<close>

lemma evl_thread_name_whole:
  assumes "tid < 2 ^ 22"
  shows "evl_thread_name cfg tid = ''corerat-'' @
    c_string (take 40 (if tc_name cfg = [] then ''thread'' else tc_name cfg)) @ '':'' @ decimal_nat tid"
proof -
  have "length (decimal_nat tid) \<le> 7" using assms by (intro decimal_nat_length) simp_all
  moreover have "length (c_string (take 40 s)) \<le> 40" for s
    using length_c_string [of "take 40 s"] by simp
  from this [of "if tc_name cfg = [] then ''thread'' else tc_name cfg"]
  have "length (c_string (take 40 (if tc_name cfg = [] then ''thread'' else tc_name cfg))) \<le> 40" .
  ultimately show ?thesis by (simp add: evl_thread_name_def snprintf_def Let_def)
qed

lemma id_digits_no_colon: "CHR '':'' \<notin> set (id_digits n)"
proof (induction n rule: id_digits.induct)
  case (1 v)
  have "char_of (48 + v mod 10) \<noteq> CHR '':''"
  proof
    assume "char_of (48 + v mod 10) = CHR '':''"
    then have "(of_char (char_of (48 + v mod 10) :: char) :: nat) = of_char CHR '':''" by simp
    moreover have "v mod 10 < 10" by simp
    ultimately show False by simp
  qed
  with 1 show ?case by (subst id_digits.simps) auto
qed

lemma decimal_nat_no_colon: "CHR '':'' \<notin> set (decimal_nat n)"
  using id_digits_no_colon by (simp add: decimal_nat_def)

text \<open>
  The names under which threads register with the EVL core differ whenever their thread ids
  do, whatever the configured names are: nothing of the id is cut off by the 64-byte buffer, and
  it can be read back from behind the last colon.
\<close>

lemma evl_thread_names_distinct:
  assumes "tid < 2 ^ 22" and "tid' < 2 ^ 22" and "tid \<noteq> tid'"
  shows "evl_thread_name cfg tid \<noteq> evl_thread_name cfg' tid'"
proof
  assume eq: "evl_thread_name cfg tid = evl_thread_name cfg' tid'"
  have "takeWhile (\<lambda>c. c \<noteq> CHR '':'') (rev (evl_thread_name c t)) = rev (decimal_nat t)" if "t < 2 ^ 22" for c t
    unfolding evl_thread_name_whole [OF that] using decimal_nat_no_colon [of t]
    by (simp add: takeWhile_append)
  with eq assms(1,2) have "rev (decimal_nat tid) = rev (decimal_nat tid')" by metis
  with assms(3) show False by (simp add: decimal_nat_inject)
qed

text \<open>
  The message of a thread that may not attach (\<open>EPERM\<close>) is written with the length
  \<open>snprintf\<close> returned, which is that of the text before it was cut: the system call reads past
  the end of the 160-byte buffer exactly when the configured name and the decimal thread id have
  more than 30 characters together.
\<close>

lemma attach_message_overread:
  assumes "tc_name cfg \<noteq> []" and "length (tc_name cfg) \<le> 40"
    and "char_of (0 :: nat) \<notin> set (tc_name cfg)" and "tid < 2 ^ 22"
  shows "160 < snd (attach_message (evl_thread_name cfg tid) (- EPERM)) \<longleftrightarrow>
    30 < length (tc_name cfg) + length (decimal_nat tid)"
proof -
  have "c_string (take 40 (tc_name cfg)) = tc_name cfg"
    using assms(2,3) by (auto simp: c_string_def takeWhile_eq_all_conv)
  then have "length (evl_thread_name cfg tid) = 9 + length (tc_name cfg) + length (decimal_nat tid)"
    using assms(1) by (simp add: evl_thread_name_whole [OF assms(4)])
  moreover have "length (decimal_int (- EPERM)) = 2"
    by (simp add: decimal_int_def EPERM_def decimal_nat_def id_digits.simps)
  ultimately show ?thesis by (simp add: attach_message_def snprintf_def attach_reason_def)
qed

section \<open>Waiting with a predicate\<close>

lemma evl_wait_loop_run:
  assumes "\<forall>m. k \<le> m \<and> m < n \<longrightarrow> \<not> pred (Suc m) \<and> ret m \<noteq> - ETIMEDOUT" and "k \<le> n"
  shows "evl_wait_loop pred ret k = evl_wait_loop pred ret n"
  using assms(2,1)
proof (induction rule: inc_induct)
  case base
  then show ?case by simp
next
  case (step m)
  then have "evl_wait_loop pred ret m = evl_wait_loop pred ret (Suc m)"
    by (subst evl_wait_loop.simps) simp
  with step show ?case by simp
qed

lemma evl_wait_loop_stop:
  assumes "\<forall>m < n. \<not> pred (Suc m) \<and> ret m \<noteq> - ETIMEDOUT" and "pred (Suc n) \<or> ret n = - ETIMEDOUT"
  shows "evl_wait_loop pred ret 0 = Some (pred (Suc n) \<or> pred (Suc (Suc n)))"
proof -
  have "evl_wait_loop pred ret 0 = evl_wait_loop pred ret n"
    using assms(1) by (intro evl_wait_loop_run) simp_all
  also have "\<dots> = Some (pred (Suc n) \<or> pred (Suc (Suc n)))"
    using assms(2) by (subst evl_wait_loop.simps) auto
  finally show ?thesis .
qed

text \<open>
  C40. The timed wait of the EVL condition variable: as soon as one wait times out, or the
  predicate holds at one evaluation before that, the call returns. It returns false only when
  the predicate was false at every evaluation, the last one made after the time-out; early
  wake-ups in between change nothing.
\<close>

theorem wait_for_decides:
  assumes "ret n = - ETIMEDOUT" and "\<forall>m < n. ret m \<noteq> - ETIMEDOUT"
  shows "evl_wait_for_pred pred ret = Some (\<exists>k \<le> n + 2. pred k)"
proof (cases "pred 0 \<or> (\<exists>m \<le> n. pred (Suc m))")
  case True
  show ?thesis
  proof (cases "pred 0")
    case True
    then show ?thesis by (auto simp: evl_wait_for_pred_def)
  next
    case False
    with True obtain m where m: "m \<le> n" "pred (Suc m)" by blast
    define j where "j = (LEAST m. pred (Suc m))"
    have "pred (Suc j)" and "j \<le> m" and "\<forall>i < j. \<not> pred (Suc i)"
      using m(2) LeastI [of "\<lambda>m. pred (Suc m)" m] Least_le [of "\<lambda>m. pred (Suc m)" m] not_less_Least
      by (auto simp: j_def)
    with m assms(2) False have "evl_wait_for_pred pred ret = Some True"
      using evl_wait_loop_stop [of j pred ret] by (simp add: evl_wait_for_pred_def)
    moreover have "\<exists>k \<le> n + 2. pred k" using m by (intro exI [of _ "Suc m"]) simp
    ultimately show ?thesis by simp
  qed
next
  case False
  then have no: "\<not> pred k" if "k \<le> Suc n" for k using that by (cases k) auto
  then have "evl_wait_for_pred pred ret = Some (pred (Suc (Suc n)))"
    using evl_wait_loop_stop [of n pred ret] assms by (simp add: evl_wait_for_pred_def)
  moreover have "(\<exists>k \<le> n + 2. pred k) \<longleftrightarrow> pred (Suc (Suc n))"
    using no by (auto simp: le_Suc_eq)
  ultimately show ?thesis by simp
qed

theorem wait_for_decides_witness:
  "evl_wait_for_pred (\<lambda>k. k = 4) (\<lambda>m. if m = 2 then - ETIMEDOUT else 0) = Some True \<and>
   evl_wait_for_pred (\<lambda>k. k = 5) (\<lambda>m. if m = 2 then - ETIMEDOUT else 0) = Some False"
  using wait_for_decides [of "\<lambda>m. if m = 2 then - ETIMEDOUT else 0" 2 "\<lambda>k. k = 4"]
    wait_for_decides [of "\<lambda>m. if m = 2 then - ETIMEDOUT else 0" 2 "\<lambda>k. k = 5"]
  by (simp add: ETIMEDOUT_def)

text \<open>The deadline handed to the kernel is a proper \<open>timespec\<close> of the right instant, unless it lies before zero.\<close>

lemma evl_deadline_instant:
  assumes "0 \<le> tv_sec now * 1000000000 + tv_nsec now + count_ns timeout"
  shows "tv_sec (evl_deadline now timeout) * 1000000000 + tv_nsec (evl_deadline now timeout) =
      tv_sec now * 1000000000 + tv_nsec now + count_ns timeout \<and>
    0 \<le> tv_nsec (evl_deadline now timeout) \<and> tv_nsec (evl_deadline now timeout) < 1000000000"
  using assms
  by (simp add: evl_deadline_def Let_def sdiv_nonneg smod_nonneg)

text \<open>The plain wait returns at the first evaluation at which the predicate holds.\<close>

lemma evl_wait_pred_first:
  assumes "\<forall>m. k \<le> m \<and> m < n \<longrightarrow> \<not> pred m" and "k \<le> n" and "pred n"
  shows "evl_wait_pred pred k = Some n"
  using assms(2,1,3)
proof (induction rule: inc_induct)
  case base
  then show ?case by (subst evl_wait_pred.simps) simp
next
  case (step m)
  then show ?case by (subst evl_wait_pred.simps) simp
qed

text \<open>
  Without a real-time policy the standard back end asks for a non-zero static priority in the
  class \<open>SCHED_OTHER\<close>, which \<open>pthread_setschedparam\<close> rejects on Linux, so the priority is lost;
  the EVL back end always asks for \<open>SCHED_FIFO\<close>.
\<close>

lemma priority_without_policy:
  assumes "tc_policy cfg = S_NORMAL \<or> tc_policy cfg = S_DEADLINE" and "tc_priority cfg \<in> {P_LOW, P_HIGH, P_REALTIME}"
  shows "\<exists>p > 0. Set_sched SCHED_OTHER p \<in> set (std_apply_config cfg)"
  using assms by (auto simp: std_apply_config_def)

lemma evl_policy_ignored:
  "evl_thread_entry (cfg\<lparr>tc_policy := p\<rparr>) a = evl_thread_entry cfg a"
  by (simp add: evl_thread_entry_def evl_thread_name_def Let_def)

lemma std_construct_start:
  "std_construct cfg True w = Some (snd (std_start True (std_thread_new cfg) w))"
  by (simp add: std_construct_def std_start_def std_joinable_def std_thread_new_def sys_create_def)

end
