(* ===== verification/Locks.thy ===== *)
theory Locks
  imports Threading
begin

text \<open>
  \<open>Mutex\<close>, \<open>SharedMutex\<close> and \<open>ConditionVariable\<close> of \<open>include/corerat/platform/\<close>, both back ends, and
  the scoped locks of \<open>threading.hpp\<close>. The standard back end's locks are the ones of the C++
  library, modelled by who holds them; libevl is a parameter with the behaviour its manual
  documents. A blocking call is \<open>None\<close> while it blocks. \<open>monitor_step\<close> interleaves any number of
  threads that enter scoped sections, load and store the data the lock protects, and wait on a
  condition variable; the locale \<open>monitor_lock\<close> states what such a program needs of a lock class
  and shows that its sections are atomic.
\<close>

section \<open>The standard back end\<close>

type_synonym thread_id = nat

record std_mutex =
  mtx_owner :: "thread_id option"

definition std_mutex_new :: std_mutex where
  "std_mutex_new = \<lparr>mtx_owner = None\<rparr>"

definition std_mutex_lock :: "thread_id \<Rightarrow> std_mutex \<Rightarrow> std_mutex option" where
  "std_mutex_lock t m = (if mtx_owner m = None then Some (m\<lparr>mtx_owner := Some t\<rparr>) else None)"

text \<open>\<open>try_lock\<close> of the C++ library may fail although the mutex is free: \<open>spurious\<close>.\<close>

definition std_mutex_try_lock :: "bool \<Rightarrow> thread_id \<Rightarrow> std_mutex \<Rightarrow> bool \<times> std_mutex" where
  "std_mutex_try_lock spurious t m =
     (if mtx_owner m = None \<and> \<not> spurious then (True, m\<lparr>mtx_owner := Some t\<rparr>) else (False, m))"

definition std_mutex_unlock :: "thread_id \<Rightarrow> std_mutex \<Rightarrow> std_mutex" where
  "std_mutex_unlock t m = m\<lparr>mtx_owner := None\<rparr>"

record std_shared_mutex =
  sm_writer :: "thread_id option"
  sm_readers :: "thread_id set"

definition std_shared_new :: std_shared_mutex where
  "std_shared_new = \<lparr>sm_writer = None, sm_readers = {}\<rparr>"

definition std_shared_lock :: "thread_id \<Rightarrow> std_shared_mutex \<Rightarrow> std_shared_mutex option" where
  "std_shared_lock t m =
     (if sm_writer m = None \<and> sm_readers m = {} then Some (m\<lparr>sm_writer := Some t\<rparr>) else None)"

definition std_shared_lock_shared :: "thread_id \<Rightarrow> std_shared_mutex \<Rightarrow> std_shared_mutex option" where
  "std_shared_lock_shared t m =
     (if sm_writer m = None then Some (m\<lparr>sm_readers := insert t (sm_readers m)\<rparr>) else None)"

definition std_shared_try_lock :: "bool \<Rightarrow> thread_id \<Rightarrow> std_shared_mutex \<Rightarrow> bool \<times> std_shared_mutex" where
  "std_shared_try_lock spurious t m =
     (if sm_writer m = None \<and> sm_readers m = {} \<and> \<not> spurious
      then (True, m\<lparr>sm_writer := Some t\<rparr>) else (False, m))"

definition std_shared_try_lock_shared ::
    "bool \<Rightarrow> thread_id \<Rightarrow> std_shared_mutex \<Rightarrow> bool \<times> std_shared_mutex" where
  "std_shared_try_lock_shared spurious t m =
     (if sm_writer m = None \<and> \<not> spurious
      then (True, m\<lparr>sm_readers := insert t (sm_readers m)\<rparr>) else (False, m))"

definition std_shared_unlock :: "thread_id \<Rightarrow> std_shared_mutex \<Rightarrow> std_shared_mutex" where
  "std_shared_unlock t m = m\<lparr>sm_writer := None\<rparr>"

definition std_shared_unlock_shared :: "thread_id \<Rightarrow> std_shared_mutex \<Rightarrow> std_shared_mutex" where
  "std_shared_unlock_shared t m = m\<lparr>sm_readers := sm_readers m - {t}\<rparr>"

section \<open>The EVL back end\<close>

text \<open>
  libevl: its mutex and read-write lock with their return codes. \<open>lm_owner\<close>, \<open>lr_writer\<close> and
  \<open>lr_readers\<close> say who holds them; they serve to state what the calls do.
\<close>

record 'm libevl_mutex =
  lm_lock :: "thread_id \<Rightarrow> 'm \<Rightarrow> (int \<times> 'm) option"
  lm_trylock :: "thread_id \<Rightarrow> 'm \<Rightarrow> int \<times> 'm"
  lm_unlock :: "thread_id \<Rightarrow> 'm \<Rightarrow> int \<times> 'm"
  lm_owner :: "'m \<Rightarrow> thread_id option"

record 'm libevl_rwlock =
  lr_lock_write :: "thread_id \<Rightarrow> 'm \<Rightarrow> (int \<times> 'm) option"
  lr_lock_read :: "thread_id \<Rightarrow> 'm \<Rightarrow> (int \<times> 'm) option"
  lr_trylock_write :: "thread_id \<Rightarrow> 'm \<Rightarrow> int \<times> 'm"
  lr_trylock_read :: "thread_id \<Rightarrow> 'm \<Rightarrow> int \<times> 'm"
  lr_unlock_write :: "thread_id \<Rightarrow> 'm \<Rightarrow> int \<times> 'm"
  lr_unlock_read :: "thread_id \<Rightarrow> 'm \<Rightarrow> int \<times> 'm"
  lr_writer :: "'m \<Rightarrow> thread_id option"
  lr_readers :: "'m \<Rightarrow> thread_id set"

text \<open>
  The constructors: the process-wide counter is advanced and the element is created under a name
  made of its old value and the process id. The name is cut to a buffer of 64.
\<close>

definition evl_element_name :: "string \<Rightarrow> u32 \<Rightarrow> u32 \<Rightarrow> string" where
  "evl_element_name kind counter pid =
     snd (snprintf 64 (''corerat-'' @ kind @ ''-'' @ decimal_int (sint counter) @ '':'' @ decimal_int (sint pid)))"

definition evl_mutex_new :: "u32 \<Rightarrow> u32 \<Rightarrow> string \<times> u32" where
  "evl_mutex_new pid counter = (evl_element_name ''mtx'' counter pid, counter + 1)"

definition evl_cv_new :: "u32 \<Rightarrow> u32 \<Rightarrow> string \<times> u32" where
  "evl_cv_new pid counter = (evl_element_name ''evt'' counter pid, counter + 1)"

definition evl_mutex_lock :: "'m libevl_mutex \<Rightarrow> thread_id \<Rightarrow> 'm \<Rightarrow> 'm option" where
  "evl_mutex_lock L t m = map_option snd (lm_lock L t m)"

definition evl_mutex_try_lock :: "'m libevl_mutex \<Rightarrow> thread_id \<Rightarrow> 'm \<Rightarrow> bool \<times> 'm" where
  "evl_mutex_try_lock L t m = (case lm_trylock L t m of (ret, m') \<Rightarrow> (ret = 0, m'))"

definition evl_mutex_unlock :: "'m libevl_mutex \<Rightarrow> thread_id \<Rightarrow> 'm \<Rightarrow> 'm" where
  "evl_mutex_unlock L t m = snd (lm_unlock L t m)"

definition evl_shared_lock :: "'m libevl_rwlock \<Rightarrow> thread_id \<Rightarrow> 'm \<Rightarrow> 'm option" where
  "evl_shared_lock L t m = map_option snd (lr_lock_write L t m)"

definition evl_shared_lock_shared :: "'m libevl_rwlock \<Rightarrow> thread_id \<Rightarrow> 'm \<Rightarrow> 'm option" where
  "evl_shared_lock_shared L t m = map_option snd (lr_lock_read L t m)"

definition evl_shared_try_lock :: "'m libevl_rwlock \<Rightarrow> thread_id \<Rightarrow> 'm \<Rightarrow> bool \<times> 'm" where
  "evl_shared_try_lock L t m = (case lr_trylock_write L t m of (ret, m') \<Rightarrow> (ret = 0, m'))"

definition evl_shared_try_lock_shared :: "'m libevl_rwlock \<Rightarrow> thread_id \<Rightarrow> 'm \<Rightarrow> bool \<times> 'm" where
  "evl_shared_try_lock_shared L t m = (case lr_trylock_read L t m of (ret, m') \<Rightarrow> (ret = 0, m'))"

definition evl_shared_unlock :: "'m libevl_rwlock \<Rightarrow> thread_id \<Rightarrow> 'm \<Rightarrow> 'm" where
  "evl_shared_unlock L t m = snd (lr_unlock_write L t m)"

definition evl_shared_unlock_shared :: "'m libevl_rwlock \<Rightarrow> thread_id \<Rightarrow> 'm \<Rightarrow> 'm" where
  "evl_shared_unlock_shared L t m = snd (lr_unlock_read L t m)"

text \<open>
  What libevl documents of a mutex: a call that returns 0 has taken or given back the mutex, a
  failed one changed nothing, the mutex is given to nobody while it is held, and a thread attached
  to the EVL core (in \<open>A\<close>) gets no error from the blocking call.
\<close>

definition libevl_mutex_ok :: "thread_id set \<Rightarrow> 'm libevl_mutex \<Rightarrow> bool" where
  "libevl_mutex_ok A L \<longleftrightarrow>
     (\<forall>t m ret m'. lm_lock L t m = Some (ret, m') \<longrightarrow>
        (if ret = 0 then lm_owner L m = None \<and> lm_owner L m' = Some t else lm_owner L m' = lm_owner L m)) \<and>
     (\<forall>t m ret m'. lm_trylock L t m = (ret, m') \<longrightarrow>
        (if ret = 0 then lm_owner L m = None \<and> lm_owner L m' = Some t else lm_owner L m' = lm_owner L m)) \<and>
     (\<forall>t m. lm_owner L m = Some t \<longrightarrow> lm_owner L (snd (lm_unlock L t m)) = None) \<and>
     (\<forall>t m ret m'. t \<in> A \<longrightarrow> lm_lock L t m = Some (ret, m') \<longrightarrow> ret = 0)"

definition libevl_rwlock_ok :: "thread_id set \<Rightarrow> 'm libevl_rwlock \<Rightarrow> bool" where
  "libevl_rwlock_ok A L \<longleftrightarrow>
     (\<forall>t m ret m'. lr_lock_write L t m = Some (ret, m') \<or> lr_trylock_write L t m = (ret, m') \<longrightarrow>
        (if ret = 0 then lr_writer L m = None \<and> lr_readers L m = {} \<and> lr_writer L m' = Some t \<and> lr_readers L m' = {}
         else lr_writer L m' = lr_writer L m \<and> lr_readers L m' = lr_readers L m)) \<and>
     (\<forall>t m ret m'. lr_lock_read L t m = Some (ret, m') \<or> lr_trylock_read L t m = (ret, m') \<longrightarrow>
        (if ret = 0 then lr_writer L m = None \<and> lr_writer L m' = None \<and> lr_readers L m' = insert t (lr_readers L m)
         else lr_writer L m' = lr_writer L m \<and> lr_readers L m' = lr_readers L m)) \<and>
     (\<forall>t m. lr_writer L m = Some t \<longrightarrow>
        lr_writer L (snd (lr_unlock_write L t m)) = None \<and>
        lr_readers L (snd (lr_unlock_write L t m)) = lr_readers L m) \<and>
     (\<forall>t m. t \<in> lr_readers L m \<longrightarrow>
        lr_writer L (snd (lr_unlock_read L t m)) = lr_writer L m \<and>
        lr_readers L (snd (lr_unlock_read L t m)) = lr_readers L m - {t}) \<and>
     (\<forall>t m ret m'. t \<in> A \<longrightarrow> lr_lock_write L t m = Some (ret, m') \<or> lr_lock_read L t m = Some (ret, m') \<longrightarrow> ret = 0)"

section \<open>Scoped sections and condition variables\<close>

text \<open>
  The six calls of a lock class; a plain mutex has no shared ones. The first argument of the
  attempts says whether the standard library fails this one spuriously; libevl does not.
\<close>

record 'm lock_ops =
  lo_lock :: "thread_id \<Rightarrow> 'm \<Rightarrow> 'm option"
  lo_try_lock :: "bool \<Rightarrow> thread_id \<Rightarrow> 'm \<Rightarrow> bool \<times> 'm"
  lo_unlock :: "thread_id \<Rightarrow> 'm \<Rightarrow> 'm"
  lo_lock_shared :: "thread_id \<Rightarrow> 'm \<Rightarrow> 'm option"
  lo_try_lock_shared :: "bool \<Rightarrow> thread_id \<Rightarrow> 'm \<Rightarrow> bool \<times> 'm"
  lo_unlock_shared :: "thread_id \<Rightarrow> 'm \<Rightarrow> 'm"

definition exclusive_ops ::
    "(thread_id \<Rightarrow> 'm \<Rightarrow> 'm option) \<Rightarrow> (bool \<Rightarrow> thread_id \<Rightarrow> 'm \<Rightarrow> bool \<times> 'm) \<Rightarrow>
      (thread_id \<Rightarrow> 'm \<Rightarrow> 'm) \<Rightarrow> 'm lock_ops" where
  "exclusive_ops lock try_lock unlock =
     \<lparr>lo_lock = lock, lo_try_lock = try_lock, lo_unlock = unlock, lo_lock_shared = (\<lambda>t m. None),
      lo_try_lock_shared = (\<lambda>spurious t m. (False, m)), lo_unlock_shared = (\<lambda>t m. m)\<rparr>"

definition std_mutex_ops :: "std_mutex lock_ops" where
  "std_mutex_ops = exclusive_ops std_mutex_lock std_mutex_try_lock std_mutex_unlock"

definition std_shared_ops :: "std_shared_mutex lock_ops" where
  "std_shared_ops =
     \<lparr>lo_lock = std_shared_lock, lo_try_lock = std_shared_try_lock,
      lo_unlock = std_shared_unlock, lo_lock_shared = std_shared_lock_shared,
      lo_try_lock_shared = std_shared_try_lock_shared,
      lo_unlock_shared = std_shared_unlock_shared\<rparr>"

definition evl_mutex_ops :: "'m libevl_mutex \<Rightarrow> 'm lock_ops" where
  "evl_mutex_ops L =
     exclusive_ops (evl_mutex_lock L) (\<lambda>spurious. evl_mutex_try_lock L) (evl_mutex_unlock L)"

definition evl_shared_ops :: "'m libevl_rwlock \<Rightarrow> 'm lock_ops" where
  "evl_shared_ops L =
     \<lparr>lo_lock = evl_shared_lock L, lo_try_lock = (\<lambda>spurious. evl_shared_try_lock L),
      lo_unlock = evl_shared_unlock L, lo_lock_shared = evl_shared_lock_shared L,
      lo_try_lock_shared = (\<lambda>spurious. evl_shared_try_lock_shared L),
      lo_unlock_shared = evl_shared_unlock_shared L\<rparr>"

text \<open>
  The condition variable: the threads that wait for a notification. A wait may also end by
  itself (a spurious wake-up, a timeout), so a waiting thread is not bound to the notification.
\<close>

record cond_var =
  cv_waiters :: "thread_id set"

definition cv_new :: cond_var where "cv_new = \<lparr>cv_waiters = {}\<rparr>"

definition cv_notify_one :: "thread_id \<Rightarrow> cond_var \<Rightarrow> cond_var" where
  "cv_notify_one chosen cv = cv\<lparr>cv_waiters := cv_waiters cv - {chosen}\<rparr>"

definition cv_notify_all :: "cond_var \<Rightarrow> cond_var" where
  "cv_notify_all cv = cv\<lparr>cv_waiters := {}\<rparr>"

text \<open>\<open>wait\<close> releases the lock and waits; on return the lock is held again.\<close>

definition cv_wait_enter :: "'m lock_ops \<Rightarrow> thread_id \<Rightarrow> 'm \<times> cond_var \<Rightarrow> 'm \<times> cond_var" where
  "cv_wait_enter ops t = (\<lambda>(m, cv). (lo_unlock ops t m, cv\<lparr>cv_waiters := insert t (cv_waiters cv)\<rparr>))"

definition cv_wait_return :: "'m lock_ops \<Rightarrow> thread_id \<Rightarrow> 'm \<times> cond_var \<Rightarrow> ('m \<times> cond_var) option" where
  "cv_wait_return ops t = (\<lambda>(m, cv). case lo_lock ops t m of
     Some m' \<Rightarrow> Some (m', cv\<lparr>cv_waiters := cv_waiters cv - {t}\<rparr>) | None \<Rightarrow> None)"

text \<open>
  The EVL class hands these to an EVL event, whose wait releases and takes back the mutex that the
  caller's lock holds.
\<close>

definition evl_cv_notify_one :: "thread_id \<Rightarrow> cond_var \<Rightarrow> cond_var" where
  "evl_cv_notify_one signalled cv = cv\<lparr>cv_waiters := cv_waiters cv - {signalled}\<rparr>"

definition evl_cv_notify_all :: "cond_var \<Rightarrow> cond_var" where
  "evl_cv_notify_all cv = cv\<lparr>cv_waiters := {}\<rparr>"

definition evl_cv_wait_enter :: "'m libevl_mutex \<Rightarrow> thread_id \<Rightarrow> 'm \<times> cond_var \<Rightarrow> 'm \<times> cond_var" where
  "evl_cv_wait_enter L t = (\<lambda>(m, cv). (snd (lm_unlock L t m), cv\<lparr>cv_waiters := insert t (cv_waiters cv)\<rparr>))"

definition evl_cv_wait_return ::
    "'m libevl_mutex \<Rightarrow> thread_id \<Rightarrow> 'm \<times> cond_var \<Rightarrow> ('m \<times> cond_var) option" where
  "evl_cv_wait_return L t = (\<lambda>(m, cv). case lm_lock L t m of
     Some (ret, m') \<Rightarrow> Some (m', cv\<lparr>cv_waiters := cv_waiters cv - {t}\<rparr>) | None \<Rightarrow> None)"

lemma evl_cv_same:
  "evl_cv_notify_one = cv_notify_one" "evl_cv_notify_all = cv_notify_all"
  "evl_cv_wait_enter L = cv_wait_enter (evl_mutex_ops L)" "evl_cv_wait_return L = cv_wait_return (evl_mutex_ops L)"
  by (auto simp: fun_eq_iff evl_cv_notify_one_def cv_notify_one_def evl_cv_notify_all_def cv_notify_all_def
      evl_cv_wait_enter_def cv_wait_enter_def evl_cv_wait_return_def cv_wait_return_def evl_mutex_ops_def
      exclusive_ops_def evl_mutex_unlock_def evl_mutex_lock_def split: option.splits prod.splits)

section \<open>A program of scoped sections\<close>

text \<open>
  Where a thread stands: outside, in an exclusive section (\<open>Synchronized\<close>, \<open>WriteLocked\<close>) before
  and after it has loaded the protected data, waiting on the condition variable, or in a shared
  section (\<open>ReadLocked\<close>).
\<close>

datatype 'd section_pc =
    Outside
  | Wlocked
  | Wloaded 'd
  | Sleeping
  | Rlocked
  | Rloaded 'd

text \<open>The log lists the guarded updates in the order their stores happened.\<close>

record ('m, 'd) monitor =
  mo_lock :: 'm
  mo_cv :: cond_var
  mo_data :: 'd
  mo_log :: "(('d \<Rightarrow> bool) \<times> ('d \<Rightarrow> 'd)) list"
  mo_pc :: "thread_id \<Rightarrow> 'd section_pc"

definition monitor_new :: "'m \<Rightarrow> 'd \<Rightarrow> ('m, 'd) monitor" where
  "monitor_new m d = \<lparr>mo_lock = m, mo_cv = cv_new, mo_data = d, mo_log = [], mo_pc = (\<lambda>t. Outside)\<rparr>"

definition go :: "thread_id \<Rightarrow> 'd section_pc \<Rightarrow> ('m, 'd) monitor \<Rightarrow> ('m, 'd) monitor" where
  "go t pc s = s\<lparr>mo_pc := (mo_pc s)(t := pc)\<rparr>"

text \<open>
  One step of a thread of \<open>T\<close>. The scoped locks take their lock on entry and give it back on
  exit; \<open>wait\<close> with a predicate is the loop of \<open>load\<close>, \<open>wait\<close> and \<open>wake\<close> that goes on to \<open>store\<close> with a
  loaded value for which the predicate holds.
\<close>

inductive monitor_step ::
  "'m lock_ops \<Rightarrow> thread_id set \<Rightarrow> ('m, 'd) monitor \<Rightarrow> ('m, 'd) monitor \<Rightarrow> bool" for ops T where
  enter: "t \<in> T \<Longrightarrow> mo_pc s t = Outside \<Longrightarrow> lo_lock ops t (mo_lock s) = Some m \<Longrightarrow>
    monitor_step ops T s (go t Wlocked (s\<lparr>mo_lock := m\<rparr>))"
| try_enter: "t \<in> T \<Longrightarrow> mo_pc s t = Outside \<Longrightarrow> lo_try_lock ops spurious t (mo_lock s) = (ok, m) \<Longrightarrow>
    monitor_step ops T s (go t (if ok then Wlocked else Outside) (s\<lparr>mo_lock := m\<rparr>))"
| load: "t \<in> T \<Longrightarrow> mo_pc s t = Wlocked \<Longrightarrow> monitor_step ops T s (go t (Wloaded (mo_data s)) s)"
| store: "t \<in> T \<Longrightarrow> mo_pc s t = Wloaded d \<Longrightarrow> p d \<Longrightarrow>
    monitor_step ops T s (go t Wlocked (s\<lparr>mo_data := f d, mo_log := mo_log s @ [(p, f)]\<rparr>))"
| wait: "t \<in> T \<Longrightarrow> mo_pc s t = Wloaded d \<Longrightarrow> cv_wait_enter ops t (mo_lock s, mo_cv s) = (m, cv) \<Longrightarrow>
    monitor_step ops T s (go t Sleeping (s\<lparr>mo_lock := m, mo_cv := cv\<rparr>))"
| wake: "t \<in> T \<Longrightarrow> mo_pc s t = Sleeping \<Longrightarrow> cv_wait_return ops t (mo_lock s, mo_cv s) = Some (m, cv) \<Longrightarrow>
    monitor_step ops T s (go t Wlocked (s\<lparr>mo_lock := m, mo_cv := cv\<rparr>))"
| notify_one: "monitor_step ops T s (s\<lparr>mo_cv := cv_notify_one chosen (mo_cv s)\<rparr>)"
| notify_all: "monitor_step ops T s (s\<lparr>mo_cv := cv_notify_all (mo_cv s)\<rparr>)"
| leave: "t \<in> T \<Longrightarrow> mo_pc s t = Wlocked \<or> mo_pc s t = Wloaded d \<Longrightarrow>
    monitor_step ops T s (go t Outside (s\<lparr>mo_lock := lo_unlock ops t (mo_lock s)\<rparr>))"
| enter_shared: "t \<in> T \<Longrightarrow> mo_pc s t = Outside \<Longrightarrow> lo_lock_shared ops t (mo_lock s) = Some m \<Longrightarrow>
    monitor_step ops T s (go t Rlocked (s\<lparr>mo_lock := m\<rparr>))"
| try_enter_shared: "t \<in> T \<Longrightarrow> mo_pc s t = Outside \<Longrightarrow>
    lo_try_lock_shared ops spurious t (mo_lock s) = (ok, m) \<Longrightarrow>
    monitor_step ops T s (go t (if ok then Rlocked else Outside) (s\<lparr>mo_lock := m\<rparr>))"
| load_shared: "t \<in> T \<Longrightarrow> mo_pc s t = Rlocked \<Longrightarrow> monitor_step ops T s (go t (Rloaded (mo_data s)) s)"
| leave_shared: "t \<in> T \<Longrightarrow> mo_pc s t = Rlocked \<or> mo_pc s t = Rloaded d \<Longrightarrow>
    monitor_step ops T s (go t Outside (s\<lparr>mo_lock := lo_unlock_shared ops t (mo_lock s)\<rparr>))"

abbreviation monitor_steps ::
  "'m lock_ops \<Rightarrow> thread_id set \<Rightarrow> ('m, 'd) monitor \<Rightarrow> ('m, 'd) monitor \<Rightarrow> bool" where
  "monitor_steps ops T \<equiv> (monitor_step ops T)\<^sup>*\<^sup>*"

text \<open>The updates of the log done one after the other, each only where its guard holds.\<close>

fun replay :: "'d \<Rightarrow> (('d \<Rightarrow> bool) \<times> ('d \<Rightarrow> 'd)) list \<Rightarrow> 'd option" where
  "replay d [] = Some d"
| "replay d ((p, f) # us) = (if p d then replay (f d) us else None)"

lemma replay_append:
  "replay d (us @ [(p, f)]) = (case replay d us of Some e \<Rightarrow> if p e then Some (f e) else None | None \<Rightarrow> None)"
  by (induction d us rule: replay.induct) auto

fun writing :: "'d section_pc \<Rightarrow> bool" where
  "writing Wlocked \<longleftrightarrow> True" | "writing (Wloaded d) \<longleftrightarrow> True" | "writing pc \<longleftrightarrow> False"

fun reading :: "'d section_pc \<Rightarrow> bool" where
  "reading Rlocked \<longleftrightarrow> True" | "reading (Rloaded d) \<longleftrightarrow> True" | "reading pc \<longleftrightarrow> False"

lemma not_both: "writing pc \<Longrightarrow> \<not> reading pc"
  by (cases pc) simp_all

text \<open>
  What the sections promise: an exclusive one is alone, every value loaded in a section is still
  the current one, and the data is what the logged updates give when done one at a time.
\<close>

definition sections_atomic :: "'d \<Rightarrow> ('m, 'd) monitor \<Rightarrow> bool" where
  "sections_atomic d0 s \<longleftrightarrow>
     (\<forall>t u. writing (mo_pc s t) \<longrightarrow> t \<noteq> u \<longrightarrow> \<not> writing (mo_pc s u) \<and> \<not> reading (mo_pc s u)) \<and>
     (\<forall>t d. mo_pc s t = Wloaded d \<or> mo_pc s t = Rloaded d \<longrightarrow> d = mo_data s) \<and>
     replay d0 (mo_log s) = Some (mo_data s)"

text \<open>The contract of a lock class for the threads \<open>T\<close>.\<close>

locale monitor_lock =
  fixes ops :: "'m lock_ops" and T :: "thread_id set"
    and writer :: "'m \<Rightarrow> thread_id option" and readers :: "'m \<Rightarrow> thread_id set"
  assumes lock: "t \<in> T \<Longrightarrow> lo_lock ops t m = Some m' \<Longrightarrow>
      writer m = None \<and> readers m = {} \<and> writer m' = Some t \<and> readers m' = {}"
    and try_lock: "t \<in> T \<Longrightarrow> lo_try_lock ops spurious t m = (ok, m') \<Longrightarrow>
      (if ok then writer m = None \<and> readers m = {} \<and> writer m' = Some t \<and> readers m' = {}
       else writer m' = writer m \<and> readers m' = readers m)"
    and unlock: "t \<in> T \<Longrightarrow> writer m = Some t \<Longrightarrow>
      writer (lo_unlock ops t m) = None \<and> readers (lo_unlock ops t m) = readers m"
    and lock_shared: "t \<in> T \<Longrightarrow> lo_lock_shared ops t m = Some m' \<Longrightarrow>
      writer m = None \<and> writer m' = None \<and> readers m' = insert t (readers m)"
    and try_lock_shared: "t \<in> T \<Longrightarrow> lo_try_lock_shared ops spurious t m = (ok, m') \<Longrightarrow>
      (if ok then writer m = None \<and> writer m' = None \<and> readers m' = insert t (readers m)
       else writer m' = writer m \<and> readers m' = readers m)"
    and unlock_shared: "t \<in> T \<Longrightarrow> t \<in> readers m \<Longrightarrow>
      writer (lo_unlock_shared ops t m) = writer m \<and> readers (lo_unlock_shared ops t m) = readers m - {t}"
begin

definition held :: "('m, 'd) monitor \<Rightarrow> bool" where
  "held s \<longleftrightarrow> (\<forall>t. (writer (mo_lock s) = Some t \<longleftrightarrow> writing (mo_pc s t)) \<and>
     (t \<in> readers (mo_lock s) \<longleftrightarrow> reading (mo_pc s t))) \<and>
     (writer (mo_lock s) \<noteq> None \<longrightarrow> readers (mo_lock s) = {})"

lemma held_writer_unique: "held s \<Longrightarrow> writing (mo_pc s t) \<Longrightarrow> writing (mo_pc s u) \<Longrightarrow> t = u"
  unfolding held_def by (metis option.inject)

lemma held_exclusive: "held s \<Longrightarrow> writing (mo_pc s t) \<Longrightarrow> \<not> reading (mo_pc s u)"
  unfolding held_def by (metis empty_iff option.distinct(1))

lemma held_writer: "held s \<Longrightarrow> writing (mo_pc s t) \<Longrightarrow> writer (mo_lock s) = Some t \<and> readers (mo_lock s) = {}"
  unfolding held_def by (metis option.distinct(1))

lemma held_go:
  assumes "held s" and "writer m = (if writing pc then Some t else if writing (mo_pc s t) then None else writer (mo_lock s))"
    and "readers m = (if reading pc then insert t (readers (mo_lock s)) else readers (mo_lock s) - {t})"
    and "writing pc \<Longrightarrow> \<not> writing (mo_pc s t) \<Longrightarrow> writer (mo_lock s) = None \<and> readers (mo_lock s) = {}"
    and "reading pc \<Longrightarrow> writer (mo_lock s) = None"
  shows "held (go t pc (s\<lparr>mo_lock := m\<rparr>))"
  using assms held_writer_unique [OF assms(1)] not_both [of pc] unfolding held_def go_def
  by (cases "writing pc"; cases "reading pc"; cases "writing (mo_pc s t)"; cases "reading (mo_pc s t)") auto

lemma held_stay: "held s \<Longrightarrow> writing pc = writing (mo_pc s t) \<Longrightarrow> reading pc = reading (mo_pc s t) \<Longrightarrow> held (go t pc s)"
  by (auto simp: held_def go_def)

lemma held_unheld:
  assumes "held s" and "mo_pc s t = Outside"
  shows "readers (mo_lock s) - {t} = readers (mo_lock s)"
  using assms by (auto simp: held_def)

lemma held_cong: "mo_lock s' = mo_lock s \<Longrightarrow> mo_pc s' = mo_pc s \<Longrightarrow> held s' = held s"
  by (simp add: held_def)

lemma held_step:
  assumes "monitor_step ops T s s'" and "held s"
  shows "held s'"
  using assms
proof cases
  case (enter t m)
  then show ?thesis
    using lock [of t "mo_lock s" m] unfolding enter(1) by (intro held_go [OF assms(2)]) simp_all
next
  case (try_enter t spurious ok m)
  show ?thesis unfolding try_enter(1)
    by (rule held_go [OF assms(2)])
      (use try_lock [OF try_enter(2,4)] try_enter(3) held_unheld [OF assms(2) try_enter(3)]
        in \<open>cases ok; simp\<close>)+
next
  case (load t)
  with assms(2) show ?thesis by (auto intro!: held_stay)
next
  case (store t d p f)
  with assms(2) show ?thesis by (auto intro!: held_stay simp: held_cong [of "s\<lparr>mo_data := f d, mo_log := mo_log s @ [(p, f)]\<rparr>" s])
next
  case (wait t d m cv)
  with wait held_writer [OF assms(2), of t] have "held (go t Sleeping (s\<lparr>mo_lock := m\<rparr>))"
    using assms(2) unlock [of t "mo_lock s"] by (intro held_go) (auto simp: cv_wait_enter_def)
  then show ?thesis using wait by (simp add: go_def held_def)
next
  case (wake t m cv)
  then have l: "lo_lock ops t (mo_lock s) = Some m" by (auto simp: cv_wait_return_def split: option.splits)
  have "held (go t Wlocked (s\<lparr>mo_lock := m\<rparr>))"
    using assms(2) wake lock [OF _ l] by (intro held_go) auto
  then show ?thesis using wake by (simp add: go_def held_def)
next
  case (leave t d)
  then have w: "writing (mo_pc s t)" by auto
  with leave held_writer [OF assms(2) w] show ?thesis
    using assms(2) unlock [of t "mo_lock s"] unfolding leave(1) by (intro held_go) simp_all
next
  case (enter_shared t m)
  then show ?thesis
    using lock_shared [of t "mo_lock s" m] unfolding enter_shared(1) by (intro held_go [OF assms(2)]) simp_all
next
  case (try_enter_shared t spurious ok m)
  show ?thesis unfolding try_enter_shared(1)
    by (rule held_go [OF assms(2)])
      (use try_lock_shared [OF try_enter_shared(2,4)] try_enter_shared(3) held_unheld [OF assms(2) try_enter_shared(3)]
        in \<open>cases ok; simp\<close>)+
next
  case (load_shared t)
  with assms(2) show ?thesis by (auto intro!: held_stay)
next
  case (leave_shared t d)
  then have "reading (mo_pc s t)" by auto
  moreover from this have "t \<in> readers (mo_lock s)" "\<not> writing (mo_pc s t)"
    using assms(2) not_both [of "mo_pc s t"] unfolding held_def by auto
  ultimately show ?thesis
    using leave_shared(2) unlock_shared [of t "mo_lock s"] unfolding leave_shared(1)
    by (intro held_go [OF assms(2)]) simp_all
qed (simp_all add: held_def)

definition section_inv :: "'d \<Rightarrow> ('m, 'd) monitor \<Rightarrow> bool" where
  "section_inv d0 s \<longleftrightarrow> held s \<and>
     (\<forall>t d. mo_pc s t = Wloaded d \<or> mo_pc s t = Rloaded d \<longrightarrow> d = mo_data s) \<and>
     replay d0 (mo_log s) = Some (mo_data s)"

lemma section_inv_step:
  assumes "monitor_step ops T s s'" and inv: "section_inv d0 s"
  shows "section_inv d0 s'"
proof -
  have h: "held s'" using held_step [OF assms(1)] inv by (simp add: section_inv_def)
  from assms(1) show ?thesis
  proof cases
    case (store t d p f)
    have "held s" and d: "d = mo_data s" using inv store(3) by (auto simp: section_inv_def)
    have w: "writing (mo_pc s t)" using store by simp
    have "\<not> writing (mo_pc s u)" "\<not> reading (mo_pc s u)" if "u \<noteq> t" for u
      using that held_writer_unique [OF \<open>held s\<close> w, of u] held_exclusive [OF \<open>held s\<close> w, of u] by auto
    then have "mo_pc s u \<noteq> Wloaded e \<and> mo_pc s u \<noteq> Rloaded e" if "u \<noteq> t" for u e
      using that by (metis writing.simps(2) reading.simps(2))
    then show ?thesis using h inv store(4) d unfolding section_inv_def store(1) go_def
      by (simp add: replay_append)
  qed (use h inv in \<open>auto simp: section_inv_def go_def split: if_splits\<close>)
qed

lemma section_inv_reachable:
  assumes "monitor_steps ops T (monitor_new m0 d0) s" and "writer m0 = None" and "readers m0 = {}"
  shows "section_inv d0 s"
  using assms(1)
proof induction
  case base
  show ?case using assms(2,3) by (simp add: section_inv_def held_def monitor_new_def)
next
  case (step y z)
  then show ?case by (blast intro: section_inv_step)
qed

lemma reachable_sections_atomic:
  assumes "monitor_steps ops T (monitor_new m0 d0) s" and "writer m0 = None" and "readers m0 = {}"
  shows "sections_atomic d0 s"
  using section_inv_reachable [OF assms] held_writer_unique [of s] held_exclusive [of s]
  unfolding sections_atomic_def section_inv_def by blast

end

text \<open>A class without shared calls: its contract gives the other one, with no readers.\<close>

locale exclusive_lock =
  fixes lock_op :: "thread_id \<Rightarrow> 'm \<Rightarrow> 'm option" and try_op :: "bool \<Rightarrow> thread_id \<Rightarrow> 'm \<Rightarrow> bool \<times> 'm"
    and unlock_op :: "thread_id \<Rightarrow> 'm \<Rightarrow> 'm" and T :: "thread_id set" and owner :: "'m \<Rightarrow> thread_id option"
  assumes takes: "t \<in> T \<Longrightarrow> lock_op t m = Some m' \<Longrightarrow> owner m = None \<and> owner m' = Some t"
    and tries: "t \<in> T \<Longrightarrow> try_op spurious t m = (ok, m') \<Longrightarrow>
      (if ok then owner m = None \<and> owner m' = Some t else owner m' = owner m)"
    and gives: "t \<in> T \<Longrightarrow> owner m = Some t \<Longrightarrow> owner (unlock_op t m) = None"

sublocale exclusive_lock \<subseteq> mon: monitor_lock "exclusive_ops lock_op try_op unlock_op" T owner "\<lambda>m. {}"
  by unfold_locales (auto simp: exclusive_ops_def dest: takes tries gives split: if_splits)

context exclusive_lock
begin

lemma exclusive_sections_atomic:
  "monitor_steps (exclusive_ops lock_op try_op unlock_op) T (monitor_new m0 d0) s \<Longrightarrow> owner m0 = None \<Longrightarrow>
    sections_atomic d0 s"
  by (rule mon.reachable_sections_atomic) simp_all

end

section \<open>The four classes\<close>

interpretation std_mx: exclusive_lock std_mutex_lock std_mutex_try_lock std_mutex_unlock UNIV mtx_owner
  by unfold_locales
    (auto simp: std_mutex_lock_def std_mutex_try_lock_def std_mutex_unlock_def split: if_splits)

interpretation std_sm: monitor_lock std_shared_ops UNIV sm_writer sm_readers
  by unfold_locales
    (auto simp: std_shared_ops_def std_shared_lock_def std_shared_try_lock_def std_shared_unlock_def
      std_shared_lock_shared_def std_shared_try_lock_shared_def std_shared_unlock_shared_def split: if_splits)

lemma evl_mutex_exclusive:
  assumes "libevl_mutex_ok A L"
  shows "exclusive_lock (evl_mutex_lock L) (\<lambda>spurious. evl_mutex_try_lock L) (evl_mutex_unlock L) A (lm_owner L)"
proof
  fix t m m' assume "t \<in> A" "evl_mutex_lock L t m = Some m'"
  then obtain ret where "lm_lock L t m = Some (ret, m')" "t \<in> A" by (auto simp: evl_mutex_lock_def)
  moreover from this have "ret = 0" using assms unfolding libevl_mutex_ok_def by blast
  ultimately show "lm_owner L m = None \<and> lm_owner L m' = Some t"
    using assms unfolding libevl_mutex_ok_def by (metis (full_types))
next
  fix t spurious m ok m' assume "evl_mutex_try_lock L t m = (ok, m')"
  then show "if ok then lm_owner L m = None \<and> lm_owner L m' = Some t else lm_owner L m' = lm_owner L m"
    using assms by (auto simp: evl_mutex_try_lock_def libevl_mutex_ok_def split: prod.splits)
next
  fix t m assume "lm_owner L m = Some t"
  then show "lm_owner L (evl_mutex_unlock L t m) = None"
    using assms by (auto simp: evl_mutex_unlock_def libevl_mutex_ok_def)
qed

lemma evl_shared_monitor:
  assumes "libevl_rwlock_ok A L"
  shows "monitor_lock (evl_shared_ops L) A (lr_writer L) (lr_readers L)"
proof -
  note ok = assms [unfolded libevl_rwlock_ok_def]
  have zero: "ret = 0" if "t \<in> A" "lr_lock_write L t m = Some (ret, m') \<or> lr_lock_read L t m = Some (ret, m')" for t m ret m'
    using ok that by blast
  show ?thesis
  proof
    fix t m m' assume t: "t \<in> A" and "lo_lock (evl_shared_ops L) t m = Some m'"
    then obtain ret where "lr_lock_write L t m = Some (ret, m')" by (auto simp: evl_shared_ops_def evl_shared_lock_def)
    with zero [OF t, of m ret m'] show "lr_writer L m = None \<and> lr_readers L m = {} \<and> lr_writer L m' = Some t \<and> lr_readers L m' = {}"
      using conjunct1 [OF ok] by auto
  next
    fix t m m' assume t: "t \<in> A" and "lo_lock_shared (evl_shared_ops L) t m = Some m'"
    then obtain ret where "lr_lock_read L t m = Some (ret, m')" by (auto simp: evl_shared_ops_def evl_shared_lock_shared_def)
    with zero [OF t, of m ret m'] show "lr_writer L m = None \<and> lr_writer L m' = None \<and> lr_readers L m' = insert t (lr_readers L m)"
      using conjunct1 [OF conjunct2 [OF ok]] by auto
  next
    fix t spurious m okb m' assume "lo_try_lock (evl_shared_ops L) spurious t m = (okb, m')"
    then obtain ret where "lr_trylock_write L t m = (ret, m')" "okb = (ret = 0)"
      by (auto simp: evl_shared_ops_def evl_shared_try_lock_def split: prod.splits)
    then show "if okb then lr_writer L m = None \<and> lr_readers L m = {} \<and> lr_writer L m' = Some t \<and> lr_readers L m' = {}
       else lr_writer L m' = lr_writer L m \<and> lr_readers L m' = lr_readers L m"
      using conjunct1 [OF ok] by auto
  next
    fix t spurious m okb m' assume "lo_try_lock_shared (evl_shared_ops L) spurious t m = (okb, m')"
    then obtain ret where "lr_trylock_read L t m = (ret, m')" "okb = (ret = 0)"
      by (auto simp: evl_shared_ops_def evl_shared_try_lock_shared_def split: prod.splits)
    then show "if okb then lr_writer L m = None \<and> lr_writer L m' = None \<and> lr_readers L m' = insert t (lr_readers L m)
       else lr_writer L m' = lr_writer L m \<and> lr_readers L m' = lr_readers L m"
      using conjunct1 [OF conjunct2 [OF ok]] by auto
  qed (use ok in \<open>auto simp: evl_shared_ops_def evl_shared_unlock_def evl_shared_unlock_shared_def\<close>)
qed

text \<open>A libevl that refuses the threads outside \<open>A\<close> with \<open>EPERM\<close>, and otherwise keeps the holders.\<close>

definition EAGAIN :: int where "EAGAIN = 11"

definition plain_mutex :: "thread_id set \<Rightarrow> std_mutex libevl_mutex" where
  "plain_mutex A =
     \<lparr>lm_lock = (\<lambda>t m. if t \<notin> A then Some (- EPERM, m) else map_option (Pair 0) (std_mutex_lock t m)),
      lm_trylock = (\<lambda>t m. if t \<notin> A then (- EPERM, m) else
        (case std_mutex_try_lock False t m of (ok, m') \<Rightarrow> (if ok then 0 else - EBUSY, m'))),
      lm_unlock = (\<lambda>t m. if mtx_owner m = Some t then (0, std_mutex_unlock t m) else (- EPERM, m)),
      lm_owner = mtx_owner\<rparr>"

definition plain_rwlock :: "std_shared_mutex libevl_rwlock" where
  "plain_rwlock =
     \<lparr>lr_lock_write = (\<lambda>t m. map_option (Pair 0) (std_shared_lock t m)),
      lr_lock_read = (\<lambda>t m. map_option (Pair 0) (std_shared_lock_shared t m)),
      lr_trylock_write = (\<lambda>t m. case std_shared_try_lock False t m of (ok, m') \<Rightarrow> (if ok then 0 else - EAGAIN, m')),
      lr_trylock_read = (\<lambda>t m. case std_shared_try_lock_shared False t m of (ok, m') \<Rightarrow> (if ok then 0 else - EAGAIN, m')),
      lr_unlock_write = (\<lambda>t m. (0, std_shared_unlock t m)),
      lr_unlock_read = (\<lambda>t m. (0, std_shared_unlock_shared t m)),
      lr_writer = sm_writer, lr_readers = sm_readers\<rparr>"

lemma plain_mutex_ok: "libevl_mutex_ok A (plain_mutex A)"
  by (auto simp: libevl_mutex_ok_def plain_mutex_def std_mutex_lock_def std_mutex_try_lock_def
      std_mutex_unlock_def EPERM_def EBUSY_def split: if_splits)

lemma plain_rwlock_ok: "libevl_rwlock_ok A plain_rwlock"
  by (auto simp: libevl_rwlock_ok_def plain_rwlock_def std_shared_lock_def std_shared_try_lock_def
      std_shared_unlock_def std_shared_lock_shared_def std_shared_try_lock_shared_def
      std_shared_unlock_shared_def EAGAIN_def split: if_splits)

section \<open>Sections are atomic\<close>

text \<open>A thread that finds the lock free enters, loads and stores one update.\<close>

lemma one_update:
  assumes "t \<in> T" and "lo_lock ops t m0 = Some m" and "p d0"
  shows "monitor_steps ops T (monitor_new m0 d0)
    \<lparr>mo_lock = m, mo_cv = cv_new, mo_data = f d0, mo_log = [(p, f)], mo_pc = (\<lambda>u. Outside)(t := Wlocked)\<rparr>"
proof -
  let ?s0 = "monitor_new m0 d0"
  let ?s1 = "go t Wlocked (?s0\<lparr>mo_lock := m\<rparr>)"
  let ?s2 = "go t (Wloaded d0) ?s1"
  let ?s3 = "go t Wlocked (?s2\<lparr>mo_data := f d0, mo_log := mo_log ?s2 @ [(p, f)]\<rparr>)"
  have "monitor_step ops T ?s0 ?s1"
    by (rule monitor_step.enter) (use assms in \<open>simp_all add: monitor_new_def\<close>)
  moreover have "monitor_step ops T ?s1 ?s2"
    using monitor_step.load [of t T ?s1 ops] assms(1) by (simp add: go_def monitor_new_def)
  moreover have "monitor_step ops T ?s2 ?s3"
    by (rule monitor_step.store) (use assms in \<open>simp_all add: go_def\<close>)
  ultimately have "monitor_steps ops T ?s0 ?s3" by (meson converse_rtranclp_into_rtranclp r_into_rtranclp)
  then show ?thesis by (simp add: go_def monitor_new_def fun_upd_twist)
qed



text \<open>
  The same of the EVL back end, for the threads attached to the EVL core and any libevl that
  behaves as documented.
\<close>

lemma evl_sections_atomic:
  assumes "libevl_mutex_ok A L" and "lm_owner L m0 = None"
    and "libevl_rwlock_ok A R" and "lr_writer R r0 = None" and "lr_readers R r0 = {}"
    and "monitor_steps (evl_mutex_ops L) A (monitor_new m0 d0) s"
    and "monitor_steps (evl_shared_ops R) A (monitor_new r0 d0) r"
  shows "sections_atomic d0 s \<and> sections_atomic d0 r"
  using exclusive_lock.exclusive_sections_atomic [OF evl_mutex_exclusive [OF assms(1)]
      assms(6) [unfolded evl_mutex_ops_def] assms(2)]
    monitor_lock.reachable_sections_atomic [OF evl_shared_monitor [OF assms(3)] assms(7,4,5)] by simp

text \<open>
  Without attachment the promise is lost: \<open>lock\<close> drops the return code of \<open>evl_lock_mutex\<close>, so a
  thread that libevl refuses enters the section all the same, here while thread 1 is in it.
\<close>

lemma evl_lock_error_ignored:
  "\<exists>s. libevl_mutex_ok {1} (plain_mutex {1}) \<and>
     monitor_steps (evl_mutex_ops (plain_mutex {1})) UNIV (monitor_new std_mutex_new (0 :: nat)) s \<and>
     writing (mo_pc s 1) \<and> writing (mo_pc s 2)"
proof -
  let ?ops = "evl_mutex_ops (plain_mutex {Suc 0})" and ?m = "\<lparr>mtx_owner = Some (Suc 0)\<rparr>"
  let ?s0 = "monitor_new std_mutex_new (0 :: nat)"
  let ?s1 = "go (Suc 0) Wlocked (?s0\<lparr>mo_lock := ?m\<rparr>)" and ?s2 = "go 2 Wlocked (go (Suc 0) Wlocked (?s0\<lparr>mo_lock := ?m\<rparr>)\<lparr>mo_lock := ?m\<rparr>)"
  have lock: "lo_lock ?ops (Suc 0) std_mutex_new = Some ?m" "lo_lock ?ops 2 ?m = Some ?m"
    by (simp_all add: evl_mutex_ops_def exclusive_ops_def evl_mutex_lock_def plain_mutex_def std_mutex_lock_def std_mutex_new_def)
  have "monitor_step ?ops UNIV ?s0 ?s1"
    by (rule monitor_step.enter) (simp_all add: lock monitor_new_def)
  moreover have "monitor_step ?ops UNIV ?s1 ?s2"
    by (rule monitor_step.enter) (simp_all add: lock monitor_new_def go_def)
  ultimately have "monitor_steps ?ops UNIV ?s0 ?s2" by (meson converse_rtranclp_into_rtranclp r_into_rtranclp)
  then show ?thesis by (intro exI [of _ ?s2]) (simp add: plain_mutex_ok go_def)
qed

section \<open>Names and condition variables\<close>

text \<open>
  No name is cut, and two elements of one kind get the same name only from the same counter value
  in the same process.
\<close>

lemma evl_element_name_full:
  "evl_element_name kind counter pid =
     take 63 (''corerat-'' @ kind @ ''-'' @ decimal_int (sint counter) @ '':'' @ decimal_int (sint pid))"
  by (simp add: evl_element_name_def snprintf_def)

lemma evl_element_names_distinct:
  assumes "length kind = 3" and "evl_element_name kind c p = evl_element_name kind c' p'"
  shows "c = c' \<and> p = p'"
proof -
  have len: "length (decimal_int (sint w)) \<le> 11" for w :: u32
    using sint_lt [of w] sint_ge [of w] by (intro decimal_int_length) auto
  have "length (decimal_int (sint c)) + length (decimal_int (sint p)) \<le> 22"
    "length (decimal_int (sint c')) + length (decimal_int (sint p')) \<le> 22"
    using len [of c] len [of p] len [of c'] len [of p'] by linarith+
  then have "decimal_int (sint c) @ '':'' @ decimal_int (sint p) = decimal_int (sint c') @ '':'' @ decimal_int (sint p')"
    using assms by (simp add: evl_element_name_full)
  then have "decimal_int (sint c) = decimal_int (sint c') \<and> decimal_int (sint p) = decimal_int (sint p')"
    using decimal_int_chars by (simp add: append_Cons_eq_iff)
  then show ?thesis by (metis decimal_int_inject signed_word_eqI)
qed

text \<open>
  The process makes at most \<open>2^32\<close> mutexes before a name recurs: the names of any run of at most
  that many constructor calls are distinct.
\<close>

fun new_mutexes :: "u32 \<Rightarrow> u32 \<Rightarrow> nat \<Rightarrow> string list" where
  "new_mutexes pid counter 0 = []"
| "new_mutexes pid counter (Suc n) =
     (case evl_mutex_new pid counter of (name, counter') \<Rightarrow> name # new_mutexes pid counter' n)"

lemma new_mutexes_names: "new_mutexes pid c n = map (\<lambda>i. evl_element_name ''mtx'' (c + of_nat i) pid) [0..<n]"
proof (induction n arbitrary: c)
  case (Suc n)
  have "[0..<Suc n] = 0 # map Suc [0..<n]" by (metis map_Suc_upt upt_conv_Cons zero_less_Suc)
  with Suc show ?case by (simp add: evl_mutex_new_def add.assoc comp_def del: upt_Suc)
qed simp

lemma new_mutexes_distinct:
  assumes "n \<le> 2 ^ 32"
  shows "distinct (new_mutexes pid c n)"
proof -
  have "inj_on (\<lambda>i. evl_element_name ''mtx'' (c + of_nat i) pid) {..<n}"
  proof (rule inj_onI)
    fix i j assume i: "i \<in> {..<n}" "j \<in> {..<n}"
      and "evl_element_name ''mtx'' (c + of_nat i) pid = evl_element_name ''mtx'' (c + of_nat j) pid"
    then have "(of_nat i :: u32) = of_nat j" using evl_element_names_distinct [of "''mtx''"] by force
    then have "unat (of_nat i :: u32) = unat (of_nat j :: u32)" by simp
    then show "i = j" using i assms by (simp add: unat_of_nat)
  qed
  then show ?thesis by (simp add: new_mutexes_names distinct_map lessThan_atLeast0)
qed

text \<open>
  The timed wait with a predicate of \<open>std::condition_variable_any\<close> evaluates the predicate before
  every wait and once more after a timeout. The EVL loop evaluates it one time more before the
  first wait, under the same lock, and so decides alike.
\<close>

datatype std_cv_status = Cv_no_timeout | Cv_timeout

definition std_wait_for :: "std_cv_status \<Rightarrow> cv_status" where
  "std_wait_for status = (if status = Cv_timeout then TIMEOUT else NO_TIMEOUT)"

partial_function (option) std_wait_pred :: "(nat \<Rightarrow> bool) \<Rightarrow> nat \<Rightarrow> nat option" where
  "std_wait_pred pred k = (if \<not> pred k then std_wait_pred pred (Suc k) else Some k)"

partial_function (option) std_wait_for_pred :: "(nat \<Rightarrow> bool) \<Rightarrow> (nat \<Rightarrow> std_cv_status) \<Rightarrow> nat \<Rightarrow> bool option" where
  "std_wait_for_pred pred status k =
     (if pred k then Some True
      else if status k = Cv_timeout then Some (pred (Suc k))
      else std_wait_for_pred pred status (Suc k))"

lemma evl_wait_loop_std:
  assumes "evl_wait_loop p ret k = Some b"
  shows "(\<forall>k. p (Suc k) = pred k) \<longrightarrow> (\<forall>k. std_wait_for (status k) = evl_wait_for (ret k)) \<longrightarrow> std_wait_for_pred pred status k = Some b"
proof (rule evl_wait_loop.raw_induct [OF _ assms, rotated 1])
  fix loop p ret k b
  assume "\<And>p ret k b. loop p ret k = Some b \<Longrightarrow>
      (\<forall>k. p (Suc k) = pred k) \<longrightarrow> (\<forall>k. std_wait_for (status k) = evl_wait_for (ret k)) \<longrightarrow> std_wait_for_pred pred status k = Some b"
    and "(if p (Suc k) then Some True else if ret k = - ETIMEDOUT then Some (p (Suc (Suc k))) else loop p ret (Suc k)) = Some b"
  then show "(\<forall>k. p (Suc k) = pred k) \<longrightarrow> (\<forall>k. std_wait_for (status k) = evl_wait_for (ret k)) \<longrightarrow> std_wait_for_pred pred status k = Some b"
    by (subst std_wait_for_pred.simps) (auto simp: evl_wait_for_def std_wait_for_def split: if_splits)
qed

lemma std_wait_for_evl:
  assumes "std_wait_for_pred pred status k = Some b"
  shows "(\<forall>k. p (Suc k) = pred k) \<longrightarrow> (\<forall>k. std_wait_for (status k) = evl_wait_for (ret k)) \<longrightarrow> evl_wait_loop p ret k = Some b"
proof (rule std_wait_for_pred.raw_induct [OF _ assms, rotated 1])
  fix loop pred status k b
  assume "\<And>pred status k b. loop pred status k = Some b \<Longrightarrow>
      (\<forall>k. p (Suc k) = pred k) \<longrightarrow> (\<forall>k. std_wait_for (status k) = evl_wait_for (ret k)) \<longrightarrow> evl_wait_loop p ret k = Some b"
    and "(if pred k then Some True else if status k = Cv_timeout then Some (pred (Suc k)) else loop pred status (Suc k)) = Some b"
  then show "(\<forall>k. p (Suc k) = pred k) \<longrightarrow> (\<forall>k. std_wait_for (status k) = evl_wait_for (ret k)) \<longrightarrow> evl_wait_loop p ret k = Some b"
    by (subst evl_wait_loop.simps) (auto simp: evl_wait_for_def std_wait_for_def split: if_splits)
qed

lemma std_wait_pred_first:
  assumes "k \<le> n" and "pred n" and "\<And>j. k \<le> j \<Longrightarrow> j < n \<Longrightarrow> \<not> pred j"
  shows "std_wait_pred pred k = Some n" and "evl_wait_pred pred k = Some n"
proof -
  show "std_wait_pred pred k = Some n" using assms
  proof (induction k rule: inc_induct)
    case base
    then show ?case by (subst std_wait_pred.simps) simp
  next
    case (step m)
    then show ?case by (subst std_wait_pred.simps) simp
  qed
  show "evl_wait_pred pred k = Some n" using assms by (intro evl_wait_pred_first) auto
qed

lemma evl_std_wait_for_agree:
  assumes "\<And>k. std_wait_for (status k) = evl_wait_for (ret k)"
  shows "evl_wait_for_pred (\<lambda>k. pred (k - 1)) ret = std_wait_for_pred pred status 0"
proof -
  let ?p = "\<lambda>k. pred (k - 1)"
  have "evl_wait_loop ?p ret k = Some b \<longleftrightarrow> std_wait_for_pred pred status k = Some b" for k b
    using evl_wait_loop_std [of ?p ret k b pred status] std_wait_for_evl [of pred status k b ?p ret] assms
    by auto
  then have "evl_wait_loop ?p ret k = std_wait_for_pred pred status k" for k
    by (metis not_Some_eq)
  then show ?thesis
    by (cases "pred 0") (simp_all add: evl_wait_for_pred_def std_wait_for_pred.simps)
qed

end
