(* ===== verification/Evl_Shm.thy ===== *)
theory Evl_Shm
  imports Evl_Ring
begin

text \<open>
  The shared memory image of a public EVL mailbox's ring, \<open>ipc/evl/evl_backend.hpp\<close>: a
  \<open>ShmLayout\<close> header, the array of \<open>SlotMeta\<close> and the payload, addressed the way the sources
  compute their pointers. The routines of the owner (\<open>slot_meta_at\<close>, \<open>slot_ptr\<close>, \<open>post\<close>, the
  receive step) and of a sender in another process (\<open>post_to_remote\<close>, which takes the
  dimensions from the header) are given over the bytes of the region. They refine the ring of
  \<open>Evl_Ring\<close>: \<open>ring_at\<close> reads the ring off the bytes. An access outside the region is \<open>None\<close>.
\<close>

section \<open>Layout\<close>

definition sizeof_ShmLayout :: nat where "sizeof_ShmLayout = 16"
definition sizeof_SlotMeta :: nat where "sizeof_SlotMeta = 12"

record shm_layout =
  sl_capacity :: u32
  sl_slot_size :: u32

text \<open>The header's eight bytes of padding are not written.\<close>

definition write_layout :: "u32 \<Rightarrow> u32 \<Rightarrow> bytes \<Rightarrow> bytes" where
  "write_layout slots slot_size mem = overwrite 4 (enc_u32 slot_size) (overwrite 0 (enc_u32 slots) mem)"

definition read_layout :: "bytes \<Rightarrow> shm_layout" where
  "read_layout mem = \<lparr>sl_capacity = dec_u32 mem, sl_slot_size = dec_u32 (drop 4 mem)\<rparr>"

definition shm_total :: "u32 \<Rightarrow> u32 \<Rightarrow> nat" where
  "shm_total cap slot_sz = sizeof_ShmLayout + unat cap * sizeof_SlotMeta + unat cap * unat slot_sz"

text \<open>
  \<open>SlotMeta\<close>: priority, mark, two bytes of padding, source, size. Assigning one leaves the padding
  as it is.
\<close>

definition slot_meta_offset :: "nat \<Rightarrow> nat" where
  "slot_meta_offset idx = sizeof_ShmLayout + idx * sizeof_SlotMeta"

definition read_slot_meta :: "bytes \<Rightarrow> nat \<Rightarrow> slot_meta" where
  "read_slot_meta mem idx =
     (let p = slot_meta_offset idx
      in \<lparr>sm_priority = mem ! p, sm_in_use = (mem ! (p + 1) \<noteq> 0),
          sm_src = dec_u32 (drop (p + 4) mem), sm_size = dec_u32 (drop (p + 8) mem)\<rparr>)"

definition write_slot_meta :: "nat \<Rightarrow> slot_meta \<Rightarrow> bytes \<Rightarrow> bytes" where
  "write_slot_meta idx sm mem =
     (let p = slot_meta_offset idx
      in overwrite (p + 4) (enc_u32 (sm_src sm) @ enc_u32 (sm_size sm))
           (overwrite p [sm_priority sm, if sm_in_use sm then 1 else 0] mem))"

definition clear_in_use :: "nat \<Rightarrow> bytes \<Rightarrow> bytes" where
  "clear_in_use idx mem = overwrite (slot_meta_offset idx + 1) [0] mem"

text \<open>The product of index and slot size is computed in 32 bits.\<close>

definition slot_offset :: "u32 \<Rightarrow> u32 \<Rightarrow> nat \<Rightarrow> nat" where
  "slot_offset capacity slot_size idx =
     sizeof_ShmLayout + unat capacity * sizeof_SlotMeta + unat (of_nat idx * slot_size)"

section \<open>The owner's routines\<close>

definition shm_find_free_slot :: "u32 \<Rightarrow> bytes \<Rightarrow> nat option" where
  "shm_find_free_slot capacity mem =
     List.find (\<lambda>i. \<not> sm_in_use (read_slot_meta mem i)) [0..<unat capacity]"

definition shm_find_highest_priority_slot :: "u32 \<Rightarrow> bytes \<Rightarrow> nat option" where
  "shm_find_highest_priority_slot capacity mem = fst (foldl (\<lambda>(best, prio) i.
     if sm_in_use (read_slot_meta mem i) \<and> sint (sm_priority (read_slot_meta mem i)) > prio
     then (Some i, sint (sm_priority (read_slot_meta mem i))) else (best, prio)) (None, -128) [0..<unat capacity])"

definition shm_lowest :: "u32 \<Rightarrow> bytes \<Rightarrow> nat option \<times> int" where
  "shm_lowest capacity mem = foldl (\<lambda>(worst, prio) i.
     if sm_in_use (read_slot_meta mem i) \<and> sint (sm_priority (read_slot_meta mem i)) < prio
     then (Some i, sint (sm_priority (read_slot_meta mem i))) else (worst, prio)) (None, 127) [0..<unat capacity]"

definition shm_evict_lowest :: "u32 \<Rightarrow> i8 \<Rightarrow> bytes \<Rightarrow> nat option \<times> bytes" where
  "shm_evict_lowest capacity prio_new mem =
     (case shm_lowest capacity mem of (worst, prio) \<Rightarrow>
        case worst of None \<Rightarrow> (None, mem)
        | Some w \<Rightarrow> if sint prio_new \<ge> prio then (Some w, clear_in_use w mem) else (None, mem))"

text \<open>\<open>memcpy\<close> to an address of the region.\<close>

definition copy_to :: "nat \<Rightarrow> bytes \<Rightarrow> bytes \<Rightarrow> bytes option" where
  "copy_to p data mem = (if p + length data \<le> length mem then Some (overwrite p data mem) else None)"

definition shm_store :: "u32 \<Rightarrow> u32 \<Rightarrow> nat \<Rightarrow> bytes \<Rightarrow> i8 \<Rightarrow> u32 \<Rightarrow> bytes \<Rightarrow> bytes option" where
  "shm_store capacity slot_size idx data priority src mem =
     map_option (write_slot_meta idx
         \<lparr>sm_priority = priority, sm_in_use = True, sm_src = src, sm_size = of_nat (length data)\<rparr>)
       (copy_to (slot_offset capacity slot_size idx) data mem)"

definition shm_post :: "u32 \<Rightarrow> u32 \<Rightarrow> bytes \<Rightarrow> i8 \<Rightarrow> u32 \<Rightarrow> bytes \<Rightarrow> (bool \<times> bytes) option" where
  "shm_post capacity slot_size data priority src mem =
     (case (case shm_find_free_slot capacity mem of Some i \<Rightarrow> (Some i, mem)
            | None \<Rightarrow> shm_evict_lowest capacity priority mem) of
        (None, mem1) \<Rightarrow> Some (False, mem1)
      | (Some idx, mem1) \<Rightarrow>
          map_option (Pair True) (shm_store capacity slot_size idx data priority src mem1))"

definition shm_receive :: "u32 \<Rightarrow> u32 \<Rightarrow> nat \<Rightarrow> bytes \<Rightarrow> (int \<times> bytes \<times> slot_meta \<times> bytes) option" where
  "shm_receive capacity slot_size buffer_size mem =
     (case shm_find_highest_priority_slot capacity mem of None \<Rightarrow> None
      | Some idx \<Rightarrow>
          let sm = read_slot_meta mem idx; sz = unat (sm_size sm)
          in if sz > buffer_size then Some (- EMSGSIZE, [], sm, mem)
             else Some (int sz, take sz (drop (slot_offset capacity slot_size idx) mem), sm,
               clear_in_use idx mem))"

section \<open>A sender in another process\<close>

text \<open>It maps as many bytes as the header asks for, and knows nothing else of the ring.\<close>

definition mapped_size :: "bytes \<Rightarrow> nat" where
  "mapped_size mem = (let layout = read_layout mem in shm_total (sl_capacity layout) (sl_slot_size layout))"

definition shm_post_to_remote :: "bytes \<Rightarrow> i8 \<Rightarrow> u32 \<Rightarrow> bytes \<Rightarrow> (bool \<times> bytes) option" where
  "shm_post_to_remote data priority src mem =
     (let layout = read_layout mem; capacity = sl_capacity layout; slot_size = sl_slot_size layout;
          free = List.find (\<lambda>i. \<not> sm_in_use (read_slot_meta mem i)) [0..<unat capacity];
          (idx, mem1) =
            (case free of Some i \<Rightarrow> (Some i, mem)
             | None \<Rightarrow>
                 (case foldl (\<lambda>(worst, wprio) i.
                     if sm_in_use (read_slot_meta mem i) \<and> sint (sm_priority (read_slot_meta mem i)) < wprio
                     then (Some i, sint (sm_priority (read_slot_meta mem i))) else (worst, wprio))
                     (None, 127) [0..<unat capacity] of
                    (None, wprio) \<Rightarrow> (None, mem)
                  | (Some w, wprio) \<Rightarrow> if sint priority \<ge> wprio then (Some w, clear_in_use w mem) else (None, mem)))
      in case idx of None \<Rightarrow> Some (False, mem1)
         | Some i \<Rightarrow>
             let sz = min (length data) (unat slot_size)
             in map_option (\<lambda>m. (True, write_slot_meta i
                    \<lparr>sm_priority = priority, sm_in_use = True, sm_src = src, sm_size = of_nat sz\<rparr> m))
                  (copy_to (slot_offset capacity slot_size i) (take sz data) mem1))"

section \<open>Reading and writing the image\<close>

lemmas shm_sizes = sizeof_ShmLayout_def sizeof_SlotMeta_def slot_meta_offset_def

lemma dec_u32_other:
  assumes "n + length d \<le> length mem" and "n + length d \<le> p \<or> p + 4 \<le> n"
  shows "dec_u32 (drop p (overwrite n d mem)) = dec_u32 (drop p mem)"
  using overwrite_read_other [OF assms] by (metis dec_u32_take)

lemma dec_u32_same:
  assumes "n + 4 \<le> length mem"
  shows "dec_u32 (drop n (overwrite n (enc_u32 w) mem)) = w"
proof -
  have "take 4 (drop n (overwrite n (enc_u32 w) mem)) = enc_u32 w"
    using assms overwrite_read_same [of n "enc_u32 w" mem] by simp
  then show ?thesis by (metis dec_u32_take u32_layout.dec_enc)
qed

text \<open>Bytes written outside a slot's record do not change what it reads.\<close>

lemma read_slot_meta_outside:
  assumes "n + length d \<le> length mem" and "slot_meta_offset i + 12 \<le> length mem"
    and "n + length d \<le> slot_meta_offset i \<or> slot_meta_offset i + 12 \<le> n"
  shows "read_slot_meta (overwrite n d mem) i = read_slot_meta mem i"
  using assms dec_u32_other [of n d mem "slot_meta_offset i + 4"] dec_u32_other [of n d mem "slot_meta_offset i + 8"]
  by (auto simp: read_slot_meta_def Let_def overwrite_nth)

lemma length_write_slot_meta [simp]:
  "slot_meta_offset i + 12 \<le> length mem \<Longrightarrow> length (write_slot_meta i sm mem) = length mem"
  by (simp add: write_slot_meta_def Let_def)

lemma length_clear_in_use [simp]:
  "slot_meta_offset i + 12 \<le> length mem \<Longrightarrow> length (clear_in_use i mem) = length mem"
  by (simp add: clear_in_use_def)

lemma take_8_split:
  assumes "take 8 x = a @ b" and "length a = 4" and "length b = 4"
  shows "take 4 x = a" and "take 4 (drop 4 x) = b"
proof -
  have "take 4 x = take 4 (take 8 x)" "take 4 (drop 4 x) = drop 4 (take 8 x)" by (simp_all add: drop_take)
  then show "take 4 x = a" "take 4 (drop 4 x) = b" using assms by simp_all
qed

lemma read_write_slot_meta:
  assumes "slot_meta_offset i + 12 \<le> length mem" and "slot_meta_offset j + 12 \<le> length mem"
  shows "read_slot_meta (write_slot_meta i sm mem) j = (if j = i then sm else read_slot_meta mem j)"
proof (cases "j = i")
  case True
  let ?p = "slot_meta_offset i"
  let ?m = "overwrite ?p [sm_priority sm, if sm_in_use sm then 1 else 0] mem"
  let ?d = "enc_u32 (sm_src sm) @ enc_u32 (sm_size sm)"
  have l: "length ?m = length mem" using assms by simp
  have w: "write_slot_meta i sm mem = overwrite (?p + 4) ?d ?m" by (simp add: write_slot_meta_def Let_def)
  have "take 8 (drop (?p + 4) (overwrite (?p + 4) ?d ?m)) = ?d"
    using overwrite_read_same [of "?p + 4" ?d ?m] assms l by simp
  from take_8_split [OF this] have "take 4 (drop (?p + 4) (overwrite (?p + 4) ?d ?m)) = enc_u32 (sm_src sm)"
    "take 4 (drop (?p + 8) (overwrite (?p + 4) ?d ?m)) = enc_u32 (sm_size sm)"
    by (simp_all add: add.commute)
  then have "dec_u32 (drop (?p + 4) (overwrite (?p + 4) ?d ?m)) = sm_src sm"
    "dec_u32 (drop (?p + 8) (overwrite (?p + 4) ?d ?m)) = sm_size sm"
    by (metis dec_u32_take u32_layout.dec_enc)+
  with True assms l show ?thesis unfolding w
    by (cases sm) (simp add: read_slot_meta_def Let_def overwrite_nth)
next
  case False
  then have "slot_meta_offset i + 12 \<le> slot_meta_offset j \<or> slot_meta_offset j + 12 \<le> slot_meta_offset i"
    by (auto simp: shm_sizes)
  with assms False show ?thesis
    by (auto simp: write_slot_meta_def Let_def read_slot_meta_outside)
qed

lemma read_clear_in_use:
  assumes "slot_meta_offset i + 12 \<le> length mem" and "slot_meta_offset j + 12 \<le> length mem"
  shows "read_slot_meta (clear_in_use i mem) j =
    (if j = i then (read_slot_meta mem i)\<lparr>sm_in_use := False\<rparr> else read_slot_meta mem j)"
proof (cases "j = i")
  case True
  with assms show ?thesis
    by (simp add: clear_in_use_def read_slot_meta_def Let_def overwrite_nth dec_u32_other)
next
  case False
  then have "slot_meta_offset i + 12 \<le> slot_meta_offset j \<or> slot_meta_offset j + 12 \<le> slot_meta_offset i"
    by (auto simp: shm_sizes)
  with assms False show ?thesis by (auto simp: clear_in_use_def read_slot_meta_outside)
qed

section \<open>The ring in the image\<close>

definition ring_at :: "u32 \<Rightarrow> u32 \<Rightarrow> bytes \<Rightarrow> ring" where
  "ring_at capacity slot_size mem =
     \<lparr>rg_capacity = unat capacity, rg_slot_size = unat slot_size,
      rg_meta = map (read_slot_meta mem) [0..<unat capacity],
      rg_data = drop (sizeof_ShmLayout + unat capacity * sizeof_SlotMeta) mem\<rparr>"

text \<open>A region of the right size whose header gives its dimensions, with the slots addressable.\<close>

definition shm_ok :: "u32 \<Rightarrow> u32 \<Rightarrow> bytes \<Rightarrow> bool" where
  "shm_ok capacity slot_size mem \<longleftrightarrow> length mem = shm_total capacity slot_size \<and>
     read_layout mem = \<lparr>sl_capacity = capacity, sl_slot_size = slot_size\<rparr> \<and> unat capacity * unat slot_size < 2 ^ 32"

lemma shm_ok_meta: "shm_ok cap ssz mem \<Longrightarrow> i < unat cap \<Longrightarrow> slot_meta_offset i + 12 \<le> length mem"
  by (auto simp: shm_ok_def shm_total_def shm_sizes)

lemma meta_before_data: "i < unat cap \<Longrightarrow> slot_meta_offset i + 12 \<le> sizeof_ShmLayout + unat cap * sizeof_SlotMeta"
  by (auto simp: shm_sizes)

lemma slot_offset_exact:
  assumes "unat cap * unat ssz < 2 ^ 32" and "i < unat cap"
  shows "slot_offset cap ssz i = sizeof_ShmLayout + unat cap * sizeof_SlotMeta + i * unat ssz"
proof -
  have "i * unat ssz < 2 ^ 32" using assms by (meson le_less_trans less_imp_le_nat mult_le_mono1)
  moreover have "unat cap < 2 ^ 32" using unsigned_less [of cap] by simp
  then have "i < 2 ^ 32" using assms(2) by simp
  ultimately have "unat (of_nat i * ssz) = i * unat ssz" by (simp add: unat_word_ariths unat_of_nat)
  then show ?thesis by (simp add: slot_offset_def)
qed

lemma ring_at_write:
  assumes "shm_ok cap ssz mem" and "i < unat cap"
  shows "ring_at cap ssz (write_slot_meta i sm mem) = (ring_at cap ssz mem)\<lparr>rg_meta := (rg_meta (ring_at cap ssz mem))[i := sm]\<rparr>"
    and "ring_at cap ssz (clear_in_use i mem) = release_slot (ring_at cap ssz mem) i"
    and "shm_ok cap ssz (write_slot_meta i sm mem)" and "shm_ok cap ssz (clear_in_use i mem)"
proof -
  note m = shm_ok_meta [OF assms] and b = meta_before_data [OF assms(2)]
  have nth: "read_slot_meta (write_slot_meta i sm mem) j = (if j = i then sm else read_slot_meta mem j)"
    "read_slot_meta (clear_in_use i mem) j = (if j = i then (read_slot_meta mem i)\<lparr>sm_in_use := False\<rparr> else read_slot_meta mem j)"
    if "j < unat cap" for j
    using m shm_ok_meta [OF assms(1) that] by (simp_all add: read_write_slot_meta read_clear_in_use)
  have "map (read_slot_meta (write_slot_meta i sm mem)) [0..<unat cap] = (map (read_slot_meta mem) [0..<unat cap])[i := sm]"
    "map (read_slot_meta (clear_in_use i mem)) [0..<unat cap] =
       (map (read_slot_meta mem) [0..<unat cap])[i := (read_slot_meta mem i)\<lparr>sm_in_use := False\<rparr>]"
    using assms(2) by (auto intro!: nth_equalityI simp: nth nth_list_update)
  moreover have "drop (sizeof_ShmLayout + unat cap * sizeof_SlotMeta) (write_slot_meta i sm mem) =
      drop (sizeof_ShmLayout + unat cap * sizeof_SlotMeta) mem"
    "drop (sizeof_ShmLayout + unat cap * sizeof_SlotMeta) (clear_in_use i mem) =
      drop (sizeof_ShmLayout + unat cap * sizeof_SlotMeta) mem"
    using m b by (simp_all add: write_slot_meta_def clear_in_use_def Let_def drop_overwrite)
  ultimately show "ring_at cap ssz (write_slot_meta i sm mem) = (ring_at cap ssz mem)\<lparr>rg_meta := (rg_meta (ring_at cap ssz mem))[i := sm]\<rparr>"
    "ring_at cap ssz (clear_in_use i mem) = release_slot (ring_at cap ssz mem) i"
    using assms(2) by (simp_all add: ring_at_def release_slot_def)
  have "read_layout (write_slot_meta i sm mem) = read_layout mem" "read_layout (clear_in_use i mem) = read_layout mem"
    using m dec_u32_other [of _ _ _ 0]
    by (simp_all add: read_layout_def write_slot_meta_def clear_in_use_def Let_def dec_u32_other slot_meta_offset_def sizeof_ShmLayout_def)
  then show "shm_ok cap ssz (write_slot_meta i sm mem)" "shm_ok cap ssz (clear_in_use i mem)"
    using assms(1) m by (simp_all add: shm_ok_def)
qed

lemma ring_at_copy:
  assumes "shm_ok cap ssz mem" and "i < unat cap"
  shows "copy_to (slot_offset cap ssz i) d mem = None \<longleftrightarrow>
      length (rg_data (ring_at cap ssz mem)) < i * unat ssz + length d"
    and "copy_to (slot_offset cap ssz i) d mem = Some mem' \<Longrightarrow>
      shm_ok cap ssz mem' \<and> ring_at cap ssz mem' = (ring_at cap ssz mem)\<lparr>rg_data :=
        overwrite (i * unat ssz) d (rg_data (ring_at cap ssz mem))\<rparr>"
proof -
  let ?h = "sizeof_ShmLayout + unat cap * sizeof_SlotMeta"
  have off: "slot_offset cap ssz i = ?h + i * unat ssz"
    using assms by (intro slot_offset_exact) (simp_all add: shm_ok_def)
  have len: "length mem = ?h + unat cap * unat ssz" using assms(1) by (simp add: shm_ok_def shm_total_def)
  show "copy_to (slot_offset cap ssz i) d mem = None \<longleftrightarrow> length (rg_data (ring_at cap ssz mem)) < i * unat ssz + length d"
    using len by (auto simp: copy_to_def off ring_at_def)
  assume "copy_to (slot_offset cap ssz i) d mem = Some mem'"
  then have fits: "?h + i * unat ssz + length d \<le> length mem" and mem': "mem' = overwrite (?h + i * unat ssz) d mem"
    by (auto simp: copy_to_def off split: if_splits)
  have "read_slot_meta mem' j = read_slot_meta mem j" if "j < unat cap" for j
    unfolding mem' using fits meta_before_data [OF that] len by (intro read_slot_meta_outside) auto
  moreover have "drop ?h mem' = overwrite (i * unat ssz) d (drop ?h mem)"
    unfolding mem' using fits by (simp add: drop_overwrite_inside)
  moreover have "read_layout mem' = read_layout mem"
    unfolding mem' using fits dec_u32_other [of "?h + i * unat ssz" d mem 0] dec_u32_other [of "?h + i * unat ssz" d mem 4]
    by (simp add: read_layout_def sizeof_ShmLayout_def)
  ultimately show "shm_ok cap ssz mem' \<and> ring_at cap ssz mem' = (ring_at cap ssz mem)\<lparr>rg_data :=
        overwrite (i * unat ssz) d (rg_data (ring_at cap ssz mem))\<rparr>"
    using assms(1) fits by (simp add: shm_ok_def ring_at_def) (simp add: mem')
qed

section \<open>Refinement\<close>

lemma ring_at_fields [simp]:
  "rg_capacity (ring_at cap ssz mem) = unat cap" "rg_slot_size (ring_at cap ssz mem) = unat ssz"
  "i < unat cap \<Longrightarrow> rg_meta (ring_at cap ssz mem) ! i = read_slot_meta mem i"
  by (simp_all add: ring_at_def)

lemma find_upt_cong: "(\<And>i. i < n \<Longrightarrow> P i = Q i) \<Longrightarrow> List.find P [0..<n] = List.find Q [0..<n]"
  by (rule find_cong) simp_all

lemma foldl_upt_cong: "(\<And>a i. i < n \<Longrightarrow> f a i = g a i) \<Longrightarrow> foldl f a [0..<n] = foldl g a [0..<n]"
  by (rule foldl_cong) simp_all

lemma shm_searches:
  "shm_find_free_slot cap mem = find_free_slot (ring_at cap ssz mem)"
  "shm_find_highest_priority_slot cap mem = find_highest_priority_slot (ring_at cap ssz mem)"
  "shm_lowest cap mem = lowest_priority_slot (ring_at cap ssz mem)"
proof -
  show "shm_find_free_slot cap mem = find_free_slot (ring_at cap ssz mem)"
    unfolding shm_find_free_slot_def find_free_slot_def ring_at_fields(1) by (rule find_upt_cong) simp
  show "shm_find_highest_priority_slot cap mem = find_highest_priority_slot (ring_at cap ssz mem)"
    unfolding shm_find_highest_priority_slot_def find_highest_priority_slot_def ring_at_fields(1)
    by (rule arg_cong [of _ _ fst], rule foldl_upt_cong) (simp split: prod.splits)
  show "shm_lowest cap mem = lowest_priority_slot (ring_at cap ssz mem)"
    unfolding shm_lowest_def lowest_priority_slot_def ring_at_fields(1)
    by (rule foldl_upt_cong) (simp split: prod.splits)
qed

lemma shm_evict_refines:
  assumes "shm_ok cap ssz mem" and "shm_evict_lowest cap prio mem = (idx, mem')"
  shows "evict_lowest (ring_at cap ssz mem) prio = (idx, ring_at cap ssz mem') \<and> shm_ok cap ssz mem' \<and>
    (\<forall>i. idx = Some i \<longrightarrow> i < unat cap)"
proof -
  obtain worst p where l: "shm_lowest cap mem = (worst, p)" by fastforce
  note l' = l [unfolded shm_searches(3) [of cap mem ssz]]
  show ?thesis
  proof (cases worst)
    case None
    with assms l l' show ?thesis by (simp add: shm_evict_lowest_def evict_lowest_def)
  next
    case (Some w)
    then have "w < unat cap" using lowest_priority_slot_props(1) [OF l'] by simp
    with assms l l' Some ring_at_write(2,4) [OF assms(1), of w] show ?thesis
      by (auto simp: shm_evict_lowest_def evict_lowest_def split: if_splits)
  qed
qed

lemma shm_store_refines:
  assumes "shm_ok cap ssz mem" and "i < unat cap"
  shows "map_option (ring_at cap ssz) (shm_store cap ssz i d prio src mem) = fill_slot (ring_at cap ssz mem) i d prio src"
    and "shm_store cap ssz i d prio src mem = Some mem' \<Longrightarrow> shm_ok cap ssz mem'"
proof -
  let ?sm = "\<lparr>sm_priority = prio, sm_in_use = True, sm_src = src, sm_size = of_nat (length d)\<rparr>"
  note c = ring_at_copy [OF assms, of d]
  show "map_option (ring_at cap ssz) (shm_store cap ssz i d prio src mem) = fill_slot (ring_at cap ssz mem) i d prio src"
  proof (cases "copy_to (slot_offset cap ssz i) d mem")
    case None
    then show ?thesis using c(1) by (simp add: shm_store_def fill_slot_def)
  next
    case (Some m1)
    with c have "i * unat ssz + length d \<le> length (rg_data (ring_at cap ssz mem))" "shm_ok cap ssz m1"
      "ring_at cap ssz m1 = (ring_at cap ssz mem)\<lparr>rg_data := overwrite (i * unat ssz) d (rg_data (ring_at cap ssz mem))\<rparr>"
      by (auto simp: not_less)
    with Some ring_at_write(1) [of cap ssz m1 i ?sm] assms(2) show ?thesis
      by (simp add: shm_store_def fill_slot_def)
  qed
  show "shm_store cap ssz i d prio src mem = Some mem' \<Longrightarrow> shm_ok cap ssz mem'"
    using c(2) ring_at_write(3) assms(2) by (auto simp: shm_store_def)
qed

lemma shm_post_refines:
  assumes "shm_ok cap ssz mem"
  shows "map_option (map_prod id (ring_at cap ssz)) (shm_post cap ssz d prio src mem) = post (ring_at cap ssz mem) d prio src"
    and "shm_post cap ssz d prio src mem = Some (ok, mem') \<Longrightarrow> shm_ok cap ssz mem'"
proof -
  obtain idx m1 where c: "(case shm_find_free_slot cap mem of Some i \<Rightarrow> (Some i, mem)
      | None \<Rightarrow> shm_evict_lowest cap prio mem) = (idx, m1)" by fastforce
  then have r: "claim_slot (ring_at cap ssz mem) prio = (idx, ring_at cap ssz m1)" "shm_ok cap ssz m1"
    "idx = Some i \<Longrightarrow> i < unat cap" for i
    using assms shm_evict_refines [OF assms, of prio idx m1] find_free_slot_Some [of "ring_at cap ssz mem"]
    by (auto simp: claim_slot_def shm_searches(1) [of cap mem ssz] split: option.splits)
  show "map_option (map_prod id (ring_at cap ssz)) (shm_post cap ssz d prio src mem) = post (ring_at cap ssz mem) d prio src"
  proof (cases idx)
    case None
    with c r show ?thesis by (simp add: shm_post_def post_def)
  next
    case (Some i)
    with shm_store_refines(1) [OF r(2), of i d prio src, symmetric] r c show ?thesis
      by (simp add: shm_post_def post_def option.map_comp comp_def)
  qed
  show "shm_post cap ssz d prio src mem = Some (ok, mem') \<Longrightarrow> shm_ok cap ssz mem'"
    using c r shm_store_refines(2) [OF r(2)] by (cases idx) (auto simp: shm_post_def)
qed

lemma shm_receive_refines:
  assumes "shm_ok cap ssz mem"
  shows "map_option (\<lambda>(n, d, sm, m). (n, d, sm, ring_at cap ssz m)) (shm_receive cap ssz n mem) = receive_slot (ring_at cap ssz mem) n"
    and "shm_receive cap ssz n mem = Some (ret, d, sm, mem') \<Longrightarrow> shm_ok cap ssz mem'"
proof -
  note f = shm_searches(2) [of cap mem ssz]
  have i: "i < unat cap" if "find_highest_priority_slot (ring_at cap ssz mem) = Some i" for i
    using find_highest_Some(1) [OF that] by simp
  have off: "drop (slot_offset cap ssz i) mem = drop (i * unat ssz) (rg_data (ring_at cap ssz mem))" if "i < unat cap" for i
    using slot_offset_exact [OF _ that, of ssz] assms by (simp add: shm_ok_def ring_at_def add.commute)
  show "map_option (\<lambda>(n, d, sm, m). (n, d, sm, ring_at cap ssz m)) (shm_receive cap ssz n mem) = receive_slot (ring_at cap ssz mem) n"
    using i off ring_at_write(2) [OF assms]
    by (auto simp: shm_receive_def receive_slot_def f Let_def split: option.splits)
  show "shm_receive cap ssz n mem = Some (ret, d, sm, mem') \<Longrightarrow> shm_ok cap ssz mem'"
    using i assms ring_at_write(4) [OF assms]
    by (auto simp: shm_receive_def f Let_def split: option.splits if_splits)
qed

text \<open>The sender's routine, which reads the dimensions off the header, is the owner's with the message cut.\<close>

lemma shm_post_to_remote_alt:
  assumes "shm_ok cap ssz mem"
  shows "shm_post_to_remote d prio src mem = shm_post cap ssz (take (unat ssz) d) prio src mem"
proof -
  have l: "sl_capacity (read_layout mem) = cap" "sl_slot_size (read_layout mem) = ssz"
    using assms by (simp_all add: shm_ok_def)
  have t: "take (min (length d) (unat ssz)) d = take (unat ssz) d"
    by (metis take_all min_def nle_le order_refl)
  obtain worst p where w: "shm_lowest cap mem = (worst, p)" by fastforce
  show ?thesis
    by (cases "List.find (\<lambda>i. \<not> sm_in_use (read_slot_meta mem i)) [0..<unat cap]"; cases worst)
      (use w in \<open>simp_all add: shm_post_to_remote_def shm_post_def l Let_def shm_find_free_slot_def shm_evict_lowest_def
        shm_store_def t option.map_comp comp_def flip: shm_lowest_def\<close>)
qed

lemma shm_post_to_remote_refines:
  assumes "shm_ok cap ssz mem"
  shows "map_option (map_prod id (ring_at cap ssz)) (shm_post_to_remote d prio src mem) =
      post_to_remote (ring_at cap ssz mem) d prio src"
    and "shm_post_to_remote d prio src mem = Some (ok, mem') \<Longrightarrow> shm_ok cap ssz mem'"
  using shm_post_refines [OF assms, of "take (unat ssz) d" prio src]
  by (simp_all add: shm_post_to_remote_alt [OF assms] post_to_remote_def)

section \<open>Creating the region\<close>

text \<open>
  \<open>shm_open\<close> with \<open>O_CREAT\<close> finds the bytes \<open>old\<close> of an earlier object or none; \<open>ftruncate\<close> cuts them
  or extends them with zeros; then the header is written.
\<close>

definition shm_allocate :: "bytes \<Rightarrow> u32 \<Rightarrow> u32 \<Rightarrow> bytes" where
  "shm_allocate old slots slot_size =
     (let total = shm_total slots slot_size
      in write_layout slots slot_size (take total (old @ replicate (total - length old) 0)))"

lemma shm_allocate_ok:
  assumes "unat slots * unat slot_size < 2 ^ 32"
  shows "shm_ok slots slot_size (shm_allocate old slots slot_size)"
proof -
  let ?m = "take (shm_total slots slot_size) (old @ replicate (shm_total slots slot_size - length old) 0)"
  have l: "length ?m = shm_total slots slot_size" by simp
  moreover have "16 \<le> shm_total slots slot_size" by (simp add: shm_total_def shm_sizes)
  ultimately have "read_layout (write_layout slots slot_size ?m) = \<lparr>sl_capacity = slots, sl_slot_size = slot_size\<rparr>"
    "length (write_layout slots slot_size ?m) = shm_total slots slot_size"
    using dec_u32_same [of 0 ?m slots] dec_u32_same [of 4 "overwrite 0 (enc_u32 slots) ?m" slot_size]
      dec_u32_other [of 4 "enc_u32 slot_size" "overwrite 0 (enc_u32 slots) ?m" 0]
    by (simp_all add: read_layout_def write_layout_def)
  then show ?thesis using assms by (simp add: shm_ok_def shm_allocate_def Let_def)
qed

text \<open>A new object is the empty ring that a local mailbox gets from the heap.\<close>

lemma write_layout_zeros:
  assumes "16 \<le> n"
  shows "drop 8 (write_layout a b (replicate n 0)) = replicate (n - 8) 0"
  using assms by (simp add: write_layout_def drop_overwrite)

lemma shm_allocate_fresh:
  "ring_at slots slot_size (shm_allocate [] slots slot_size) = allocate_heap (unat slots) (unat slot_size)"
proof -
  let ?n = "shm_total slots slot_size"
  define mem where "mem = shm_allocate [] slots slot_size"
  have n: "16 \<le> ?n" by (simp add: shm_total_def shm_sizes)
  have z: "drop 8 mem = replicate (?n - 8) 0"
    using write_layout_zeros [OF n, of slots slot_size] by (simp add: mem_def shm_allocate_def Let_def)
  have d: "drop k mem = replicate (?n - k) 0" if "8 \<le> k" for k
  proof -
    have "drop k mem = drop (k - 8) (drop 8 mem)" using that by simp
    then show ?thesis using that by (simp only: z drop_replicate) simp
  qed
  have len: "length mem = ?n" using n by (simp add: mem_def shm_allocate_def Let_def write_layout_def)
  have nth: "mem ! k = 0" if "8 \<le> k" "k < ?n" for k
    using that d [of k] nth_drop [of k mem 0] len by simp
  have "le_word (replicate k 0) = (0 :: u32)" for k by (induction k) simp_all
  then have u: "dec_u32 (replicate k 0) = 0" for k by (simp add: dec_u32_def)
  have "read_slot_meta mem i = free_slot" if "i < unat slots" for i
  proof -
    have "slot_meta_offset i + 12 \<le> ?n" "8 \<le> slot_meta_offset i"
      using that by (auto simp: shm_sizes shm_total_def)
    then show ?thesis by (simp add: read_slot_meta_def Let_def nth d u free_slot_def)
  qed
  then have "map (read_slot_meta mem) [0..<unat slots] = replicate (unat slots) free_slot"
    by (auto intro: nth_equalityI)
  then show ?thesis
    by (simp add: ring_at_def allocate_heap_def d shm_total_def shm_sizes flip: mem_def)
qed

section \<open>Any use of the ring\<close>

text \<open>The routines of the owner and of senders elsewhere, in any order, each with its result.\<close>

datatype ring_call = Owner_post bytes i8 u32 | Remote_post bytes i8 u32 | Owner_receive nat

datatype ring_result = Posted bool | Received int bytes slot_meta

fun call_shm :: "u32 \<Rightarrow> u32 \<Rightarrow> ring_call \<Rightarrow> bytes \<Rightarrow> (ring_result \<times> bytes) option" where
  "call_shm cap ssz (Owner_post d p src) mem = map_option (map_prod Posted id) (shm_post cap ssz d p src mem)"
| "call_shm cap ssz (Remote_post d p src) mem = map_option (map_prod Posted id) (shm_post_to_remote d p src mem)"
| "call_shm cap ssz (Owner_receive n) mem =
     map_option (\<lambda>(ret, d, sm, m). (Received ret d sm, m)) (shm_receive cap ssz n mem)"

fun call_ring :: "ring_call \<Rightarrow> ring \<Rightarrow> (ring_result \<times> ring) option" where
  "call_ring (Owner_post d p src) r = map_option (map_prod Posted id) (post r d p src)"
| "call_ring (Remote_post d p src) r = map_option (map_prod Posted id) (post_to_remote r d p src)"
| "call_ring (Owner_receive n) r = map_option (\<lambda>(ret, d, sm, r'). (Received ret d sm, r')) (receive_slot r n)"

fun calls :: "('c \<Rightarrow> 's \<Rightarrow> ('r \<times> 's) option) \<Rightarrow> 'c list \<Rightarrow> 's \<Rightarrow> ('r list \<times> 's) option" where
  "calls f [] s = Some ([], s)"
| "calls f (c # cs) s =
     (case f c s of None \<Rightarrow> None
      | Some (r, s') \<Rightarrow> map_option (map_prod (Cons r) id) (calls f cs s'))"

lemma call_shm_refines:
  assumes "shm_ok cap ssz mem"
  shows "map_option (map_prod id (ring_at cap ssz)) (call_shm cap ssz c mem) = call_ring c (ring_at cap ssz mem)"
    and "call_shm cap ssz c mem = Some (res, mem') \<Longrightarrow> shm_ok cap ssz mem'"
proof -
  show "map_option (map_prod id (ring_at cap ssz)) (call_shm cap ssz c mem) = call_ring c (ring_at cap ssz mem)"
  proof (cases c)
    case (Owner_post d p src)
    then show ?thesis using shm_post_refines(1) [OF assms, of d p src, symmetric]
      by (simp add: option.map_comp comp_def prod.map_comp map_prod_def case_prod_beta)
  next
    case (Remote_post d p src)
    then show ?thesis using shm_post_to_remote_refines(1) [OF assms, of d p src, symmetric]
      by (simp add: option.map_comp comp_def map_prod_def case_prod_beta)
  next
    case (Owner_receive n)
    then show ?thesis using shm_receive_refines(1) [OF assms, of n, symmetric]
      by (simp add: option.map_comp comp_def map_prod_def case_prod_beta)
  qed
  show "call_shm cap ssz c mem = Some (res, mem') \<Longrightarrow> shm_ok cap ssz mem'"
    using shm_post_refines(2) [OF assms] shm_post_to_remote_refines(2) [OF assms] shm_receive_refines(2) [OF assms]
    by (cases c) auto
qed

lemma calls_refine:
  "shm_ok cap ssz mem \<Longrightarrow>
   map_option (map_prod id (ring_at cap ssz)) (calls (call_shm cap ssz) cs mem) = calls call_ring cs (ring_at cap ssz mem)"
proof (induction cs arbitrary: mem)
  case Nil
  then show ?case by simp
next
  case (Cons c cs)
  note r = call_shm_refines(1) [OF Cons.prems, of c, symmetric]
  show ?case
  proof (cases "call_shm cap ssz c mem")
    case None
    with r show ?thesis by simp
  next
    case (Some p)
    obtain res mem' where p: "p = (res, mem')" by fastforce
    have "shm_ok cap ssz mem'" using call_shm_refines(2) [OF Cons.prems] Some p by simp
    from Cons.IH [OF this, symmetric] r Some p show ?thesis
      by (simp add: option.map_comp comp_def map_prod_def case_prod_beta)
  qed
qed

text \<open>
  C17. The ring in shared memory is the ring: whatever sequence of posts by the owner, posts by
  senders in other processes, who know nothing but the header of the region, and receives runs on
  the bytes of a newly created region, each call returns what it returns on the ring of a local
  mailbox of the same dimensions, an access outside the region included, and the ring read off
  the final bytes is the final ring. The slots have to be addressable with 32 bits.
\<close>

theorem shm_refines_ring:
  assumes "unat slots * unat slot_size < 2 ^ 32"
  shows "map_option (map_prod id (ring_at slots slot_size))
      (calls (call_shm slots slot_size) cs (shm_allocate [] slots slot_size)) =
    calls call_ring cs (allocate_heap (unat slots) (unat slot_size))"
  using calls_refine [OF shm_allocate_ok [OF assms, of "[]"], of cs] by (simp add: shm_allocate_fresh)

theorem shm_refines_ring_witness:
  "map_option fst (calls (call_shm 2 4)
     [Owner_post [1, 2] 5 7, Remote_post [3, 4, 5, 6, 7] 9 8, Owner_receive 16, Owner_receive 16] (shm_allocate [] 2 4)) =
   Some [Posted True, Posted True,
     Received 4 [3, 4, 5, 6] \<lparr>sm_priority = 9, sm_in_use = True, sm_src = 8, sm_size = 4\<rparr>,
     Received 2 [1, 2] \<lparr>sm_priority = 5, sm_in_use = True, sm_src = 7, sm_size = 2\<rparr>]"
proof -
  let ?cs = "[Owner_post [1, 2] 5 7, Remote_post [3, 4, 5, 6, 7] 9 8, Owner_receive 16, Owner_receive 16]"
  have "map_option fst (calls (call_shm 2 4) ?cs (shm_allocate [] 2 4)) = map_option fst (calls call_ring ?cs (allocate_heap 2 4))"
    using arg_cong [OF shm_refines_ring [of 2 4 ?cs], of "map_option fst"]
    by (simp add: option.map_comp comp_def)
  also have "\<dots> = Some [Posted True, Posted True,
     Received 4 [3, 4, 5, 6] \<lparr>sm_priority = 9, sm_in_use = True, sm_src = 8, sm_size = 4\<rparr>,
     Received 2 [1, 2] \<lparr>sm_priority = 5, sm_in_use = True, sm_src = 7, sm_size = 2\<rparr>]"
    by code_simp
  finally show ?thesis .
qed

text \<open>Beyond 32 bits the slots overlap: here the third slot is the first one.\<close>

lemma slot_ptr_wraps: "slot_offset 3 (2 ^ 31) 2 = slot_offset 3 (2 ^ 31) 0"
  by (simp add: slot_offset_def)

end
