(* ===== verification/Evl_Concurrent.thy ===== *)
theory Evl_Concurrent
  imports Locks Evl_Shm
begin

text \<open>
  The ring of a public EVL mailbox used by several threads and processes at once. \<open>post\<close>,
  \<open>post_to_remote\<close> and the receive step of \<open>ipc/evl/evl_backend.hpp\<close> run between
  \<open>evl_lock_mutex\<close> and \<open>evl_unlock_mutex\<close> of the mailbox's named mutex, with the return codes
  dropped, which is what the sections of \<open>Locks\<close> do; the data they protect are the bytes of the
  shared memory region of \<open>Evl_Shm\<close>.
\<close>

text \<open>A call as a guarded update of the region: it is defined, and leaves its new bytes.\<close>

definition ring_update :: "u32 \<Rightarrow> u32 \<Rightarrow> ring_call \<Rightarrow> (bytes \<Rightarrow> bool) \<times> (bytes \<Rightarrow> bytes)" where
  "ring_update cap ssz c = (\<lambda>mem. call_shm cap ssz c mem \<noteq> None, \<lambda>mem. snd (the (call_shm cap ssz c mem)))"

lemma replay_calls:
  "replay mem (map (ring_update cap ssz) cs) = Some mem' \<longleftrightarrow> (\<exists>rs. calls (call_shm cap ssz) cs mem = Some (rs, mem'))"
proof (induction cs arbitrary: mem)
  case (Cons c cs)
  then show ?case by (cases "call_shm cap ssz c mem") (auto simp: ring_update_def)
qed simp



end
