(* ===== verification/Fan_In.thy ===== *)
theory Fan_In
  imports Federation
begin

text \<open>
  Many clients of one TCP router sending at the same time: \<open>send_raw\<close> and \<open>receive_raw\<close> of
  \<open>src/tims_backend.cpp\<close> at the ends, the connection threads of \<open>src/router/tcp_router.cpp\<close> in
  between, scheduled in any order. A schedule is the sequence of connections whose threads do the
  next round; \<open>picked\<close> lists what they find to serve.
\<close>

section \<open>Schedules\<close>

fun picked :: "(con \<Rightarrow> 'a list) \<Rightarrow> con list \<Rightarrow> (con \<times> 'a) list" where
  "picked q [] = []"
| "picked q (c # cs) = (case q c of [] \<Rightarrow> picked q cs | m # ms \<Rightarrow> (c, m) # picked (q(c := ms)) cs)"

text \<open>Nobody is scheduled more often than there is input for it.\<close>

definition fits :: "(con \<Rightarrow> 'a list) \<Rightarrow> con list \<Rightarrow> bool" where
  "fits q cs \<longleftrightarrow> (\<forall>c \<in> set cs. count_list cs c \<le> length (q c))"

lemma fits_Cons:
  assumes "fits q (c # cs)"
  obtains m ms where "q c = m # ms" and "fits (q(c := ms)) cs"
proof -
  from assms have "Suc (count_list cs c) \<le> length (q c)" by (simp add: fits_def)
  then obtain m ms where m: "q c = m # ms" "count_list cs c \<le> length ms" by (cases "q c") auto
  with assms have "fits (q(c := ms)) cs" by (auto simp: fits_def split: if_splits)
  with m that show thesis by blast
qed

lemma picked_order: "fits q cs \<Longrightarrow> map snd (filter (\<lambda>x. fst x = c) (picked q cs)) = take (count_list cs c) (q c)"
proof (induction cs arbitrary: q)
  case (Cons d cs)
  from Cons.prems obtain m ms where "q d = m # ms" "fits (q(d := ms)) cs" by (rule fits_Cons)
  with Cons.IH [of "q(d := ms)"] show ?case by (auto simp: fun_upd_def)
qed simp

lemma length_picked: "fits q cs \<Longrightarrow> length (picked q cs) = length cs"
proof (induction cs arbitrary: q)
  case (Cons d cs)
  from Cons.prems obtain m ms where "q d = m # ms" "fits (q(d := ms)) cs" by (rule fits_Cons)
  with Cons.IH [of "q(d := ms)"] show ?case by (auto simp: fun_upd_def)
qed simp

lemma picked_map: "picked (\<lambda>c. map h (q c)) cs = map (apsnd h) (picked q cs)"
proof (induction cs arbitrary: q)
  case (Cons d cs)
  have "(\<lambda>c. map h (q c))(d := map h ms) = (\<lambda>c. map h ((q(d := ms)) c))" for ms by auto
  with Cons.IH show ?case by (cases "q d") (simp_all add: fun_upd_def)
qed simp

lemma picked_set: "x \<in> set (picked q cs) \<Longrightarrow> fst x \<in> set cs \<and> snd x \<in> set (q (fst x))"
proof (induction cs arbitrary: q)
  case (Cons d cs)
  show ?case
  proof (cases "q d")
    case (Cons m ms)
    with Cons.prems Cons.IH [of "q(d := ms)"] show ?thesis by (auto simp: fun_upd_def split: if_splits)
  qed (use Cons.prems Cons.IH [of q] in auto)
qed simp

section \<open>The router serves a schedule\<close>

type_synonym message = "frame_header \<times> bytes"

definition message_bytes :: "message \<Rightarrow> bytes" where
  "message_bytes m = frame_bytes (fst m) @ snd m"

text \<open>Connection \<open>c\<close> has the messages \<open>q c\<close> waiting, data for mailboxes the router knows.\<close>

definition waiting :: "router \<Rightarrow> (con \<Rightarrow> message list) \<Rightarrow> bool" where
  "waiting r q \<longleftrightarrow> all_live r \<and> (\<forall>c < length (rt_connections r). rx r c = concat (map message_bytes (q c)) \<and>
     (\<forall>m \<in> set (q c). data_message (fst m) (snd m) \<and> length (snd m) \<le> rt_max_msg_size r \<and>
        (\<exists>e < length (rt_connections r). rt_registry r (fh_dest (fst m)) = Some e)))"

definition routed_to :: "router \<Rightarrow> con \<Rightarrow> message \<Rightarrow> bool" where
  "routed_to r e m \<longleftrightarrow> rt_registry r (fh_dest (fst m)) = Some e"

lemma waiting_round:
  assumes "waiting r q" and "c < length (rt_connections r)" and "q c = m # ms"
  shows "waiting (connection_iter r c) (q(c := ms))" and "rt_registry (connection_iter r c) = rt_registry r"
    and "length (rt_connections (connection_iter r c)) = length (rt_connections r)"
    and "tx (connection_iter r c) e = tx r e @ (if routed_to r e m then message_bytes m else [])"
proof -
  note w = assms(1) [unfolded waiting_def]
  have rx: "rx r c = frame_bytes (fst m) @ snd m @ concat (map message_bytes ms)"
    using w assms(2,3) by (simp add: message_bytes_def)
  obtain d where d: "rt_registry r (fh_dest (fst m)) = Some d" "d < length (rt_connections r)"
    and m: "data_message (fst m) (snd m)" "length (snd m) \<le> rt_max_msg_size r"
    using w assms(2,3) by (metis list.set_intros(1))
  from w have l: "all_live r" by blast
  note round = data_round [OF l assms(2) rx m d]
  show "waiting (connection_iter r c) (q(c := ms))"
    using w assms(2,3) tookD [OF round(1)] round(2) by (auto simp: waiting_def)
  show "rt_registry (connection_iter r c) = rt_registry r"
    and "length (rt_connections (connection_iter r c)) = length (rt_connections r)"
    using round(2) tookD(1) [OF round(1)] by simp_all
  show "tx (connection_iter r c) e = tx r e @ (if routed_to r e m then message_bytes m else [])"
    using round(4) [of e] d(1) by (auto simp: routed_to_def message_bytes_def)
qed

definition serve :: "router \<Rightarrow> con list \<Rightarrow> router" where
  "serve r cs = foldl connection_iter r cs"

lemma serve_schedule:
  assumes "waiting r q" and "set cs \<subseteq> {..<length (rt_connections r)}" and "fits q cs"
  shows "tx (serve r cs) e = tx r e @ concat (map message_bytes (filter (routed_to r e) (map snd (picked q cs))))"
    and "rt_registry (serve r cs) = rt_registry r"
  using assms
proof (induction cs arbitrary: r q)
  case Nil
  { case 1 show ?case by (simp add: serve_def) next case 2 show ?case by (simp add: serve_def) }
next
  case (Cons c cs)
  { case 1
    from 1(3) obtain m ms where q: "q c = m # ms" "fits (q(c := ms)) cs" by (rule fits_Cons)
    note w = waiting_round [OF 1(1) _ q(1)]
    from Cons.IH(1) [OF w(1) _ q(2)] w(2,3,4) 1(2) q(1) show ?case
      by (auto simp: serve_def routed_to_def fun_upd_def)
  next
    case 2
    from 2(3) obtain m ms where q: "q c = m # ms" "fits (q(c := ms)) cs" by (rule fits_Cons)
    note w = waiting_round [OF 2(1) _ q(1)]
    from Cons.IH(2) [OF w(1) _ q(2)] w(2,3) 2(2) show ?case by (simp add: serve_def) }
qed

section \<open>Senders\<close>

text \<open>A client sending a list of messages, each with its destination; \<open>None\<close> if one of them fails.\<close>

fun send_many :: "tims_mailbox \<Rightarrow> (bytes \<times> u32) list \<Rightarrow> tims_mailbox option" where
  "send_many a [] = Some a"
| "send_many a ((d, dest) # ds) =
     (case send_raw a (Some d) dest of (res, a') \<Rightarrow> if res = SUCCESS then send_many a' ds else None)"

fun sent_frames :: "tims_mailbox \<Rightarrow> (bytes \<times> u32) list \<Rightarrow> message list" where
  "sent_frames a [] = []"
| "sent_frames a ((d, dest) # ds) = (data_frame a d dest, d) # sent_frames (snd (send_raw a (Some d) dest)) ds"

lemma sent_frames_back: "map (\<lambda>m. (snd m, fh_dest (fst m))) (sent_frames a ds) = ds"
  by (induction a ds rule: sent_frames.induct) simp_all

lemma sent_frames_set: "m \<in> set (sent_frames a ds) \<Longrightarrow> (snd m, fh_dest (fst m)) \<in> set ds"
  by (induction a ds rule: sent_frames.induct) auto

lemma length_sent_frames [simp]: "length (sent_frames a ds) = length ds"
  by (induction a ds rule: sent_frames.induct) simp_all

lemma send_many_wire:
  assumes "send_many a ds = Some a'" and "\<forall>x \<in> set ds. length (fst x) + 16 < 2 ^ 32"
  shows "sk_tx (tm_socket a') = sk_tx (tm_socket a) @ concat (map message_bytes (sent_frames a ds))"
    and "m \<in> set (sent_frames a ds) \<Longrightarrow> data_message (fst m) (snd m) \<and> data_frame_ok (fst m) (snd m)"
  using assms
proof (induction a ds rule: sent_frames.induct)
  case (1 a)
  { case 1 then show ?case by simp next case 2 then show ?case by simp }
next
  case (2 a d dest ds)
  { case 1
    then obtain a1 where a1: "send_raw a (Some d) dest = (SUCCESS, a1)" "send_many a1 ds = Some a'"
      by (auto split: prod.splits if_splits)
    with 2(1) 1(2) send_raw_success(2) [OF a1(1)] show ?case by (simp add: message_bytes_def)
  next
    case 2
    then obtain a1 where a1: "send_raw a (Some d) dest = (SUCCESS, a1)" "send_many a1 ds = Some a'"
      by (auto split: prod.splits if_splits)
    have "data_message (data_frame a d dest) d" "data_frame_ok (data_frame a d dest) d"
      using data_frame_data_ok [of d a dest] send_raw_success(1) [OF a1(1)] 2(3)
      by (simp_all add: data_message_def data_frame_ok_def)
    with \<open>\<lbrakk>m \<in> set (sent_frames (snd (send_raw a (Some d) dest)) ds); send_many (snd (send_raw a (Some d) dest)) ds = Some a';
        \<forall>x \<in> set ds. length (fst x) + 16 < 2 ^ 32\<rbrakk> \<Longrightarrow> data_message (fst m) (snd m) \<and> data_frame_ok (fst m) (snd m)\<close>
      a1 2 show ?case by auto }
qed

section \<open>Delivery\<close>

text \<open>
  C8. Fan-in: any number of clients send lists of messages to mailboxes the router knows, and the
  router's connection threads serve them under any schedule. The client on connection \<open>e\<close> then
  receives exactly the served messages that are routed to it, unchanged and each once, in the
  order of the schedule; in that order the messages of each sender appear in the order in which
  they were sent, without gaps.
\<close>

theorem fan_in_delivery:
  assumes "all_live r" and "\<And>bs. swap True bs = bs"
    and "\<forall>c < length (rt_connections r). send_many (a c) (out c) = Some (a' c) \<and>
      sk_tx (tm_socket (a' c)) = sk_tx (tm_socket (a c)) @ rx r c"
    and "\<forall>c < length (rt_connections r). \<forall>x \<in> set (out c). length (fst x) + 16 < 2 ^ 32 \<and>
      length (fst x) \<le> rt_max_msg_size r \<and> length (fst x) \<le> n \<and>
      (\<exists>e < length (rt_connections r). registry_find (rt_registry r) (snd x) = Some e)"
    and "set cs \<subseteq> {..<length (rt_connections r)}" and "fits out cs"
    and "tm_initialized b" and "live (tm_socket b)" and "tx (serve r cs) e = tx r e @ sk_rx (tm_socket b)"
    and "got = filter (\<lambda>x. registry_find (rt_registry r) (snd x) = Some e) (map snd (picked out cs))"
  shows "(\<exists>b'. receive_n swap b n timeout (length got) = (map fst got, b') \<and> sk_rx (tm_socket b') = []) \<and>
    (\<forall>c. map snd (filter (\<lambda>x. fst x = c) (picked out cs)) = take (count_list cs c) (out c))"
proof
  let ?q = "\<lambda>c. sent_frames (a c) (out c)" and ?data = "\<lambda>m :: message. (snd m, fh_dest (fst m))"
  let ?ms = "filter (routed_to r e) (map snd (picked ?q cs))"
  have w: "rx r c = concat (map message_bytes (?q c))"
    "m \<in> set (?q c) \<Longrightarrow> data_message (fst m) (snd m) \<and> data_frame_ok (fst m) (snd m) \<and> length (snd m) \<le> n \<and>
      length (snd m) \<le> rt_max_msg_size r \<and> (\<exists>e < length (rt_connections r). rt_registry r (fh_dest (fst m)) = Some e)"
    if "c < length (rt_connections r)" for c m
  proof -
    have s: "send_many (a c) (out c) = Some (a' c)" and l: "\<forall>x \<in> set (out c). length (fst x) + 16 < 2 ^ 32"
      using assms(3,4) that by blast+
    show "rx r c = concat (map message_bytes (?q c))" using send_many_wire(1) [OF s l] assms(3) that by simp
    assume m: "m \<in> set (?q c)"
    then have "?data m \<in> set (out c)" by (rule sent_frames_set)
    with assms(4) that show "data_message (fst m) (snd m) \<and> data_frame_ok (fst m) (snd m) \<and> length (snd m) \<le> n \<and>
      length (snd m) \<le> rt_max_msg_size r \<and> (\<exists>e < length (rt_connections r). rt_registry r (fh_dest (fst m)) = Some e)"
      using send_many_wire(2) [OF s l m] by (auto simp: registry_find_def dest!: spec [of _ c] bspec [of _ _ "?data m"])
  qed
  have fits: "fits ?q cs" using assms(6) by (simp add: fits_def)
  have "waiting r ?q" using assms(1) w by (auto simp: waiting_def)
  from serve_schedule(1) [OF this assms(5) fits, of e] assms(9)
  have rxb: "sk_rx (tm_socket b) = concat (map message_bytes ?ms)" by simp
  have ok: "\<forall>(f, body) \<in> set ?ms. data_frame_ok f body \<and> length body \<le> n"
  proof (clarify)
    fix f body assume "(f, body) \<in> set ?ms"
    then obtain c where "(c, f, body) \<in> set (picked ?q cs)" by auto
    from picked_set [OF this] have "c < length (rt_connections r)" "(f, body) \<in> set (?q c)" using assms(5) by auto
    from w(2) [OF this] show "data_frame_ok f body \<and> length body \<le> n" by simp
  qed
  have "picked out cs = map (apsnd ?data) (picked ?q cs)"
    using picked_map [of ?data ?q cs] by (simp add: sent_frames_back)
  then have got: "got = map ?data ?ms"
    by (simp add: assms(10) filter_map comp_def routed_to_def registry_find_def)
  have "sk_rx (tm_socket b) = concat (map (\<lambda>(f, body). frame_bytes f @ body) ?ms) @ []"
    by (simp add: rxb message_bytes_def [abs_def] case_prod_unfold)
  from receive_n_stream [where swap = swap and rest = "[]", OF assms(7,8,2) ok this, of timeout]
  show "\<exists>b'. receive_n swap b n timeout (length got) = (map fst got, b') \<and> sk_rx (tm_socket b') = []"
    by (simp add: got comp_def)
  show "\<forall>c. map snd (filter (\<lambda>x. fst x = c) (picked out cs)) = take (count_list cs c) (out c)"
    using picked_order [OF assms(6)] by blast
qed

text \<open>Two clients, on connections 0 and 2, send to mailbox 0x0101 on connection 1.\<close>

definition ex_out :: "con \<Rightarrow> (bytes \<times> u32) list" where
  "ex_out c = (if c = 0 then [([1], 0x0101), ([2], 0x0101)] else if c = 2 then [([3], 0x0101)] else [])"

definition ex_wire :: "con \<Rightarrow> bytes" where
  "ex_wire c = sk_tx (tm_socket (the (send_many ex_tims (ex_out c))))"

definition ex_fan :: router where
  "ex_fan = ex_router\<lparr>rt_connections := map (\<lambda>c. (ex_connection False)\<lparr>cn_socket := ex_socket\<lparr>sk_rx := ex_wire c\<rparr>\<rparr>) [0, 1, 2]\<rparr>"

definition ex_receiver :: tims_mailbox where
  "ex_receiver = ex_tims\<lparr>tm_socket := ex_socket\<lparr>sk_rx := tx (serve ex_fan [0, 2, 0]) 1\<rparr>\<rparr>"

lemma ex_fan_facts:
  "length (rt_connections ex_fan) = 3" "rt_max_msg_size ex_fan = 4096" "registry_find (rt_registry ex_fan) 0x0101 = Some 1"
  "c < 3 \<Longrightarrow> socket_of ex_fan c = ex_socket\<lparr>sk_rx := ex_wire c\<rparr>"
  by (simp_all add: ex_fan_def ex_router_def new_router_def registry_find_def)
    (auto simp: numeral_3_eq_3 less_Suc_eq numeral_2_eq_2)

lemma ex_fan_sends:
  assumes "c < 3" obtains a' where "send_many ex_tims (ex_out c) = Some a'"
proof -
  have "\<forall>c \<in> {0, 1, 2}. send_many ex_tims (ex_out c) \<noteq> None" by code_simp
  moreover have "c \<in> {0, 1, 2}" using assms by auto
  ultimately show thesis using that by fastforce
qed

theorem fan_in_delivery_witness:
  "\<exists>b'. receive_n (\<lambda>_ bs. bs) ex_receiver 100 (milliseconds 50) (Suc (Suc (Suc 0))) = ([[1], [3], [2]], b')"
proof -
  have p: "filter (\<lambda>x. registry_find (rt_registry ex_fan) (snd x) = Some 1) (map snd (picked ex_out [0, 2, 0]))
      = [([1], 0x0101), ([3], 0x0101), ([2], 0x0101)]" by code_simp
  have "all_live ex_fan" by (simp add: all_live_def ex_fan_facts)
  moreover have "\<forall>c < length (rt_connections ex_fan). send_many ex_tims (ex_out c) = Some (the (send_many ex_tims (ex_out c))) \<and>
      sk_tx (tm_socket (the (send_many ex_tims (ex_out c)))) = sk_tx (tm_socket ex_tims) @ rx ex_fan c"
    using ex_fan_sends by (fastforce simp: ex_fan_facts ex_wire_def ex_tims_def ex_socket_def)
  moreover have "\<forall>c < length (rt_connections ex_fan). \<forall>x \<in> set (ex_out c). length (fst x) + 16 < 2 ^ 32 \<and>
      length (fst x) \<le> rt_max_msg_size ex_fan \<and> length (fst x) \<le> 100 \<and>
      (\<exists>e < length (rt_connections ex_fan). registry_find (rt_registry ex_fan) (snd x) = Some e)"
    by (auto simp: ex_fan_facts ex_out_def)
  moreover have "fits ex_out [0, 2, 0]" by code_simp
  moreover have "tm_initialized ex_receiver" "live (tm_socket ex_receiver)"
    by (simp_all add: ex_receiver_def ex_tims_def)
  moreover have "tx (serve ex_fan [0, 2, 0]) 1 = tx ex_fan 1 @ sk_rx (tm_socket ex_receiver)"
    by (simp add: ex_receiver_def ex_fan_facts ex_socket_def)
  ultimately show ?thesis
    using fan_in_delivery [of ex_fan "\<lambda>_ bs. bs" "\<lambda>_. ex_tims" ex_out "\<lambda>c. the (send_many ex_tims (ex_out c))" 100
        "[0, 2, 0]" ex_receiver 1 _ "milliseconds 50", OF _ _ _ _ _ _ _ _ _ p [symmetric]]
    by (simp add: ex_fan_facts del: receive_n.simps) blast
qed

end
