(* ===== verification/Router_Equiv.thy ===== *)
theory Router_Equiv
  imports Evl_Router_Props
begin

text \<open>
  The two router daemons repeat the code of connections, peers, upstream and system routes. On a
  host without cross buffers they must be interchangeable: this theory runs both on the same
  sequence of events and compares what they do. \<open>tcp_event\<close> and \<open>evl_event\<close> are one step of the
  step relations \<open>step\<close> and \<open>er_step\<close>, named by what happens. The watchdog flag, which only the TCP
  router keeps and nothing reads, is left out of the comparison.
\<close>

section \<open>Events\<close>

datatype event =
    Accepted tcp_socket
  | Started con
  | Round con
  | Stopped con
  | Upstream_round
  | System_round nat
  | Arrival con bytes

fun enabled :: "event \<Rightarrow> router \<Rightarrow> bool" where
  "enabled (Started c) r \<longleftrightarrow> c < length (rt_connections r) \<and> cn_phase (rt_connections r ! c) = Created"
| "enabled (Round c) r \<longleftrightarrow> c < length (rt_connections r) \<and> cn_phase (rt_connections r ! c) = Running"
| "enabled (Stopped c) r \<longleftrightarrow> c < length (rt_connections r) \<and> cn_phase (rt_connections r ! c) = Running"
| "enabled Upstream_round r \<longleftrightarrow> is_open (rt_upstream r)"
| "enabled (System_round i) r \<longleftrightarrow> i < length (rt_systems r)"
| "enabled _ r \<longleftrightarrow> True"

fun tcp_event :: "event \<Rightarrow> router \<Rightarrow> router" where
  "tcp_event (Accepted s) r = accept_connection r s"
| "tcp_event (Started c) r = connection_start r c"
| "tcp_event (Round c) r = connection_iter r c"
| "tcp_event (Stopped c) r = connection_exit r c"
| "tcp_event Upstream_round r = upstream_iter r"
| "tcp_event (System_round i) r = system_iter r i"
| "tcp_event (Arrival c bs) r = set_socket r c ((socket_of r c)\<lparr>sk_rx := sk_rx (socket_of r c) @ bs\<rparr>)"

fun evl_event :: "(string \<Rightarrow> int \<times> (nat \<Rightarrow> int)) \<Rightarrow> event \<Rightarrow> evl_router \<Rightarrow> evl_router" where
  "evl_event xopen (Accepted s) r = er_accept r s"
| "evl_event xopen (Started c) r = er_connection_start r c"
| "evl_event xopen (Round c) r = er_connection_iter xopen r c"
| "evl_event xopen (Stopped c) r = er_connection_exit r c"
| "evl_event xopen Upstream_round r = er_upstream_iter r"
| "evl_event xopen (System_round i) r = er_system_iter r i"
| "evl_event xopen (Arrival c bs) r =
     on_core (\<lambda>t. set_socket t c ((socket_of t c)\<lparr>sk_rx := sk_rx (socket_of t c) @ bs\<rparr>)) r"

text \<open>An event whose thread is not in a state to take it does not happen.\<close>

fun tcp_run :: "event list \<Rightarrow> router \<Rightarrow> router" where
  "tcp_run [] r = r"
| "tcp_run (ev # evs) r = tcp_run evs (if enabled ev r then tcp_event ev r else r)"

fun evl_run :: "(string \<Rightarrow> int \<times> (nat \<Rightarrow> int)) \<Rightarrow> event list \<Rightarrow> evl_router \<Rightarrow> evl_router" where
  "evl_run xopen [] r = r"
| "evl_run xopen (ev # evs) r = evl_run xopen evs (if enabled ev (er_core r) then evl_event xopen ev r else r)"

lemma tcp_event_step: "enabled ev r \<Longrightarrow> step r (tcp_event ev r)"
  by (cases ev) (auto intro: step.intros)

lemma evl_event_step: "enabled ev (er_core r) \<Longrightarrow> er_step r (evl_event xopen ev r)"
  by (cases ev) (auto intro: er_step.intros)

lemma tcp_run_reachable: "reachable r \<Longrightarrow> reachable (tcp_run evs r)"
  by (induction evs arbitrary: r) (auto intro: reachable.more tcp_event_step)

lemma evl_run_reachable: "er_reachable r \<Longrightarrow> er_reachable (evl_run xopen evs r)"
  by (induction evs arbitrary: r) (auto intro: er_reachable.er_more evl_event_step)

section \<open>The view of a router without its watchdog flags\<close>

definition unwatched :: "connection \<Rightarrow> connection" where
  "unwatched k = k\<lparr>cn_watchdog_enabled := True\<rparr>"

definition plain :: "registry \<Rightarrow> router \<Rightarrow> router" where
  "plain g r = r\<lparr>rt_registry := g, rt_connections := map unwatched (rt_connections r)\<rparr>"

lemma unwatched_simps [simp]:
  "cn_socket (unwatched k) = cn_socket k" "cn_is_peer (unwatched k) = cn_is_peer k" "cn_phase (unwatched k) = cn_phase k"
  "unwatched (k\<lparr>cn_socket := s\<rparr>) = (unwatched k)\<lparr>cn_socket := s\<rparr>"
  "unwatched (k\<lparr>cn_is_peer := p\<rparr>) = (unwatched k)\<lparr>cn_is_peer := p\<rparr>"
  "unwatched (k\<lparr>cn_phase := ph\<rparr>) = (unwatched k)\<lparr>cn_phase := ph\<rparr>"
  "unwatched (k\<lparr>cn_watchdog_enabled := w\<rparr>) = unwatched k"
  by (simp_all add: unwatched_def)

lemma plain_simps [simp]:
  "rt_registry (plain g r) = g" "length (rt_connections (plain g r)) = length (rt_connections r)"
  "rt_max_msg_size (plain g r) = rt_max_msg_size r" "rt_upstream (plain g r) = rt_upstream r"
  "rt_systems (plain g r) = rt_systems r" "rt_local (plain g r) = rt_local r"
  "c < length (rt_connections r) \<Longrightarrow> rt_connections (plain g r) ! c = unwatched (rt_connections r ! c)"
  "plain g (r\<lparr>rt_registry := h\<rparr>) = plain g r"
  "plain g (r\<lparr>rt_local := l\<rparr>) = (plain g r)\<lparr>rt_local := l\<rparr>"
  "plain g (r\<lparr>rt_upstream := s\<rparr>) = (plain g r)\<lparr>rt_upstream := s\<rparr>"
  "plain g (r\<lparr>rt_systems := ss\<rparr>) = (plain g r)\<lparr>rt_systems := ss\<rparr>"
  by (simp_all add: plain_def)

lemma unwatched_update:
  assumes "c < length xs \<Longrightarrow> unwatched (f (xs ! c)) = f (unwatched (xs ! c))"
  shows "map unwatched (xs[c := f (xs ! c)]) = (map unwatched xs)[c := f (map unwatched xs ! c)]"
  using assms by (cases "c < length xs") (simp_all add: map_update list_update_beyond)

text \<open>The operations that touch neither the registry nor the watchdog do the same on the view.\<close>

lemma plain_set_socket: "plain g (set_socket r c s) = set_socket (plain g r) c s"
  by (simp add: plain_def set_socket_def unwatched_update [where f = "\<lambda>k. k\<lparr>cn_socket := s\<rparr>"])

lemma plain_set_peer: "plain g (set_peer r c) = set_peer (plain g r) c"
  by (simp add: plain_def set_peer_def unwatched_update [where f = "\<lambda>k. k\<lparr>cn_is_peer := True\<rparr>"])

lemma plain_set_phase: "plain g (set_phase r c p) = set_phase (plain g r) c p"
  by (simp add: plain_def set_phase_def unwatched_update [where f = "\<lambda>k. k\<lparr>cn_phase := p\<rparr>"])

lemma plain_set_watchdog_off: "plain g (set_watchdog_off r c) = plain g r"
  by (cases "c < length (rt_connections r)")
    (simp_all add: plain_def set_watchdog_off_def map_update_same list_update_beyond)

lemma set_socket_beyond: "length (rt_connections r) \<le> c \<Longrightarrow> set_socket r c s = r"
  by (simp add: set_socket_def list_update_beyond)

lemma plain_con_send: "plain g (con_send r c bs) = con_send (plain g r) c bs"
  by (cases "c < length (rt_connections r)") (simp_all add: con_send_def plain_set_socket set_socket_beyond)

lemma plain_forward: "plain g (snd (forward r c h b)) = snd (forward (plain g r) c h b)"
  by (cases "c < length (rt_connections r)")
    (simp_all add: forward_def plain_set_socket set_socket_beyond split: prod.splits)

lemma plain_peer_frames:
  "plain g (send_peer_register m r c) = send_peer_register m (plain g r) c"
  "plain g (send_peer_delete m r c) = send_peer_delete m (plain g r) c"
  by (simp_all add: send_peer_register_def send_peer_delete_def Let_def plain_con_send)

lemma plain_foldl: "(\<And>r x. plain g (f r x) = f (plain g r) x) \<Longrightarrow> plain g (foldl f r xs) = foldl f (plain g r) xs"
  by (induction xs arbitrary: r) simp_all

lemma peers_of_plain [simp]: "peers_of (plain g r) = peers_of r"
  by (auto simp: peers_of_def intro: filter_cong)

lemma peers_of_local [simp]: "peers_of (r\<lparr>rt_local := l\<rparr>) = peers_of r"
  by (simp add: peers_of_def)

lemma plain_on_local:
  "plain g (on_local_registered r m) = on_local_registered (plain g r) m"
  "plain g (on_local_deleted r m) = on_local_deleted (plain g r) m"
  by (simp_all add: on_local_registered_def on_local_deleted_def broadcast_to_peers_def plain_foldl plain_peer_frames)

lemma plain_advertise: "plain g (advertise_as_peer r c) = advertise_as_peer (plain g r) c"
  by (simp add: advertise_as_peer_def Let_def plain_foldl plain_peer_frames plain_con_send local_mailboxes_snapshot_def)

lemma plain_forward_to_upstream:
  "forward_to_upstream (plain g r) h b = (fst (forward_to_upstream r h b), plain g (snd (forward_to_upstream r h b)))"
  by (simp add: forward_to_upstream_def Let_def split: option.splits prod.splits)

lemma plain_accept: "plain g (accept_connection r s) = accept_connection (plain g r) s"
  by (simp add: accept_connection_def add_connection_def plain_def new_connection_def unwatched_def)

lemmas plain_ops = plain_set_socket plain_set_peer plain_set_phase plain_set_watchdog_off plain_con_send plain_forward
  plain_peer_frames plain_on_local plain_advertise plain_forward_to_upstream plain_accept

lemma registry_kept [simp]:
  "rt_registry (con_send r c bs) = rt_registry r" "rt_registry (snd (forward r c h b)) = rt_registry r"
  "rt_registry (on_local_registered r m) = rt_registry r" "rt_registry (on_local_deleted r m) = rt_registry r"
  "rt_registry (advertise_as_peer r c) = rt_registry r" "rt_registry (set_phase r c p) = rt_registry r"
  "rt_registry (snd (forward_to_upstream r h b)) = rt_registry r" "rt_registry (accept_connection r s) = rt_registry r"
  "rt_registry (set_peer r c) = rt_registry r" "rt_registry (set_watchdog_off r c) = rt_registry r"
  "rt_registry (set_socket r c sk) = rt_registry r"
  by (simp_all add: ctrl_simps(1) [symmetric] accept_connection_def del: ctrl_simps(1))

section \<open>Agreement of the two daemons\<close>

definition agree :: "evl_router \<Rightarrow> router \<Rightarrow> bool" where
  "agree e t \<longleftrightarrow> plain Map.empty (er_core e) = plain Map.empty t \<and> (\<forall>m. rt_registry t m = tcp_route (er_table e m)) \<and>
     (\<forall>m i. er_table e m \<noteq> Some (Xbuf i))"

lemma agreeD:
  assumes "agree e t"
  shows "length (rt_connections (er_core e)) = length (rt_connections t)"
    "rt_max_msg_size (er_core e) = rt_max_msg_size t" "rt_upstream (er_core e) = rt_upstream t"
    "rt_systems (er_core e) = rt_systems t" "rt_local (er_core e) = rt_local t"
    "c < length (rt_connections t) \<Longrightarrow> unwatched (rt_connections (er_core e) ! c) = unwatched (rt_connections t ! c)"
    "\<And>m. rt_registry t m = tcp_route (er_table e m)"
    "\<And>m i. er_table e m \<noteq> Some (Xbuf i)"
proof -
  from assms have eq: "plain Map.empty (er_core e) = plain Map.empty t" by (simp add: agree_def)
  then show l: "length (rt_connections (er_core e)) = length (rt_connections t)" by (metis plain_simps(2))
  show "rt_max_msg_size (er_core e) = rt_max_msg_size t" "rt_upstream (er_core e) = rt_upstream t"
    "rt_systems (er_core e) = rt_systems t" "rt_local (er_core e) = rt_local t"
    using eq by (metis plain_simps(3), metis plain_simps(4), metis plain_simps(5), metis plain_simps(6))
  show "c < length (rt_connections t) \<Longrightarrow> unwatched (rt_connections (er_core e) ! c) = unwatched (rt_connections t ! c)"
    using eq l by (metis plain_simps(7))
qed (use assms in \<open>simp_all add: agree_def\<close>)

lemma agree_con:
  assumes "agree e t" and "c < length (rt_connections t)"
  shows "er_socket e c = socket_of t c" "er_is_peer e c = is_peer t c"
    "cn_phase (rt_connections (er_core e) ! c) = cn_phase (rt_connections t ! c)"
  using agreeD(6) [OF assms] by (metis unwatched_simps(1), metis unwatched_simps(2), metis unwatched_simps(3))

lemma agree_core:
  assumes "agree e t" and "\<And>r. plain Map.empty (f r) = f (plain Map.empty r)" and "rt_registry (f t) = rt_registry t"
  shows "agree (on_core f e) (f t)"
  using assms by (simp add: agree_def)

lemma agree_table:
  assumes "agree e t" and "\<And>m. g m = tcp_route (h m)" and "\<And>m i. h m \<noteq> Some (Xbuf i)"
  shows "agree (e\<lparr>er_table := h\<rparr>) (t\<lparr>rt_registry := g\<rparr>)"
  using assms by (simp add: agree_def)

lemma agree_enabled: "agree e t \<Longrightarrow> enabled ev (er_core e) = enabled ev t"
  by (cases ev) (auto simp: agreeD agree_con)

lemma agree_add:
  assumes "agree e t" and "k = Tcp \<or> k = Peer"
  shows "fst (add_entry (er_table e) m (k c)) = fst (registry_add (rt_registry t) m c)"
    "agree (e\<lparr>er_table := snd (add_entry (er_table e) m (k c))\<rparr>) (t\<lparr>rt_registry := snd (registry_add (rt_registry t) m c)\<rparr>)"
proof -
  have r: "tcp_route (Some (k c)) = Some c" "\<And>i. k c \<noteq> Xbuf i" using assms(2) by auto
  have n: "(rt_registry t m = None) = (er_table e m = None)"
    using agreeD(7,8) [OF assms(1)] by (cases "er_table e m" rule: tcp_route.cases) auto
  then show "fst (add_entry (er_table e) m (k c)) = fst (registry_add (rt_registry t) m c)"
    by (cases "er_table e m"; cases "rt_registry t m") (simp_all add: add_entry_def registry_add_def)
  show "agree (e\<lparr>er_table := snd (add_entry (er_table e) m (k c))\<rparr>) (t\<lparr>rt_registry := snd (registry_add (rt_registry t) m c)\<rparr>)"
    using n r agreeD(7,8) [OF assms(1)]
    by (intro agree_table [OF assms(1)]; cases "er_table e m"; cases "rt_registry t m")
      (auto simp: add_entry_def registry_add_def simp del: tcp_route.simps)
qed

lemma agree_remove: "agree e t \<Longrightarrow> agree (er_remove e m) (t\<lparr>rt_registry := registry_remove (rt_registry t) m\<rparr>)"
proof -
  assume a: "agree e t"
  have "er_remove e m = e\<lparr>er_table := remove_entry (er_table e) m\<rparr>"
    using agreeD(8) [OF a] by (auto simp: er_remove_def find_entry_def Let_def split: option.splits mailbox_entry.splits)
  then show ?thesis using agreeD(7,8) [OF a]
    by (auto intro!: agree_table [OF a] simp: remove_entry_def registry_remove_def split: if_splits)
qed

lemma agree_remove_all:
  assumes "agree e t"
  shows "agree (e\<lparr>er_table := remove_all_for_con (er_table e) c\<rparr>) (t\<lparr>rt_registry := registry_remove_all (rt_registry t) c\<rparr>)"
proof (rule agree_table [OF assms])
  show "registry_remove_all (rt_registry t) c m = tcp_route (remove_all_for_con (er_table e) c m)" for m
    using agreeD(7,8) [OF assms] by (cases "er_table e m" rule: tcp_route.cases)
      (auto simp: registry_remove_all_def remove_all_for_con_def)
  show "remove_all_for_con (er_table e) c m \<noteq> Some (Xbuf i)" for m i
    using agreeD(8) [OF assms] by (auto simp: remove_all_for_con_def split: option.splits)
qed

section \<open>Frames\<close>

lemma agree_send: "agree e t \<Longrightarrow> agree (er_send e c bs) (con_send t c bs)"
  unfolding er_send_def by (rule agree_core) (simp_all add: plain_con_send)

lemma agree_forward: "agree e t \<Longrightarrow> agree (snd (er_forward e d f b)) (snd (forward t d f b))"
  unfolding er_forward_core by (rule agree_core) (simp_all add: plain_forward)

lemma agree_route_data:
  assumes "agree e t" and "c < length (rt_connections t)"
  shows "agree (er_route_data e c f b) (route_data t c f b)"
proof (cases "er_table e (fh_dest f)")
  case None
  obtain ok t' where u: "forward_to_upstream t f b = (ok, t')" by fastforce
  have "plain Map.empty (er_core e) = plain Map.empty t" using assms(1) by (simp add: agree_def)
  then have "fst (forward_to_upstream (er_core e) f b) = ok" "plain Map.empty (snd (forward_to_upstream (er_core e) f b)) = plain Map.empty t'"
    using plain_forward_to_upstream [of Map.empty "er_core e" f b] plain_forward_to_upstream [of Map.empty t f b] u by simp_all
  moreover have "rt_registry t' = rt_registry t" using registry_kept(7) [of t f b] u by simp
  ultimately have "er_forward_to_upstream e f b = (ok, snd (er_forward_to_upstream e f b))"
    "agree (snd (er_forward_to_upstream e f b)) t'"
    using assms(1) by (simp_all add: er_forward_to_upstream_core agree_def)
  then show ?thesis
    using None u assms agree_con(2) [OF assms] agreeD(7) [OF assms(1), of "fh_dest f"] agree_send
    by (cases "er_forward_to_upstream e f b")
      (auto simp: er_route_data_def route_data_def find_entry_def registry_find_def error_frame_def)
next
  case (Some k)
  then show ?thesis using agree_forward [OF assms(1)] agreeD(7) [OF assms(1), of "fh_dest f"] agreeD(8) [OF assms(1)]
    by (cases k) (simp_all add: er_route_data_def route_data_def find_entry_def registry_find_def)
qed

text \<open>Sending on different connections commutes.\<close>

lemma set_socket_commute: "c \<noteq> d \<Longrightarrow> set_socket (set_socket r c s) d s' = set_socket (set_socket r d s') c s"
  by (simp add: set_socket_def list_update_swap)

lemma con_send_commute: "c \<noteq> d \<Longrightarrow> con_send (con_send r c x) d y = con_send (con_send r d y) c x"
proof -
  assume "c \<noteq> d"
  moreover from this have "socket_of (set_socket r c s) d = socket_of r d" "socket_of (set_socket r d s) c = socket_of r c" for s
    by (simp_all add: set_socket_def)
  ultimately show ?thesis by (simp add: con_send_def set_socket_commute)
qed

lemma send_peer_register_con_send:
  "c \<noteq> d \<Longrightarrow> send_peer_register m (con_send r c bs) d = con_send (send_peer_register m r d) c bs"
  by (simp add: send_peer_register_def Let_def con_send_commute [of c d])

lemma peers_of_con_send [simp]: "peers_of (con_send r c bs) = peers_of r"
  by (cases "c < length (rt_connections r)")
    (auto simp: peers_of_def con_send_def set_socket_def nth_list_update list_update_beyond intro!: filter_cong)

lemma on_local_registered_con_send:
  assumes "\<not> is_peer r c" and "c < length (rt_connections r)"
  shows "on_local_registered (con_send r c bs) m = con_send (on_local_registered r m) c bs"
proof -
  have "foldl (send_peer_register m) (con_send r c bs) ds = con_send (foldl (send_peer_register m) r ds) c bs"
    if "c \<notin> set ds" for ds r using that
    by (induction ds arbitrary: r) (simp_all add: send_peer_register_con_send)
  moreover have "c \<notin> set (peers_of r)" using assms by (simp add: peers_of_def)
  moreover have "(con_send r c bs)\<lparr>rt_local := l\<rparr> = con_send (r\<lparr>rt_local := l\<rparr>) c bs" "rt_local (con_send r c bs) = rt_local r" for l
    by (simp_all add: con_send_def set_socket_def)
  ultimately show ?thesis by (simp add: on_local_registered_def broadcast_to_peers_def)
qed

definition no_devices :: "(string \<Rightarrow> int \<times> (nat \<Rightarrow> int)) \<Rightarrow> bool" where
  "no_devices xopen \<longleftrightarrow> (\<forall>path. fst (xopen path) < 0)"

lemma agree_registration:
  assumes "agree e t" and "c < length (rt_connections t)" and "\<not> is_peer t c" and "fst (xopen (xbuf_path m)) < 0"
    and "register_mailbox xopen e c m = (ok, e1)" and "registry_add (rt_registry t) m c = (ok', table)"
  shows "ok = ok'" and "agree (er_send e1 c (g ok)) (let r1 = con_send (t\<lparr>rt_registry := table\<rparr>) c (g ok')
      in if ok' then on_local_registered r1 m else r1)"
proof -
  let ?e = "e\<lparr>er_table := snd (add_entry (er_table e) m (Tcp c))\<rparr>" and ?t = "t\<lparr>rt_registry := table\<rparr>"
  note a = agree_add [OF assms(1), of Tcp m c, simplified, unfolded assms(6), simplified]
  have e1: "ok = fst (add_entry (er_table e) m (Tcp c))" "e1 = (if ok then er_on_local_registered ?e m else e)"
    using assms(4,5) by (auto simp: register_mailbox_def add_tcp_def split: prod.splits if_splits)
  show ok: "ok = ok'" using e1(1) a(1) by simp
  have "agree (er_on_local_registered ?e m) (on_local_registered ?t m)"
    unfolding er_on_local_registered_core by (rule agree_core [OF a(2)]) (simp_all add: plain_on_local)
  moreover have "on_local_registered (con_send ?t c (g True)) m = con_send (on_local_registered ?t m) c (g True)"
    using assms(2,3) by (simp add: on_local_registered_con_send)
  moreover have "?t = t" if "\<not> ok'"
    using that assms(6) by (auto simp: registry_add_def split: option.splits)
  ultimately show "agree (er_send e1 c (g ok)) (let r1 = con_send ?t c (g ok') in if ok' then on_local_registered r1 m else r1)"
    using ok e1(2) assms(1) by (cases ok') (simp_all add: agree_send)
qed

lemma agree_dispatch:
  assumes "agree e t" and "c < length (rt_connections t)" and "no_devices xopen"
    and "\<not> (is_peer t c \<and> fh_type f = MSG_ROUTER_MBX_INIT_WITH_REPLY)"
  shows "agree (er_dispatch_frame xopen e c f b) (dispatch_frame t c f b)"
proof -
  let ?m = "mip_mbx (read_mbx_init b)"
  note peer = agree_con(2) [OF assms(1,2)]
  have no: "fst (xopen (xbuf_path ?m)) < 0" using assms(3) by (simp add: no_devices_def)
  have hello: "agree (er_advertise_as_peer (on_core (\<lambda>t. set_peer t c) e) c) (advertise_as_peer (set_peer t c) c)"
    unfolding er_advertise_as_peer_def
    by (rule agree_core [OF agree_core [OF assms(1)]]) (simp_all add: plain_set_peer plain_advertise)
  have learn: "agree (e\<lparr>er_table := snd (add_peer (er_table e) ?m c)\<rparr>)
      (t\<lparr>rt_registry := snd (registry_add (rt_registry t) ?m c)\<rparr>)"
    using agree_add(2) [OF assms(1), of Peer] by (simp add: add_peer_def)
  note rem = agree_remove [OF assms(1), of ?m]
  have watch: "agree e (set_watchdog_off t c)" using assms(1) by (simp add: agree_def plain_set_watchdog_off)
  have del: "agree (er_on_local_deleted (er_remove e ?m) ?m)
      (on_local_deleted (t\<lparr>rt_registry := registry_remove (rt_registry t) ?m\<rparr>) ?m)"
    unfolding er_on_local_deleted_core by (rule agree_core [OF rem]) (simp_all add: plain_on_local)
  obtain ok e1 ok' table where r: "register_mailbox xopen e c ?m = (ok, e1)" "registry_add (rt_registry t) ?m c = (ok', table)"
    by (metis surj_pair)
  show ?thesis
  proof (cases "fh_type f = MSG_ROUTER_MBX_INIT_WITH_REPLY")
    case True
    then have "\<not> is_peer t c" using assms(4) by simp
    from agree_registration(2) [OF assms(1,2) this no r, where g = "\<lambda>ok. frame_bytes (make_frame (if ok then MSG_OK else MSG_ERROR)
        (fh_src f) 0 0 (fh_seq_nr f) 0)"] True r assms(1)
    show ?thesis by (simp add: er_dispatch_frame_def dispatch_frame_def msg_type_defs Let_def)
  next
    case False
    then show ?thesis
      using peer hello learn rem watch del agree_route_data [OF assms(1,2)] assms(1)
      by (simp add: er_dispatch_frame_def dispatch_frame_def Let_def)
  qed
qed

section \<open>Rounds\<close>

text \<open>
  The one difference on the wire: the TCP router answers a registration before it announces the
  mailbox, the EVL router after. A peer router never sends a registration request, so the two
  only differ for a connection that is both.
\<close>

definition peer_registers :: "router \<Rightarrow> con \<Rightarrow> bool" where
  "peer_registers r c \<longleftrightarrow> is_peer r c \<and>
     fh_type (read_frame (take sizeof_frame (sk_rx (socket_of r c)))) = MSG_ROUTER_MBX_INIT_WITH_REPLY"

lemma agree_set_socket: "agree e t \<Longrightarrow> agree (on_core (\<lambda>t. set_socket t c s) e) (set_socket t c s)"
  by (rule agree_core) (simp_all add: plain_set_socket)

lemma agree_exit: "agree e t \<Longrightarrow> agree (er_connection_exit e c) (connection_exit t c)"
  unfolding er_connection_exit_def connection_exit_def
  by (rule agree_core [OF agree_remove_all]) (simp_all add: plain_set_phase)

lemma agree_handle:
  assumes "agree e t" and "c < length (rt_connections t)" and "no_devices xopen"
    and "\<not> (is_peer t c \<and> fh_type f = MSG_ROUTER_MBX_INIT_WITH_REPLY)"
  shows "agree (er_handle_frame xopen e c f) (handle_frame t c f)"
proof -
  obtain ok body s where rv: "recv_all (socket_of t c) (unat (frame_body_len f)) = (ok, body, s)" by (metis prod_cases3)
  note d = agree_dispatch [OF _ _ assms(3), of _ _ c f]
  have "is_peer (set_socket t c s) c = is_peer t c" using assms(2) by (simp add: set_socket_def)
  then have "agree (er_dispatch_frame xopen (on_core (\<lambda>t. set_socket t c s) e) c f body) (dispatch_frame (set_socket t c s) c f body)"
    using d [OF agree_set_socket [OF assms(1)]] assms(2,4) by simp
  moreover have "agree (on_core (\<lambda>t. set_socket t c (close (socket_of t c))) e) (set_socket t c (close (socket_of t c)))"
    using agree_set_socket [OF assms(1), of c "close (socket_of t c)"] agree_con(1) [OF assms(1,2)] by (simp add: on_core_def)
  ultimately show ?thesis
    using rv d [OF assms(1)] assms(1,2,4) agree_set_socket [OF assms(1)] agree_con(1) [OF assms(1,2)] agreeD(2) [OF assms(1)]
    by (simp add: er_handle_frame_def handle_frame_def Let_def)
qed

lemma agree_round:
  assumes "agree e t" and "c < length (rt_connections t)" and "no_devices xopen" and "\<not> peer_registers t c"
  shows "agree (er_connection_iter xopen e c) (connection_iter t c)"
proof -
  obtain p s where p: "poll_in (socket_of t c) 200 = (p, s)" by fastforce
  obtain ok hdr s' where h: "recv_all s sizeof_frame = (ok, hdr, s')" by (metis prod_cases3)
  let ?t = "set_socket t c s'"
  have rx: "sk_rx s = sk_rx (socket_of t c)" using p by (auto simp: poll_in_def split: if_splits)
  have ip: "is_peer ?t c = is_peer t c" using assms(2) by (simp add: set_socket_def)
  have "hdr = take sizeof_frame (sk_rx (socket_of t c))" if ok
    using recv_all_stream [of s sizeof_frame hdr s'] h that rx by auto
  then have "agree (er_handle_frame xopen (on_core (\<lambda>t. set_socket t c s') e) c (read_frame hdr)) (handle_frame ?t c (read_frame hdr))" if ok
    using agree_handle [OF agree_set_socket [OF assms(1)] _ assms(3)] assms(2,4) ip that by (simp add: peer_registers_def)
  then show ?thesis
    using p h agree_set_socket [OF assms(1)] agree_exit [OF agree_set_socket [OF assms(1)]] agree_con(1) [OF assms(1,2)]
    by (simp add: er_connection_iter_def connection_iter_def Let_def)
qed

lemma agree_reader:
  assumes "agree e t" and "er_reader_iter e sock = (go_on, s, e')"
  shows "\<exists>t'. reader_iter t sock = (go_on, s, t') \<and> agree e' t'"
proof -
  obtain p s0 where p: "poll_in sock 200 = (p, s0)" by fastforce
  obtain ok hdr s1 where h: "recv_all s0 sizeof_frame = (ok, hdr, s1)" by (metis prod_cases3)
  let ?f = "read_frame hdr"
  obtain ok2 body s2 where b: "(if frame_body_len ?f = 0 then (True, [], s1) else recv_all s1 (unat (frame_body_len ?f))) = (ok2, body, s2)"
    by (metis prod_cases3)
  show ?thesis
    using assms(2) p h b agreeD(2,8) [OF assms(1)] agreeD(7) [OF assms(1), of "fh_dest ?f"] assms(1) agree_forward [OF assms(1)]
    by (cases "er_table e (fh_dest ?f)" rule: tcp_route.cases)
      (auto simp: er_reader_iter_def reader_iter_def Let_def find_entry_def registry_find_def split: if_splits)
qed

lemma agree_event:
  assumes "agree e t" and "no_devices xopen" and "enabled ev t" and "\<And>c. ev = Round c \<Longrightarrow> \<not> peer_registers t c"
  shows "agree (evl_event xopen ev e) (tcp_event ev t)"
proof (cases ev)
  case (Accepted s)
  then show ?thesis using agree_core [OF assms(1), of "\<lambda>t. accept_connection t s"] by (simp add: er_accept_def plain_accept)
next
  case (Started c)
  then have c: "er_is_peer e c = is_peer t c" using agree_con(2) [OF assms(1)] assms(3) by simp
  have "agree (er_advertise_as_peer e c) (advertise_as_peer t c)"
    unfolding er_advertise_as_peer_def by (rule agree_core [OF assms(1)]) (simp_all add: plain_advertise)
  with assms(1) have "agree (if er_is_peer e c then er_advertise_as_peer e c else e) (if is_peer t c then advertise_as_peer t c else t)"
    by (simp add: c)
  from agree_core [OF this, of "\<lambda>t. set_phase t c Running"] Started show ?thesis
    by (simp add: er_connection_start_def connection_start_def Let_def plain_set_phase)
next
  case (Round c)
  then show ?thesis using agree_round [OF assms(1) _ assms(2)] assms(3,4) by simp
next
  case (Stopped c)
  then show ?thesis using agree_exit [OF assms(1)] by simp
next
  case Upstream_round
  obtain g s e' where r: "er_reader_iter e (rt_upstream t) = (g, s, e')" by (metis prod_cases3)
  with agree_reader [OF assms(1)] obtain t' where t': "reader_iter t (rt_upstream t) = (g, s, t')" "agree e' t'" by blast
  from agree_core [OF t'(2), of "\<lambda>t. t\<lparr>rt_upstream := s\<rparr>"] r t'(1) agreeD(3) [OF assms(1)] Upstream_round
  show ?thesis by (simp add: er_upstream_iter_def upstream_iter_def)
next
  case (System_round i)
  obtain g s e' where r: "er_reader_iter e (sc_socket (rt_systems t ! i)) = (g, s, e')" by (metis prod_cases3)
  with agree_reader [OF assms(1)] obtain t' where t': "reader_iter t (sc_socket (rt_systems t ! i)) = (g, s, t')" "agree e' t'"
    by blast
  from agree_core [OF t'(2), of "\<lambda>t. t\<lparr>rt_systems := (rt_systems t)[i := (rt_systems t ! i)\<lparr>sc_socket := s\<rparr>]\<rparr>"]
    r t'(1) agreeD(4) [OF assms(1)] System_round
  show ?thesis by (simp add: er_system_iter_def system_iter_def)
next
  case (Arrival c bs)
  let ?f = "\<lambda>t. set_socket t c ((socket_of t c)\<lparr>sk_rx := sk_rx (socket_of t c) @ bs\<rparr>)"
  have "plain Map.empty (?f r) = ?f (plain Map.empty r)" for r
    by (cases "c < length (rt_connections r)") (simp_all add: plain_set_socket set_socket_beyond)
  with agree_core [OF assms(1), of ?f] Arrival show ?thesis by simp
qed

text \<open>No peer connection asks for a registration in the course of the run.\<close>

fun orderly :: "event list \<Rightarrow> router \<Rightarrow> bool" where
  "orderly [] r \<longleftrightarrow> True"
| "orderly (ev # evs) r \<longleftrightarrow> (case ev of Round c \<Rightarrow> \<not> peer_registers r c | _ \<Rightarrow> True) \<and>
     orderly evs (if enabled ev r then tcp_event ev r else r)"

lemma agree_run:
  "agree e t \<Longrightarrow> no_devices xopen \<Longrightarrow> orderly evs t \<Longrightarrow> agree (evl_run xopen evs e) (tcp_run evs t)"
proof (induction evs arbitrary: e t)
  case (Cons ev evs)
  have "\<not> peer_registers t c" if "ev = Round c" for c using Cons.prems(3) that by simp
  then have "agree (if enabled ev (er_core e) then evl_event xopen ev e else e) (if enabled ev t then tcp_event ev t else t)"
    using agree_event [OF Cons.prems(1,2)] agree_enabled [OF Cons.prems(1)] Cons.prems(1) by simp
  with Cons.IH Cons.prems(2,3) show ?case by simp
qed simp

lemma startup_registry: "rt_registry (startup n peers upstream systems) = Map.empty"
proof -
  have "rt_registry (connect_to_system_routes r xs) = rt_registry r" for r xs
    unfolding connect_to_system_routes_def by (induction xs arbitrary: r) (auto split: prod.splits)
  moreover have "rt_registry (connect_to_upstream r x) = rt_registry r" for r x
    by (simp add: connect_to_upstream_def split: option.splits prod.splits)
  moreover have "rt_registry (connect_to_peers r xs) = rt_registry r" for r xs
    unfolding connect_to_peers_def by (induction xs arbitrary: r) (auto simp: add_connection_def split: prod.splits)
  ultimately show ?thesis by (simp add: startup_def new_router_def)
qed

lemma agree_startup: "agree (er_startup n peers upstream systems) (startup n peers upstream systems)"
  by (simp add: er_startup_core agree_def new_evl_router_def startup_registry)

section \<open>Equivalence\<close>

text \<open>
  C11. On a host without cross buffers the EVL router is a drop-in replacement for the TCP router:
  started with the same options and driven by the same events (accepted clients, arriving bytes,
  rounds and ends of the connection threads, rounds of the upstream and system-route readers, in
  any interleaving, with failing system calls), both reach states of their step relations in which
  every socket has sent and received the same bytes, the same connections are peers, the same
  mailboxes are advertised and every mailbox has the same route. The run must not contain a
  registration request on a peer link, which no router sends.
\<close>

theorem routers_interchangeable:
  assumes "no_devices xopen" and "orderly evs (startup n peers upstream systems)"
    and "e = evl_run xopen evs (er_startup n peers upstream systems)"
    and "t = tcp_run evs (startup n peers upstream systems)"
  shows "reachable t \<and> er_reachable e \<and>
    map cn_socket (rt_connections (er_core e)) = map cn_socket (rt_connections t) \<and>
    map cn_is_peer (rt_connections (er_core e)) = map cn_is_peer (rt_connections t) \<and>
    map cn_phase (rt_connections (er_core e)) = map cn_phase (rt_connections t) \<and>
    rt_upstream (er_core e) = rt_upstream t \<and> rt_systems (er_core e) = rt_systems t \<and>
    rt_local (er_core e) = rt_local t \<and> (\<forall>m. tcp_route (find_entry (er_table e) m) = registry_find (rt_registry t) m)"
proof -
  have "agree e t" unfolding assms(3,4) by (rule agree_run [OF agree_startup assms(1,2)])
  moreover have "reachable t" unfolding assms(4) by (rule tcp_run_reachable [OF reachable.init])
  moreover have "er_reachable e" unfolding assms(3) by (rule evl_run_reachable [OF er_reachable.er_init])
  ultimately show ?thesis
    by (auto intro!: nth_equalityI simp: agreeD agree_con find_entry_def registry_find_def)
qed

lemma map_eq_single: "map f xs = [y] \<Longrightarrow> f (xs ! 0) = y"
  by auto

definition ex_events :: "event list" where
  "ex_events = [Accepted ex_client, Started 0, Round 0]"

theorem routers_interchangeable_witness:
  "sk_tx (er_socket (evl_run (\<lambda>_. (-1, \<lambda>_. 0)) ex_events (er_startup 4096 [] None [])) 0)
    = frame_bytes (make_frame MSG_OK 0x0101 0 0 0 0)"
proof -
  have "no_devices (\<lambda>_. (-1, \<lambda>_. 0))" by (simp add: no_devices_def)
  moreover have "orderly ex_events (startup 4096 [] None [])" by code_simp
  ultimately have "map cn_socket (rt_connections (er_core (evl_run (\<lambda>_. (-1, \<lambda>_. 0)) ex_events (er_startup 4096 [] None [])))) =
      map cn_socket (rt_connections (tcp_run ex_events (startup 4096 [] None [])))"
    using routers_interchangeable [OF _ _ refl refl] by blast
  moreover have "map (sk_tx \<circ> cn_socket) (rt_connections (tcp_run ex_events (startup 4096 [] None []))) =
      [frame_bytes (make_frame MSG_OK 0x0101 0 0 0 0)]"
    by code_simp
  ultimately have "map (sk_tx \<circ> cn_socket) (rt_connections (er_core (evl_run (\<lambda>_. (-1, \<lambda>_. 0)) ex_events (er_startup 4096 [] None [])))) =
      [frame_bytes (make_frame MSG_OK 0x0101 0 0 0 0)]"
    by (metis map_map)
  from map_eq_single [OF this] show ?thesis by (simp only: comp_apply)
qed

end
