(* ===== verification/Gateway.thy ===== *)
theory Gateway
  imports Federation Evl_Router_Props Evl_Mailbox
begin

text \<open>
  A TCP router and an EVL router joined by a peer link, with a TCP client on the one side and a
  public EVL mailbox behind its cross buffer on the other: \<open>src/router/tcp_router.cpp\<close>,
  \<open>src/router/evl_router.cpp\<close>, the client back end and \<open>ipc/evl/evl_backend.hpp\<close> put together.
  What one router writes on its end of the link arrives at the other's; what the EVL mailbox
  writes to its cross buffer is what the router's reader reads there, and the other way round.
\<close>

section \<open>Rounds of the EVL router\<close>

definition er_arrived :: "evl_router \<Rightarrow> con \<Rightarrow> bytes \<Rightarrow> evl_router" where
  "er_arrived e c bs = on_core (\<lambda>t. arrived t c bs) e"

lemma er_arrived_simps [simp]:
  "er_core (er_arrived e c bs) = arrived (er_core e) c bs" "er_table (er_arrived e c bs) = er_table e"
  "er_xbufs (er_arrived e c bs) = er_xbufs e"
  by (simp_all add: er_arrived_def)

lemma er_connection_iter_data:
  assumes "live (er_socket e c)" and "c < length (rt_connections (er_core e))"
    and "sk_rx (er_socket e c) = frame_bytes f @ body @ rest"
    and "fh_msglen f = 16 + of_nat (length body)" and "length body + 16 < 2 ^ 32" and "body \<noteq> []"
    and "length body \<le> rt_max_msg_size (er_core e)"
  obtains s where "er_connection_iter xopen e c = er_dispatch_frame xopen (on_core (\<lambda>t. set_socket t c s) e) c f body"
    and "live s" and "sk_rx s = rest" and "sk_tx s = tx (er_core e) c"
proof -
  from assms(1) obtain s0 p where p: "poll_in (er_socket e c) 200 = (p, s0)" "0 < p" "live s0"
    "sk_rx s0 = sk_rx (er_socket e c)" "sk_tx s0 = tx (er_core e) c" by (rule live_poll)
  with assms(3) obtain s1 where s1: "recv_all s0 16 = (True, frame_bytes f, s1)" "live s1" "sk_rx s1 = body @ rest"
    "sk_tx s1 = tx (er_core e) c"
    using live_recv [of s0 "frame_bytes f" 16 "body @ rest"] by auto
  then obtain s2 where s2: "recv_all s1 (length body) = (True, body, s2)" "live s2" "sk_rx s2 = rest"
    "sk_tx s2 = tx (er_core e) c"
    using live_recv [of s1 body "length body" rest] by auto
  have "unat (of_nat (length body) :: u32) = length body" "unat (fh_msglen f) = 16 + length body"
    using assms(4,5) by (simp_all add: unat_of_nat unat_word_ariths)
  then have l: "unat (frame_body_len f) = length body" "frame_body_len f \<noteq> 0"
    using assms(4,6) by (auto simp: frame_body_len_def word_less_nat_alt unat_eq_zero)
  have "er_connection_iter xopen e c = er_dispatch_frame xopen (on_core (\<lambda>t. set_socket t c s2) e) c f body"
    using p s1 s2 l assms(2,7)
    by (simp add: er_connection_iter_def er_handle_frame_def frame_layout.dec_enc Let_def socket_of_set_socket on_core_def)
  with s2 that show thesis by blast
qed

lemma er_round:
  assumes "all_live (er_core e)" and "c < length (rt_connections (er_core e))"
    and "rx (er_core e) c = frame_bytes f @ body @ rest"
    and "fh_msglen f = 16 + of_nat (length body)" and "length body + 16 < 2 ^ 32" and "body \<noteq> []"
    and "length body \<le> rt_max_msg_size (er_core e)"
  obtains s where "er_connection_iter xopen e c = er_dispatch_frame xopen (on_core (\<lambda>t. set_socket t c s) e) c f body"
    and "live s" and "sk_rx s = rest" and "all_can_send (set_socket (er_core e) c s)"
    and "\<And>d. tx (set_socket (er_core e) c s) d = tx (er_core e) d"
proof -
  from er_connection_iter_data [OF all_liveD [OF assms(1,2)] assms(2-7), of xopen]
  obtain s where s: "er_connection_iter xopen e c = er_dispatch_frame xopen (on_core (\<lambda>t. set_socket t c s) e) c f body"
    "live s" "sk_rx s = rest" "sk_tx s = tx (er_core e) c" by blast
  moreover have "all_can_send (set_socket (er_core e) c s)"
    by (rule all_live_can_send [OF all_live_set_socket [OF assms(1) s(2)]])
  ultimately show thesis using that by (simp add: socket_of_set_socket)
qed

lemma mbx_init_nonempty: "mbx_init_bytes p \<noteq> []"
proof -
  have "length (mbx_init_bytes p) \<noteq> length ([] :: bytes)" by simp
  then show ?thesis by (rule contrapos_nn) (rule arg_cong)
qed

text \<open>A peer announces \<open>m\<close> to the EVL router.\<close>

lemma er_announcement_round:
  assumes "all_live (er_core e)" and "c < length (rt_connections (er_core e))" and "er_is_peer e c"
    and "rx (er_core e) c = register_frame m @ rest" and "4 \<le> rt_max_msg_size (er_core e)" and "er_table e m = None"
    and "e1 = er_connection_iter xopen e c"
  shows "took (er_core e) c rest (er_core e1)" and "er_table e1 = (er_table e)(m \<mapsto> Peer c)" and "er_xbufs e1 = er_xbufs e"
    and "tx (er_core e1) d = tx (er_core e) d"
proof -
  let ?f = "make_frame MSG_ROUTER_PEER_REGISTER 0 0 0 0 4" and ?body = "mbx_init_bytes \<lparr>mip_mbx = m\<rparr>"
  obtain s where s: "e1 = er_dispatch_frame xopen (on_core (\<lambda>t. set_socket t c s) e) c ?f ?body"
    "live s" "sk_rx s = rest" "\<And>d. tx (set_socket (er_core e) c s) d = tx (er_core e) d"
    using er_round [OF assms(1,2), of ?f ?body rest xopen] mbx_init_nonempty assms(4,5,7) by (auto simp: register_frame_def make_frame_def)
  have e1: "e1 = (on_core (\<lambda>t. set_socket t c s) e)\<lparr>er_table := (er_table e)(m \<mapsto> Peer c)\<rparr>"
    using assms(3,6) by (simp add: s(1) er_dispatch_frame_def make_frame_def msg_type_defs add_peer_def add_entry_def)
  show "took (er_core e) c rest (er_core e1)"
    unfolding e1 by (rule took_set_socket [OF assms(1) s(2,3)]) simp
  show "er_table e1 = (er_table e)(m \<mapsto> Peer c)" "er_xbufs e1 = er_xbufs e" "tx (er_core e1) d = tx (er_core e) d"
    using s(4) by (simp_all add: e1)
qed

text \<open>A client registers a mailbox that has a cross buffer: it is announced, then confirmed.\<close>

lemma er_registration_round:
  assumes "all_live (er_core e)" and "c < length (rt_connections (er_core e))" and "\<not> er_is_peer e c"
    and "rx (er_core e) c = registration_message m prio seq @ rest" and "4 \<le> rt_max_msg_size (er_core e)"
    and "er_table e m = None" and "xopen (xbuf_path m) = (fd, writes)" and "0 \<le> fd" and "e1 = er_connection_iter xopen e c"
  shows "took (er_core e) c rest (er_core e1)" and "er_table e1 = (er_table e)(m \<mapsto> Xbuf (length (er_xbufs e)))"
    and "er_xbufs e1 = er_xbufs e @ [start_reader (new_xbuf fd writes m)]"
    and "d < length (rt_connections (er_core e)) \<Longrightarrow> tx (er_core e1) d = tx (er_core e) d @
      (if er_is_peer e d then register_frame m else []) @
      (if d = c then frame_bytes (make_frame MSG_OK m 0 0 seq 0) else [])"
proof -
  let ?f = "make_frame MSG_ROUTER_MBX_INIT_WITH_REPLY 0 m prio seq 4" and ?body = "mbx_init_bytes \<lparr>mip_mbx = m\<rparr>"
  obtain s where s: "e1 = er_dispatch_frame xopen (on_core (\<lambda>t. set_socket t c s) e) c ?f ?body"
    "live s" "sk_rx s = rest" "all_can_send (set_socket (er_core e) c s)"
    "\<And>d. tx (set_socket (er_core e) c s) d = tx (er_core e) d"
    using er_round [OF assms(1,2), of ?f ?body rest xopen] mbx_init_nonempty assms(4,5,9)
    by (auto simp: registration_message_def make_frame_def)
  let ?t = "on_local_registered (set_socket (er_core e) c s) m" and ?ok = "frame_bytes (make_frame MSG_OK m 0 0 seq 0)"
  have e1: "er_core e1 = con_send ?t c ?ok" "er_table e1 = (er_table e)(m \<mapsto> Xbuf (length (er_xbufs e)))"
    "er_xbufs e1 = er_xbufs e @ [start_reader (new_xbuf fd writes m)]"
    using assms(6-8) by (simp_all add: s(1) er_dispatch_frame_def make_frame_def msg_type_defs register_mailbox_def
        add_xbuf_def add_entry_def er_cores)
  then show "er_table e1 = (er_table e)(m \<mapsto> Xbuf (length (er_xbufs e)))"
    "er_xbufs e1 = er_xbufs e @ [start_reader (new_xbuf fd writes m)]" by simp_all
  have o: "only_sent (set_socket (er_core e) c s) ?t" by (rule only_sent_on_local)
  show "took (er_core e) c rest (er_core e1)" unfolding e1
    by (rule took_set_socket [OF assms(1) s(2,3) only_sent_trans [OF o only_sent_con_send]])
  have "all_can_send ?t" "length (rt_connections ?t) = length (rt_connections (er_core e))"
    using o all_live_set_socket [OF assms(1) s(2)] by (auto simp: only_sent_def intro: all_live_can_send)
  then have "tx (er_core e1) d = (if d = c then tx ?t c @ ?ok else tx ?t d)"
    unfolding e1 using assms(2) by (simp add: con_send_healthy(2))
  then show "d < length (rt_connections (er_core e)) \<Longrightarrow> tx (er_core e1) d = tx (er_core e) d @
      (if er_is_peer e d then register_frame m else []) @ (if d = c then ?ok else [])"
    using on_local_registered_tx [OF s(4), of m] s(5) by simp
qed

text \<open>Data for a cross buffer.\<close>

lemma er_data_round:
  assumes "all_live (er_core e)" and "c < length (rt_connections (er_core e))"
    and "rx (er_core e) c = frame_bytes f @ body @ rest" and "data_message f body" and "body \<noteq> []"
    and "length body \<le> rt_max_msg_size (er_core e)" and "er_table e (fh_dest f) = Some (Xbuf i)" and "i < length (er_xbufs e)"
    and "0 \<le> xb_fd (er_xbufs e ! i)" and "\<forall>j. 0 < xb_write_k (er_xbufs e ! i) j" and "e1 = er_connection_iter xopen e c"
  shows "took (er_core e) c rest (er_core e1)" and "er_table e1 = er_table e"
    and "xb_out (er_xbufs e1 ! i) = xb_out (er_xbufs e ! i) @ body" and "tx (er_core e1) d = tx (er_core e) d"
proof -
  obtain s where s: "e1 = er_dispatch_frame xopen (on_core (\<lambda>t. set_socket t c s) e) c f body"
    "live s" "sk_rx s = rest" "\<And>d. tx (set_socket (er_core e) c s) d = tx (er_core e) d"
    using er_round [OF assms(1-3) _ _ assms(5,6), of xopen] assms(4,11) by (auto simp: data_message_def)
  obtain x where x: "write_body (er_xbufs e ! i) body = (True, x)" "xb_out x = xb_out (er_xbufs e ! i) @ body"
    using write_body_accepts [OF assms(9,10,5)] .
  have e1: "e1 = set_xbuf (on_core (\<lambda>t. set_socket t c s) e) i x"
    using assms(4,7) x(1) by (simp add: s(1) er_dispatch_data data_message_def er_route_data_def find_entry_def)
  show "took (er_core e) c rest (er_core e1)"
    unfolding e1 by (rule took_set_socket [OF assms(1) s(2,3)]) simp
  show "er_table e1 = er_table e" "xb_out (er_xbufs e1 ! i) = xb_out (er_xbufs e ! i) @ body" "tx (er_core e1) d = tx (er_core e) d"
    using s(4) x(2) assms(8) by (simp_all add: e1)
qed

text \<open>A message from a cross buffer for a mailbox behind connection \<open>d\<close>.\<close>

lemma er_reader_round:
  assumes "all_live (er_core e)" and "32 \<le> length got" and "length got \<le> rt_max_msg_size (er_core e)"
    and "tcp_route (er_table e (wh_dest (read_wire_header got))) = Some d" and "d < length (rt_connections (er_core e))"
    and "e1 = xbuf_reader_iter e 1 got"
  shows "only_sent (er_core e) (er_core e1)" and "er_table e1 = er_table e" and "er_xbufs e1 = er_xbufs e"
    and "tx (er_core e1) c = tx (er_core e) c @ (if c = d then frame_bytes (make_frame 0 (wh_dest (read_wire_header got))
      (wh_src (read_wire_header got)) 0 0 (of_nat (length got))) @ got else [])"
proof -
  let ?f = "make_frame 0 (wh_dest (read_wire_header got)) (wh_src (read_wire_header got)) 0 0 (of_nat (length got))"
  have e1: "e1 = on_core (\<lambda>t. snd (forward t d ?f got)) e"
    using xbuf_reader_route [of 1 got e] assms(2-4,6) by simp
  show "only_sent (er_core e) (er_core e1)" "er_table e1 = er_table e" "er_xbufs e1 = er_xbufs e"
    by (simp_all add: e1 only_sent_forward)
  have "can_send (er_socket e d)" using all_live_can_send [OF assms(1)] assms(5) by (simp add: all_can_send_def)
  from forward_healthy [OF this assms(5)] show "tx (er_core e1) c = tx (er_core e) c @ (if c = d then frame_bytes ?f @ got else [])"
    by (simp add: e1)
qed

section \<open>The two routers get to know each other's mailboxes\<close>

text \<open>
  The client on \<open>ct\<close> of the TCP router registers and the EVL router hears of it; then a mailbox
  with a cross buffer is registered at the EVL router and the TCP router hears of that. \<open>pt\<close> and \<open>pe\<close>
  are the ends of the link.
\<close>

definition introduce :: "(string \<Rightarrow> int \<times> (nat \<Rightarrow> int)) \<Rightarrow> router \<Rightarrow> con \<Rightarrow> con \<Rightarrow> evl_router \<Rightarrow> con \<Rightarrow> con
    \<Rightarrow> router \<times> evl_router" where
  "introduce xopen T pt ct E pe ce =
     (let T1 = connection_iter T ct;
          E1 = er_connection_iter xopen (er_arrived E pe (new_tx T T1 pt)) pe;
          E2 = er_connection_iter xopen E1 ce;
          T2 = connection_iter (arrived T1 pt (new_tx (er_core E1) (er_core E2) pe)) pt
      in (T2, E2))"

lemma introduce_learns:
  assumes "linked T pt ct" and "linked (er_core E) pe ce"
    and "rx T ct = registration_message k prio seq" and "rx (er_core E) ce = registration_message m prio' seq'"
    and "rt_registry T k = None" and "rt_registry T m = None" and "er_table E k = None" and "er_table E m = None"
    and "k \<noteq> m" and "xopen (xbuf_path m) = (fd, writes)" and "0 \<le> fd"
    and "introduce xopen T pt ct E pe ce = (T2, E2)"
  shows "linked T2 pt ct" and "linked (er_core E2) pe ce" and "rx T2 ct = []"
    and "rt_registry T2 k = Some ct" and "rt_registry T2 m = Some pt"
    and "er_table E2 k = Some (Peer pe)" and "er_table E2 m = Some (Xbuf (length (er_xbufs E)))"
    and "er_xbufs E2 = er_xbufs E @ [start_reader (new_xbuf fd writes m)]"
    and "rt_max_msg_size T2 = rt_max_msg_size T" and "rt_max_msg_size (er_core E2) = rt_max_msg_size (er_core E)"
proof -
  note T = assms(1) [unfolded linked_def] and E = assms(2) [unfolded linked_def]
  have ne: "pt \<noteq> ct" "pe \<noteq> ce" using T E by auto
  define T1 where "T1 = connection_iter T ct"
  define E1 where "E1 = er_connection_iter xopen (er_arrived E pe (new_tx T T1 pt)) pe"
  have E2: "E2 = er_connection_iter xopen E1 ce"
    and T2: "T2 = connection_iter (arrived T1 pt (new_tx (er_core E1) (er_core E2) pe)) pt"
    using assms(12) by (auto simp: introduce_def Let_def T1_def E1_def)
  have t1: "took T ct [] T1" "rt_registry T1 = (rt_registry T)(k \<mapsto> ct)" "tx T1 pt = tx T pt @ register_frame k"
    unfolding T1_def using registration_round [of T ct k prio seq "[]"] T ne assms(3,5) by simp_all
  have w1: "new_tx T T1 pt = register_frame k" using t1(3) by (simp add: new_tx_def)
  have e1: "took (arrived (er_core E) pe (register_frame k)) pe [] (er_core E1)" "er_table E1 = (er_table E)(k \<mapsto> Peer pe)"
    "er_xbufs E1 = er_xbufs E"
    using er_announcement_round [of "er_arrived E pe (register_frame k)" pe k "[]" E1 xopen] E assms(7)
    by (simp_all add: E1_def w1)
  have le: "length (rt_connections (er_core E1)) = length (rt_connections (er_core E))" "all_live (er_core E1)"
    "rt_max_msg_size (er_core E1) = rt_max_msg_size (er_core E)" using tookD [OF e1(1)] by simp_all
  have ce: "rx (er_core E1) ce = registration_message m prio' seq' @ []" "er_is_peer E1 ce = er_is_peer E ce"
    "rx (er_core E1) pe = []" "er_is_peer E1 pe"
    using tookD(4,5) [OF e1(1), of ce] tookD(4,5) [OF e1(1), of pe] E ne assms(4) by simp_all
  have e2: "took (er_core E1) ce [] (er_core E2)" "er_table E2 = (er_table E1)(m \<mapsto> Xbuf (length (er_xbufs E)))"
    "er_xbufs E2 = er_xbufs E @ [start_reader (new_xbuf fd writes m)]" "tx (er_core E2) pe = tx (er_core E1) pe @ register_frame m"
    using er_registration_round [of E1 ce m prio' seq' "[]" xopen fd writes E2] E2 le ce E e1(2,3) ne assms(8-11) by simp_all
  have w2: "new_tx (er_core E1) (er_core E2) pe = register_frame m" using e2(4) by (simp add: new_tx_def)
  let ?T = "arrived T1 pt (register_frame m)"
  have lt: "length (rt_connections T1) = length (rt_connections T)" "all_live T1" "rt_max_msg_size T1 = rt_max_msg_size T"
    "rx T1 pt = []" "rx T1 ct = []" "is_peer T1 pt" "\<not> is_peer T1 ct"
    using tookD [OF t1(1)] T ne by simp_all
  have t2: "took ?T pt [] T2" "rt_registry T2 = snd (registry_add (rt_registry T1) m pt)"
    using announcement_round [of ?T pt m "[]"] lt T by (simp_all add: T2 w2)
  show "linked T2 pt ct" "rx T2 ct = []" "rt_max_msg_size T2 = rt_max_msg_size T"
    using tookD [OF t2(1)] lt T ne by (simp_all add: linked_def)
  show "linked (er_core E2) pe ce" "rt_max_msg_size (er_core E2) = rt_max_msg_size (er_core E)"
    using tookD [OF e2(1)] le ce E ne by (simp_all add: linked_def)
  show "rt_registry T2 k = Some ct" "rt_registry T2 m = Some pt"
    using t2(2) t1(2) assms(6,9) by (simp_all add: registry_add_def)
  show "er_table E2 k = Some (Peer pe)" "er_table E2 m = Some (Xbuf (length (er_xbufs E)))"
    using e2(2) e1(2) assms(9) by simp_all
  show "er_xbufs E2 = er_xbufs E @ [start_reader (new_xbuf fd writes m)]" by (rule e2)
qed

section \<open>From the client to the cross buffer and back\<close>

definition to_evl :: "(string \<Rightarrow> int \<times> (nat \<Rightarrow> int)) \<Rightarrow> bytes \<Rightarrow> router \<Rightarrow> con \<Rightarrow> con \<Rightarrow> evl_router \<Rightarrow> con
    \<Rightarrow> router \<times> evl_router" where
  "to_evl xopen wire T pt ct E pe =
     (let T1 = connection_iter (arrived T ct wire) ct in (T1, er_connection_iter xopen (er_arrived E pe (new_tx T T1 pt)) pe))"

definition to_tcp :: "bytes \<Rightarrow> router \<Rightarrow> con \<Rightarrow> evl_router \<Rightarrow> con \<Rightarrow> router \<times> evl_router" where
  "to_tcp got T pt E pe =
     (let E1 = xbuf_reader_iter E 1 got in (connection_iter (arrived T pt (new_tx (er_core E) (er_core E1) pe)) pt, E1))"

lemma to_evl_delivers:
  assumes "linked T pt ct" and "linked (er_core E) pe ce" and "rx T ct = []"
    and "data_message f body" and "body \<noteq> []" and "rt_registry T (fh_dest f) = Some pt"
    and "length body \<le> rt_max_msg_size T" and "length body \<le> rt_max_msg_size (er_core E)"
    and "er_table E (fh_dest f) = Some (Xbuf i)" and "i < length (er_xbufs E)"
    and "0 \<le> xb_fd (er_xbufs E ! i)" and "\<forall>j. 0 < xb_write_k (er_xbufs E ! i) j"
    and "to_evl xopen (frame_bytes f @ body) T pt ct E pe = (T1, E1)"
  shows "xb_out (er_xbufs E1 ! i) = xb_out (er_xbufs E ! i) @ body" and "linked T1 pt ct" and "linked (er_core E1) pe ce"
    and "rt_registry T1 = rt_registry T" and "er_table E1 = er_table E" and "tx T1 ct = tx T ct"
    and "rt_max_msg_size T1 = rt_max_msg_size T" and "rt_max_msg_size (er_core E1) = rt_max_msg_size (er_core E)"
proof -
  note T = assms(1) [unfolded linked_def] and E = assms(2) [unfolded linked_def]
  have ne: "pt \<noteq> ct" "pe \<noteq> ce" using T E by auto
  let ?w = "frame_bytes f @ body" and ?T = "arrived T ct (frame_bytes f @ body)"
  have T1: "T1 = connection_iter ?T ct" and E1: "E1 = er_connection_iter xopen (er_arrived E pe (new_tx T T1 pt)) pe"
    using assms(13) by (auto simp: to_evl_def Let_def)
  have t: "took ?T ct [] T1" "rt_registry T1 = rt_registry T" "\<And>d. tx T1 d = tx T d @ (if d = pt then ?w else [])"
    using data_round [of ?T ct f body "[]" pt] T assms(3,4,6,7) by (simp_all add: T1)
  have w: "new_tx T T1 pt = ?w" using t(3) [of pt] by (simp add: new_tx_def)
  let ?E = "er_arrived E pe ?w"
  have E': "all_live (er_core ?E)" "pe < length (rt_connections (er_core ?E))" "rx (er_core ?E) pe = frame_bytes f @ body @ []"
    "length body \<le> rt_max_msg_size (er_core ?E)" "er_table ?E (fh_dest f) = Some (Xbuf i)" "i < length (er_xbufs ?E)"
    "0 \<le> xb_fd (er_xbufs ?E ! i)" "\<forall>j. 0 < xb_write_k (er_xbufs ?E ! i) j"
    using E assms(8-12) by simp_all
  note e = er_data_round [OF E'(1-3) assms(4,5) E'(4-8) E1 [unfolded w]]
  show "xb_out (er_xbufs E1 ! i) = xb_out (er_xbufs E ! i) @ body" "er_table E1 = er_table E" using e(2,3) by simp_all
  show "linked T1 pt ct" "rt_max_msg_size T1 = rt_max_msg_size T"
    using tookD [OF t(1)] T ne by (simp_all add: linked_def)
  show "linked (er_core E1) pe ce" "rt_max_msg_size (er_core E1) = rt_max_msg_size (er_core E)"
    using tookD [OF e(1)] E ne by (simp_all add: linked_def)
  show "rt_registry T1 = rt_registry T" "tx T1 ct = tx T ct" using t ne by simp_all
qed

lemma to_tcp_delivers:
  assumes "linked T pt ct" and "linked (er_core E) pe ce" and "32 \<le> length got" and "length got + 16 < 2 ^ 32"
    and "length got \<le> rt_max_msg_size T" and "length got \<le> rt_max_msg_size (er_core E)"
    and "wh_dest (read_wire_header got) = k" and "er_table E k = Some (Peer pe)" and "rt_registry T k = Some ct"
    and "to_tcp got T pt E pe = (T1, E1)"
    and "f = make_frame 0 k (wh_src (read_wire_header got)) 0 0 (of_nat (length got))"
  shows "tx T1 ct = tx T ct @ frame_bytes f @ got"
proof -
  note T = assms(1) [unfolded linked_def] and E = assms(2) [unfolded linked_def]
  have E1: "E1 = xbuf_reader_iter E 1 got" and T1: "T1 = connection_iter (arrived T pt (new_tx (er_core E) (er_core E1) pe)) pt"
    using assms(10) by (auto simp: to_tcp_def Let_def)
  have "tx (er_core E1) pe = tx (er_core E) pe @ frame_bytes f @ got"
    using er_reader_round(4) [of E got pe E1 pe] E E1 assms(3,6,7,8,11) by simp
  then have w: "new_tx (er_core E) (er_core E1) pe = frame_bytes f @ got" by (simp add: new_tx_def)
  let ?T = "arrived T pt (frame_bytes f @ got)"
  have "data_message f got" "fh_dest f = k"
    using assms(4,11) by (simp_all add: data_message_def make_frame_def router_types_def msg_type_defs)
  then show ?thesis
    using data_round(4) [of ?T pt f got "[]" ct ct] T assms(5,9) by (simp add: T1 w)
qed

section \<open>End to end\<close>

text \<open>A public EVL mailbox that is woken with bytes from its cross buffer returns them.\<close>

lemma xbuf_receive:
  assumes "eb_created (w_box w b)" and "eb_mode (w_box w b) = Public" and "0 \<le> eb_xbuf_fd (w_box w b)"
    and "0 \<le> eb_poll_fd (w_box w b)" and "d \<noteq> []" and "length d \<le> n"
    and "rv_poll env (receive_deadline (rv_now env) timeout) = (1, Xbuf_ready d # events)"
  obtains w' where "receive_impl env b n timeout w = Done (int (length d), d, xbuf_metadata d, w')"
  using assms by (simp add: receive_impl_def Let_def)

text \<open>A public mailbox that finds no ring for the destination hands the message to the router.\<close>

lemma xbuf_send:
  assumes "eb_mode (w_box w b) = Public" and "local_target w b dest = None"
    and "fst (get_or_open_remote (sa_open ans) (eb_cache (w_box w b)) dest) = None"
    and "evl_send_raw ans w b (Some d) dest p = Done (SUCCESS, w')"
  shows "w_xbuf_out w' b = w_xbuf_out w b @ d"
  using assms by (cases "get_or_open_remote (sa_open ans) (eb_cache (w_box w b)) dest")
    (auto simp: evl_send_raw_def send_public_def count_sent_def Let_def split: if_splits)

text \<open>
  C7. Through both routers and back. A TCP client registers mailbox \<open>k\<close> at the TCP router, mailbox \<open>m\<close>,
  which has a cross buffer, is registered at the EVL router, and the routers tell each other. Then
  what the client sends successfully to \<open>m\<close> is received by the public EVL mailbox behind that
  cross buffer, unchanged; and a message that an EVL mailbox hands to the router with \<open>k\<close> as the
  destination in its header is received by the client, unchanged and with its sender's address.
\<close>

theorem gateway_round_trip:
  assumes "linked T pt ct" and "linked (er_core E) pe ce"
    and "rx T ct = registration_message k prio seq" and "rx (er_core E) ce = registration_message m prio' seq'"
    and "rt_registry T k = None" and "rt_registry T m = None" and "er_table E k = None" and "er_table E m = None" and "k \<noteq> m"
    and "xopen (xbuf_path m) = (fd, writes)" and "0 \<le> fd" and "\<forall>j. 0 < writes j"
    and "introduce xopen T pt ct E pe ce = (T2, E2)"
    and "send_raw a (Some d) m = (SUCCESS, a')" and "sk_tx (tm_socket a') = sk_tx (tm_socket a) @ wire"
    and "length d + 16 < 2 ^ 32" and "length d \<le> rt_max_msg_size T" and "length d \<le> rt_max_msg_size (er_core E)"
    and "to_evl xopen wire T2 pt ct E2 pe = (T3, E3)"
    and "eb_created (w_box w b)" and "eb_mode (w_box w b) = Public" and "0 \<le> eb_xbuf_fd (w_box w b)"
    and "0 \<le> eb_poll_fd (w_box w b)" and "length d \<le> n"
    and "rv_poll env (receive_deadline (rv_now env) timeout) =
      (1, Xbuf_ready (xb_out (er_xbufs E3 ! length (er_xbufs E))) # events)"
    and "eb_mode (w_box v b') = Public" and "local_target v b' k = None"
    and "fst (get_or_open_remote (sa_open ans) (eb_cache (w_box v b')) k) = None"
    and "evl_send_raw ans v b' (Some d') k p = Done (SUCCESS, v')" and "w_xbuf_out v' b' = w_xbuf_out v b' @ got"
    and "32 \<le> length d'" and "length d' + 16 < 2 ^ 32" and "wh_dest (read_wire_header d') = k"
    and "length d' \<le> rt_max_msg_size T" and "length d' \<le> rt_max_msg_size (er_core E)" and "length d' \<le> n'"
    and "to_tcp got T3 pt E3 pe = (T4, E4)"
    and "tm_initialized c" and "live (tm_socket c)" and "tx T4 ct = tx T3 ct @ sk_rx (tm_socket c)" and "\<And>bs. swap True bs = bs"
  shows "(\<exists>w'. receive_impl env b n timeout w = Done (int (length d), d, xbuf_metadata d, w')) \<and>
    (\<exists>c'. receive_raw swap c n' timeout' = (int (length d'), d',
      Some (frame_metadata (make_frame 0 k (wh_src (read_wire_header d')) 0 0 (of_nat (length d')))), c'))"
proof
  let ?i = "length (er_xbufs E)" and ?f = "make_frame 0 k (wh_src (read_wire_header d')) 0 0 (of_nat (length d'))"
  note i = introduce_learns [OF assms(1-11,13)]
  have d: "d \<noteq> []" and wire: "wire = frame_bytes (data_frame a d m) @ d"
    using send_raw_success [OF assms(14)] assms(15) by simp_all
  have dm: "data_message (data_frame a d m) d" using assms(16) by (simp add: data_message_def)
  have x: "er_xbufs E2 ! ?i = start_reader (new_xbuf fd writes m)" using i(8) by simp
  note e = to_evl_delivers [where f = "data_frame a d m", OF i(1-3) dm d, of ?i xopen T3 E3]
  have e': "xb_out (er_xbufs E3 ! ?i) = d" "linked T3 pt ct" "linked (er_core E3) pe ce"
    "rt_registry T3 = rt_registry T2" "er_table E3 = er_table E2"
    "rt_max_msg_size T3 = rt_max_msg_size T" "rt_max_msg_size (er_core E3) = rt_max_msg_size (er_core E)"
    using e assms(11,12,17-19) i(5,7-10) x by (simp_all add: wire start_reader_def new_xbuf_def)
  show "\<exists>w'. receive_impl env b n timeout w = Done (int (length d), d, xbuf_metadata d, w')"
    using xbuf_receive [OF assms(20-23) d assms(24) assms(25) [unfolded e'(1)]] by blast
  have got: "got = d'" using xbuf_send [OF assms(26-29)] assms(30) by simp
  have "tx T4 ct = tx T3 ct @ frame_bytes ?f @ d'"
    using to_tcp_delivers [OF e'(2,3), of d' k T4 E4 ?f] assms(31-35,37) got i(4,6) e'(4-7) by simp
  then have rx: "sk_rx (tm_socket c) = concat (map frame_bytes []) @ frame_bytes ?f @ d' @ []" using assms(40) by simp
  have "data_frame_ok ?f d'"
    using assms(31,32) by (auto simp: data_frame_ok_def make_frame_def msg_type_defs FRAME_LE_FLAG_def)
  from receive_raw_delivers [where swap = swap and fs = "[]" and rest = "[]", OF assms(38,39,41) _ this assms(36) rx, of timeout']
  show "\<exists>c'. receive_raw swap c n' timeout' = (int (length d'), d', Some (frame_metadata ?f), c')" by auto
qed

text \<open>A client with mailbox 0x0202 and an EVL mailbox 0x0404.\<close>

definition ex_devices :: "string \<Rightarrow> int \<times> (nat \<Rightarrow> int)" where
  "ex_devices path = (9, \<lambda>_. 3)"

definition ex_site :: "router \<times> evl_router" where
  "ex_site = introduce ex_devices (ex_linked (registration_message 0x0202 5 0)) 1 0
     \<lparr>er_core = ex_linked (registration_message 0x0404 5 0), er_table = Map.empty, er_xbufs = []\<rparr> 1 0"

definition ex_bridge_wire :: bytes where
  "ex_bridge_wire = frame_bytes (make_frame 0 0x0404 0x0202 0 0 2) @ [7, 8]"

definition ex_there :: "router \<times> evl_router" where
  "ex_there = to_evl ex_devices ex_bridge_wire (fst ex_site) 1 0 (snd ex_site) 1"

definition ex_reply :: bytes where
  "ex_reply = wire_header_bytes \<lparr>wh_msg_type = 7, wh_msg_size = 33, wh_timestamp = 5, wh_seq_number = 1,
     wh_dest = 0x0202, wh_src = 0x0404, wh_flags = 0\<rparr> @ [42]"

definition ex_back :: "router \<times> evl_router" where
  "ex_back = to_tcp ex_reply (fst ex_there) 1 (snd ex_there) 1"

definition ex_bridge_host :: world where
  "ex_bridge_host = upd_box 0 (\<lambda>b. b\<lparr>eb_poll_fd := 4, eb_config := (eb_config b)\<lparr>cfg_max_msg_size := 64\<rparr>\<rparr>) ex_host"

definition ex_gateway_env :: receive_env where
  "ex_gateway_env = ex_env\<lparr>rv_poll := (\<lambda>_. (1, [Xbuf_ready (xb_out (er_xbufs (snd ex_there) ! 0))]))\<rparr>"

definition ex_router_send :: send_answer where
  "ex_router_send = \<lparr>sa_open = ex_open\<lparr>oa_switched := False\<rparr>, sa_xbuf_write = 33, sa_sendmsg = 0\<rparr>"

definition ex_gateway_client :: tims_mailbox where
  "ex_gateway_client = ex_tims\<lparr>tm_socket := ex_socket\<lparr>sk_rx := frame_bytes (make_frame 0 0x0202 0x0404 0 0 33) @ ex_reply\<rparr>\<rparr>"

lemma ex_reply_facts:
  "length ex_reply = 33" "wh_dest (read_wire_header ex_reply) = 0x0202" "wh_src (read_wire_header ex_reply) = 0x0404"
  unfolding ex_reply_def by (simp_all del: wire_header_layout.dec_enc)

lemma ex_bridge_host_facts:
  "eb_created (w_box ex_bridge_host 0)" "eb_mode (w_box ex_bridge_host 0) = Public"
  "0 \<le> eb_xbuf_fd (w_box ex_bridge_host 0)" "0 \<le> eb_poll_fd (w_box ex_bridge_host 0)"
  "cfg_max_msg_size (eb_config (w_box ex_bridge_host 0)) = 64" "local_target ex_bridge_host 0 0x0202 = None"
  "fst (get_or_open_remote (sa_open ex_router_send) (eb_cache (w_box ex_bridge_host 0)) 0x0202) = None"
  "w_xbuf_out ex_bridge_host 0 = []"
proof -
  show "local_target ex_bridge_host 0 0x0202 = None"
    "fst (get_or_open_remote (sa_open ex_router_send) (eb_cache (w_box ex_bridge_host 0)) 0x0202) = None"
    by code_simp+
qed (simp_all add: ex_bridge_host_def ex_host_def ex_pub_def new_evl_mailbox_def)

lemma ex_router_send_succeeds:
  obtains v' where "evl_send_raw ex_router_send ex_bridge_host 0 (Some ex_reply) 0x0202 3 = Done (SUCCESS, v')"
    and "w_xbuf_out v' 0 = w_xbuf_out ex_bridge_host 0 @ ex_reply"
  using ex_bridge_host_facts ex_reply_facts(1)
  by (cases "get_or_open_remote (sa_open ex_router_send) (eb_cache (w_box ex_bridge_host 0)) 0x0202")
    (auto simp: evl_send_raw_def send_public_def count_sent_def ex_router_send_def Let_def)

lemma ex_gateway_steps:
  "introduce ex_devices (ex_linked (registration_message 0x0202 5 0)) (Suc 0) 0
     \<lparr>er_core = ex_linked (registration_message 0x0404 5 0), er_table = Map.empty, er_xbufs = []\<rparr> (Suc 0) 0
     = (fst ex_site, snd ex_site)"
  "to_evl ex_devices ex_bridge_wire (fst ex_site) (Suc 0) 0 (snd ex_site) (Suc 0) = (fst ex_there, snd ex_there)"
  "to_tcp ex_reply (fst ex_there) (Suc 0) (snd ex_there) (Suc 0) = (fst ex_back, snd ex_back)"
  by (simp_all add: ex_site_def ex_there_def ex_back_def)

lemma ex_back_tx: "tx (fst ex_back) 0 = tx (fst ex_there) 0 @ frame_bytes (make_frame 0 0x0202 0x0404 0 0 33) @ ex_reply"
proof -
  let ?f = "make_frame 0 0x0404 0x0202 0 0 2"
  note i = introduce_learns [OF _ _ _ _ _ _ _ _ _ _ _ ex_gateway_steps(1), of "0x0202" 5 0 "0x0404" 5 0 9 "\<lambda>_. 3", simplified ex_devices_def, simplified]
  have f: "data_message ?f [7, 8]" "fh_dest ?f = 0x0404"
    by (simp_all add: data_message_def make_frame_def router_types_def msg_type_defs)
  note e = to_evl_delivers [where i = 0, OF i(1-3) f(1) _ _ _ _ _ _ _ _ ex_gateway_steps(2) [unfolded ex_bridge_wire_def], unfolded f(2)]
  show ?thesis
    using to_tcp_delivers [OF e(2,3) _ _ _ _ ex_reply_facts(2) _ _ ex_gateway_steps(3) refl] e(4,5,7,8) i(4-10) ex_reply_facts
    by (simp add: start_reader_def new_xbuf_def)
qed

lemma ex_bridge_sent:
  obtains a' where "send_raw ex_tims (Some [7, 8]) 0x0404 = (SUCCESS, a')"
    and "sk_tx (tm_socket a') = sk_tx (tm_socket ex_tims) @ ex_bridge_wire"
proof -
  have "fst (send_raw ex_tims (Some [7, 8]) 0x0404) = SUCCESS" by code_simp
  then obtain a' where a': "send_raw ex_tims (Some [7, 8]) 0x0404 = (SUCCESS, a')"
    by (cases "send_raw ex_tims (Some [7, 8]) 0x0404") simp
  moreover have "data_frame ex_tims [7, 8] 0x0404 = make_frame 0 0x0404 0x0202 0 0 2"
    by (simp add: data_frame_def ex_tims_def new_tims_mailbox_def default_ipc_config_def)
  ultimately show thesis using that send_raw_success(2) [OF a'] by (simp add: ex_bridge_wire_def)
qed

theorem gateway_round_trip_witness:
  "(\<exists>w'. receive_impl ex_gateway_env 0 8 (milliseconds 5) ex_bridge_host = Done (2, [7, 8], xbuf_metadata [7, 8], w')) \<and>
    (\<exists>c'. receive_raw (\<lambda>_ bs. bs) ex_gateway_client 100 (milliseconds 5) =
      (33, ex_reply, Some (frame_metadata (make_frame 0 0x0202 0x0404 0 0 33)), c'))"
proof -
  obtain a' where a': "send_raw ex_tims (Some [7, 8]) 0x0404 = (SUCCESS, a')"
    "sk_tx (tm_socket a') = sk_tx (tm_socket ex_tims) @ ex_bridge_wire" by (rule ex_bridge_sent)
  obtain v' where v': "evl_send_raw ex_router_send ex_bridge_host 0 (Some ex_reply) 0x0202 3 = Done (SUCCESS, v')"
    "w_xbuf_out v' 0 = w_xbuf_out ex_bridge_host 0 @ ex_reply" by (rule ex_router_send_succeeds)
  let ?E = "\<lparr>er_core = ex_linked (registration_message 0x0404 5 0), er_table = Map.empty, er_xbufs = []\<rparr>"
  note rt = gateway_round_trip [of "ex_linked (registration_message 0x0202 5 0)" 1 0 ?E 1 0 "0x0202" 5 0 "0x0404" 5 0
      ex_devices 9 "\<lambda>_. 3" "fst ex_site" "snd ex_site" ex_tims "[7, 8]" a' ex_bridge_wire "fst ex_there" "snd ex_there"
      ex_bridge_host 0 8 ex_gateway_env "milliseconds 5" "[]" ex_bridge_host 0 ex_router_send ex_reply 3 v' ex_reply 100
      "fst ex_back" "snd ex_back" ex_gateway_client "\<lambda>_ bs. bs" "milliseconds 5"]
  have "tm_initialized ex_gateway_client" "live (tm_socket ex_gateway_client)"
    "tx (fst ex_back) 0 = tx (fst ex_there) 0 @ sk_rx (tm_socket ex_gateway_client)"
    by (simp_all add: ex_gateway_client_def ex_tims_def ex_back_tx)
  then show ?thesis
    using rt a' v' ex_bridge_host_facts ex_reply_facts ex_gateway_steps by (simp add: ex_devices_def ex_gateway_env_def)
qed

end
