(* ===== verification/Spec2Isabelle.thy ===== *)
theory Spec2Isabelle
  imports Evl_Router_Props Router_Cli Logging_Props File_Io Router_Daemon Evl_Inband
    Request_Reply Evl_Typed Evl_Concurrent Fan_In Router_Equiv Gateway
begin

text \<open>
  \<^bold>\<open>CoreRaT: messages between real-time and ordinary processes.\<close>

  CoreRaT gives processes typed mailboxes. A \<^emph>\<open>message definition\<close> fixes the type, category and number
  of a message; a \<^emph>\<open>registry\<close> of definitions assigns ids and dispatches received bytes to the right
  type. A \<^emph>\<open>mailbox\<close> sends and receives such messages over one of two back ends. On ordinary Linux
  it is a TCP client of a \<^emph>\<open>router\<close> daemon on the same host, speaking the TiMS frame protocol; routers
  announce their mailboxes to peer routers and hand unknown destinations to an upstream router. On
  EVL, the out-of-band real-time core, mailboxes of one process write into each other's priority
  rings, mailboxes of different processes use a ring in shared memory, and mailboxes of different
  hosts use UDP. A second router daemon bridges the two worlds: it writes frames for an EVL mailbox
  into that mailbox's cross buffer and turns what it reads there into frames.

  \<^bold>\<open>Theories and sources\<close> (paths below \<open>src/\<close>).

    \<^item> \<open>Prelude\<close>: word and byte types, little-endian images, the locale \<open>wire_layout\<close> of structs that
      are copied to and from the wire, decimal numbers.
    \<^item> \<open>Protocol\<close>: \<open>include/corerat/ipc/tims/protocol.hpp\<close>, \<open>ipc/ipc_types.hpp\<close>. Frame header and
      registration payload with their bytes, both instances of \<open>wire_layout\<close>; results; configuration.
    \<^item> \<open>Tcp_Socket\<close>: \<open>ipc/tims/tcp_socket.hpp\<close>. Send and receive loops over the kernel's answers; the
      locale \<open>exact_writer\<close> of "write all of it" primitives, instance \<open>tcp_writer\<close>.
    \<^item> \<open>Mailbox_Table\<close>: the locale \<open>mailbox_table\<close>, what both routers need of their registry.
    \<^item> \<open>Tcp_Router\<close>, \<open>Tcp_Router_Props\<close>: \<open>src/router/tcp_router.cpp\<close>. State, frame handler, peers,
      upstream and system routes, the step relation \<open>step\<close> and \<open>reachable\<close>; the control state as an
      abstract specification that the frame handler refines.
    \<^item> \<open>Evl_Router\<close>, \<open>Evl_Router_Props\<close>: \<open>src/router/evl_router.cpp\<close>. The same daemon with cross
      buffers as a third kind of entry; instances of \<open>mailbox_table\<close> and \<open>exact_writer\<close>.
    \<^item> \<open>Router_Cli\<close>, \<open>Router_Daemon\<close>: \<open>main\<close> of both daemons: option loop and \<open>stoul\<close>, listening
      socket, accept loop and shutdown.
    \<^item> \<open>Federation\<close>: two TCP routers joined by a peer link, composed from the rounds of \<open>Tcp_Router\<close>.
    \<^item> \<open>Fan_In\<close>: many clients of one router sending at once, under any schedule of its threads.
    \<^item> \<open>Router_Equiv\<close>: both daemons run on the same events; \<open>agree\<close> is the simulation relation.
    \<^item> \<open>Gateway\<close>: a TCP router and an EVL router joined by a peer link, with a TCP client at one end
      and a public EVL mailbox at the other.
    \<^item> \<open>Clock\<close>: \<open>platform/duration.hpp\<close>, \<open>platform/timestamp.hpp\<close> and the two \<open>timestamp_impl.hpp\<close>,
      whose copies of the conversions are shown to agree.
    \<^item> \<open>Wire_Message\<close>: \<open>messaging/wire_message.hpp\<close>.
    \<^item> \<open>Message_Registry\<close>: \<open>messaging/message_id.hpp\<close>, \<open>message_registry.hpp\<close>, \<open>registry_utils.hpp\<close>. Tuples of
      types at compile time are lists of definitions.
    \<^item> \<open>Tims_Backend\<close>, \<open>Tims_Props\<close>: \<open>src/tims_backend.cpp\<close>, \<open>ipc/tims/tims_backend.hpp\<close>.
    \<^item> \<open>Evl_Inband\<close>, \<open>Evl_Registry\<close>, \<open>Evl_Ring\<close>, \<open>Evl_Network\<close>, \<open>Evl_Remote\<close>, \<open>Evl_Mailbox\<close>: the parts of
      \<open>ipc/evl/evl_backend.hpp\<close>: the scope in which a real-time thread makes ordinary system calls, the
      hash table of a process's local mailboxes (locale \<open>directory\<close>), the
      priority ring (locale \<open>priority_mailbox\<close>), ports and routes, the cache of opened remote rings, and
      the class \<open>EvlMailbox\<close> over a model of one host.
    \<^item> \<open>Evl_Shm\<close>, \<open>Evl_Concurrent\<close>: the bytes of the shared memory ring of the same file, addressed as
      the sources do, and the ring used by several threads and processes under its named mutex.
    \<^item> \<open>Mailbox\<close>, \<open>Mailbox_Props\<close>: \<open>ipc/mailbox.hpp\<close>, \<open>ipc/mailbox_config.hpp\<close>. The class over either
      back end; the locale \<open>ipc_backend\<close> is what it relies on, with instances \<open>tims\<close> and \<open>evl\<close>.
    \<^item> \<open>Request_Reply\<close>, \<open>Evl_Typed\<close>: typed mailboxes end to end, a request with its reply through the
      router and a message between two mailboxes of one EVL process.
    \<^item> \<open>Ownership\<close>: the locale \<open>resource_owner\<close>, what a RAII wrapper promises of the kernel resources
      it holds; instances for threads and files of both back ends.
    \<^item> \<open>Threading\<close>: \<open>platform/threading.hpp\<close> and the two \<open>threading_impl.hpp\<close>. \<open>Thread\<close> with its
      configuration, and the waits of the EVL condition variable.
    \<^item> \<open>Locks\<close>: \<open>Mutex\<close>, \<open>SharedMutex\<close> and \<open>ConditionVariable\<close> of the same files; the locale
      \<open>monitor_lock\<close> is what a program of locked sections needs of a lock class, \<open>exclusive_lock\<close> what
      a plain mutex adds, with the standard locks as instances; \<open>monitor_step\<close> interleaves the threads.
    \<^item> \<open>File_Io\<close>: \<open>platform/file.hpp\<close> and the two \<open>file_impl.hpp\<close>.
    \<^item> \<open>Logging\<close>, \<open>Logging_Props\<close>: \<open>logging/\<close>. Levels, streams, the ring with its writers and its
      drain thread step by step, the terminal and the TiMS sink; the locale \<open>drop_newest_queue\<close>.
    \<^item> This theory: properties that span the daemons and the back ends.

  \<^bold>\<open>How the code is rendered.\<close> A class is a record of its members, a method a function that returns
  the new record; a pointer between objects is an index or an address. Integers whose width
  matters are words. Errors are values: result codes, \<open>option\<close>, sums. The kernel is never guessed: a
  socket carries the streams of answers its coming system calls will get, other calls take their
  answers as arguments, and a theorem that needs a call to succeed says so. \<open>Undefined\<close> marks C++
  behaviour that is undefined, \<open>Blocked\<close> a call still waiting. Locks make a handler atomic: one
  step of a daemon is one handler run of one thread, and the steps of all threads interleave
  freely in \<open>step\<close> and \<open>er_step\<close>. The logger's drain thread takes no lock, so there every access to
  the shared counters is a step of its own in \<open>log_step\<close>; these accesses are atomics with acquire
  and release order and are taken to happen one after the other. What the C++ memory model
  permits beyond that is not modelled. That sections under a lock may be taken as one step is
  itself shown: in \<open>monitor_step\<close> every load, store, wait and wake-up of every thread is a step of
  its own, and the outcome is that of running whole sections one after the other.

  \<^bold>\<open>Loops.\<close> Send, receive and write loops end because every round transfers bytes; the client's
  receive loop ends because every round that goes on takes a frame header off a finite stream. All
  of these are total functions with termination proofs. Waiting on the EVL condition variable and
  \<open>clean\<close> consume one list element per round and yield \<open>Blocked\<close> when the list ends; \<open>clean_ends\<close>
  gives a list length that suffices, \<open>local_receive_result\<close> the case in which the wait returns. The
  waits of the condition variable class need not end and are partial; \<open>wait_for_decides\<close> says when
  they do. The logger's flush ends because each round brings the counters one closer.

  \<^bold>\<open>Parameters.\<close> The serialisation library \<open>sertial\<close>, which is not part of the sources, is an argument:
  the encoder and decoder of a type, its buffer size, and the byte-order conversion. Theorems that
  rely on it assume that decoding an encoded message gives it back, that the header comes first in
  its memory layout, and that conversion from the host's own order changes nothing; the witnesses
  instantiate it with an encoder that copies header and payload. The library's text formatting,
  which the logger uses, is an argument too; only that it respects the capacity is ever assumed.
  libevl is a parameter of the EVL locks, a record of functions that return the new state of the
  object and a return code; theorems assume what its manual says of them.

  \<^bold>\<open>What is shown.\<close>

    \<^item> Routing: a frame goes to exactly the connection that registered its destination, unchanged;
      first registration wins and is announced to peers; unknown destinations go upstream or are
      answered with an error; every route of a reachable daemon leads to a live connection or an open
      cross buffer.
    \<^item> Delivery: a typed message sent by one mailbox reaches the other's visitor with its type, payload
      and sender, through the router, and the reply comes back to the requester; between two mailboxes
      of one EVL process it arrives through the ring; data for an EVL mailbox crosses the bridge
      unchanged; messages on one connection arrive in order, once.
    \<^item> Many senders: whatever the schedule of the router's threads, a receiver gets every served
      message for it once, and those of one sender in the order sent.
    \<^item> One protocol, two daemons: without cross buffers the EVL router sends and receives byte for byte
      what the TCP router does on the same events.
    \<^item> Federation: a registration at one router reaches its peers, after which data sent at a peer
      arrives at the mailbox, also when the one router is the TCP and the other the EVL router and the
      mailbox an EVL one, in both directions; when a link comes up both sides learn each other's mailboxes.
    \<^item> The EVL ring is a bounded priority bag: posting and receiving keep every other message, the
      most urgent comes first, and eviction never drops a more urgent message. The directory is a map
      while it has room. The remote cache is least recently used. The bytes in shared memory refine
      this ring, and calls by several threads and processes are linearised by its mutex.
    \<^item> Locks: sections of the standard locks are atomic, readers and writers exclude each other; EVL
      locks do the same for attached threads.
    \<^item> The registry's ids are distinct under stated conditions, and then dispatch inverts serialisation.
    \<^item> A mailbox is running exactly when its back end is initialised; \<open>clean\<close> returns; replies go to
      the requester under the negated id; command lines are parsed back to what they say; a daemon
      started by \<open>main\<close> only ever reaches states of its router's step relation.
    \<^item> Logging: every entry is handed to all sinks exactly once and in order although the drain thread
      takes no lock and the counters wrap, the newest entries are dropped when the ring is full,
      stopping flushes the ring, and the bytes of the TiMS sink are those of a wire header.
    \<^item> Threads and files: every live kernel thread and every open descriptor has exactly one owner,
      whatever sequence of operations and moves has been carried out.
    \<^item> Where the code does not do what it is meant to, a lemma shows that: lost routes on disconnect,
      mailboxes announced after their client has gone, for which a frame loops between two routers,
      misreported time-outs, refused locks that are taken as granted, streams out of step after an
      oversized message, ids that collide, messages that overwrite a neighbour or go to memory nobody reads, log messages that make the router close
      the connection, an error message that is read past its buffer.

  \<^bold>\<open>Not modelled.\<close> Scheduling, priorities and timing themselves: sleeping, yielding and attaching a
  thread are the requests they make, and what the kernel then does is not described; what the
  daemons print on the terminal, apart from the terminal sink; the conversion of a literal by the
  compiler; the selection of a back end by preprocessor and build files; tests and scripts.
\<close>

section \<open>From a TCP client to an EVL mailbox\<close>

text \<open>
  C12. The bridge, end to end: data that a TCP client \<open>a\<close> sends successfully to a mailbox the EVL
  router knows as a cross buffer comes out of that cross buffer, without the frame header and
  unchanged, and when the public EVL mailbox behind it is woken with those bytes its receive
  returns exactly the data sent.
\<close>

theorem bridge_to_evl:
  assumes "send_raw a (Some d) dest = (SUCCESS, a')"
    and "sk_tx (tm_socket a') = sk_tx (tm_socket a) @ wire" and "length d + 16 < 2 ^ 32"
    and "live (er_socket r c)" and "c < length (rt_connections (er_core r))" and "sk_rx (er_socket r c) = wire"
    and "length d \<le> rt_max_msg_size (er_core r)"
    and "er_table r dest = Some (Xbuf i)" and "i < length (er_xbufs r)"
    and "0 \<le> xb_fd (er_xbufs r ! i)" and "\<forall>j. 0 < xb_write_k (er_xbufs r ! i) j"
    and "xb_out (er_xbufs (er_connection_iter xopen r c) ! i) = xb_out (er_xbufs r ! i) @ got"
    and "is_created w b" and "eb_mode (w_box w b) = Public" and "0 \<le> eb_xbuf_fd (w_box w b)"
    and "0 \<le> eb_poll_fd (w_box w b)"
    and "rv_poll env (receive_deadline (rv_now env) timeout) = (1, Xbuf_ready got # events)" and "length d \<le> n"
  shows "got = d \<and> (\<exists>w'. receive_impl env b n timeout w = Done (int (length d), d, xbuf_metadata d, w'))"
proof -
  let ?f = "data_frame a d dest"
  have wire: "wire = frame_bytes ?f @ d" and d: "d \<noteq> []"
    using send_raw_success [OF assms(1)] assms(2) by simp_all
  obtain s where s: "er_connection_iter xopen r c = er_dispatch_frame xopen (on_core (\<lambda>t. set_socket t c s) r) c ?f d"
    using er_connection_iter_data [OF assms(4,5), of ?f d "[]" xopen] assms(3,6,7) wire d by auto
  obtain x where x: "write_body (er_xbufs r ! i) d = (True, x)" "xb_out x = xb_out (er_xbufs r ! i) @ d"
    using write_body_accepts [OF assms(10,11) d] .
  have "er_connection_iter xopen r c = set_xbuf (on_core (\<lambda>t. set_socket t c s) r) i x"
    using assms(8) x(1) by (simp add: s er_dispatch_data er_route_data_def find_entry_def)
  then have got: "got = d" using assms(9,12) x(2) by simp
  moreover obtain w' where "receive_impl env b n timeout w = Done (int (length d), d, xbuf_metadata d, w')"
    using xbuf_receive [OF assms(13-16) d assms(18) assms(17) [unfolded got]] .
  ultimately show ?thesis by blast
qed

definition ex_bridge :: evl_router where
  "ex_bridge = on_core (\<lambda>t. set_socket t 0 (ex_socket\<lparr>sk_rx := ex_bridge_wire\<rparr>)) ex_evl_router"

definition ex_bridge_env :: receive_env where
  "ex_bridge_env = ex_env\<lparr>rv_poll := (\<lambda>_. (1, [Xbuf_ready [7, 8]]))\<rparr>"

lemma ex_bridge_facts:
  "live (er_socket ex_bridge 0)" "0 < length (rt_connections (er_core ex_bridge))"
  "sk_rx (er_socket ex_bridge 0) = ex_bridge_wire" "rt_max_msg_size (er_core ex_bridge) = 4096"
  "er_table ex_bridge 0x0404 = Some (Xbuf 0)" "er_xbufs ex_bridge = [ex_xbuf]"
  using ex_evl_facts by (simp_all add: ex_bridge_def socket_of_set_socket)

lemma ex_bridge_out:
  "xb_out (er_xbufs (er_connection_iter (\<lambda>_. (-1, \<lambda>_. 0)) ex_bridge 0) ! 0) = xb_out (er_xbufs ex_bridge ! 0) @ [7, 8]"
  by code_simp

theorem bridge_to_evl_witness:
  "\<exists>w'. receive_impl ex_bridge_env 0 8 (milliseconds 5) ex_bridge_host = Done (2, [7, 8], xbuf_metadata [7, 8], w')"
proof -
  obtain a' where a': "send_raw ex_tims (Some [7, 8]) 0x0404 = (SUCCESS, a')"
    "sk_tx (tm_socket a') = sk_tx (tm_socket ex_tims) @ ex_bridge_wire" by (rule ex_bridge_sent)
  from bridge_to_evl [OF a' _ ex_bridge_facts(1-3) _ ex_bridge_facts(5) _ _ _ ex_bridge_out ex_bridge_host_facts(1-4),
      of ex_bridge_env "milliseconds 5" "[]" 8]
  show ?thesis
    by (simp add: ex_bridge_facts ex_xbuf_def start_reader_def new_xbuf_def ex_bridge_env_def)
qed

end
